theory Spec2Isabelle
  imports Complex_Main "HOL-Library.Word"
begin

section \<open>The create\_atoms command of LAMMPS (create\_atoms.cpp)\<close>

text \<open>
  A shallow embedding of the parts of \<^verbatim>\<open>CreateAtoms\<close> that place atoms: the unit
  scaling and sub-box set-up of \<^verbatim>\<open>command\<close>, \<^verbatim>\<open>add_single\<close>, \<^verbatim>\<open>add_random\<close>,
  \<^verbatim>\<open>add_lattice\<close>, \<^verbatim>\<open>loop_lattice\<close> and the molecule-ID pass at the end of
  \<^verbatim>\<open>command\<close>.

  Conventions.
  \<^item> A C++ \<^verbatim>\<open>double\<close> is a \<^typ>\<open>real\<close>: arithmetic is exact, comparisons are the
    source's comparisons. A \<^verbatim>\<open>double[3]\<close> is a triple.
  \<^item> A C++ \<^verbatim>\<open>int\<close> that the source can overflow (the site counter \<^verbatim>\<open>nlatt\<close>, the
    reduced overflow flag) is a \<^typ>\<open>32 word\<close>, read with \<^const>\<open>sint\<close>, and so is a
    \<^verbatim>\<open>tagint\<close>. The loop bounds and loop counters of \<^verbatim>\<open>loop_lattice\<close> are integers
    checked against the range of \<^verbatim>\<open>int\<close>: a conversion or an increment that leaves the
    range ends the run with an error.
  \<^item> Objects the file only calls (lattice, region, variable, domain, random
    generators, the molecule template) are records of the values and functions the
    calls return.
  \<^item> The ranks of the MPI communicator run the same code in lock step; a collective
    is a function of the list of the ranks' contributions, in rank order.
\<close>

subsection \<open>Vectors and enumerations\<close>

type_synonym vec3 = "real \<times> real \<times> real"

text \<open>The components \<^verbatim>\<open>v[0]\<close>, \<^verbatim>\<open>v[1]\<close>, \<^verbatim>\<open>v[2]\<close> of a three-element array, and \<^verbatim>\<open>v[a]\<close>.\<close>

definition v0 :: "'a \<times> 'a \<times> 'a \<Rightarrow> 'a" where "v0 v = fst v"
definition v1 :: "'a \<times> 'a \<times> 'a \<Rightarrow> 'a" where "v1 v = fst (snd v)"
definition v2 :: "'a \<times> 'a \<times> 'a \<Rightarrow> 'a" where "v2 v = snd (snd v)"

definition ax :: "nat \<Rightarrow> 'a \<times> 'a \<times> 'a \<Rightarrow> 'a" where
  "ax a v = (if a = 0 then v0 v else if a = 1 then v1 v else v2 v)"

text \<open>\<^verbatim>\<open>enum { BOX, REGION, SINGLE, RANDOM }\<close> and its three siblings.\<close>

datatype style = BOX | REGION | SINGLE | RANDOM
datatype mode = ATOM | MOLECULE
datatype action = COUNT | INSERT | INSERT_SELECTED
datatype subset = NONE | RATIO | SUBSET

text \<open>The fatal errors (\<^verbatim>\<open>error->all\<close>) and the undefined behaviours the model tracks.\<close>

datatype error =
    UndefinedLattice          \<comment> \<open>"Cannot create atoms with undefined lattice"\<close>
  | NoOverlapBoxRegion        \<comment> \<open>"No overlap of box and region for create\_atoms"\<close>
  | LatticeOverflow           \<comment> \<open>"Create\_atoms lattice size overflow on 1 or more procs"\<close>
  | SubsetTooBig              \<comment> \<open>"Create\_atoms subset size > \# of lattice sites"\<close>
  | FlagIndexOutOfRange       \<comment> \<open>a read of \<^verbatim>\<open>flag[nlatt]\<close> outside the allocated array\<close>
  | DivisionByZero            \<comment> \<open>an \<^verbatim>\<open>int\<close> division by zero\<close>
  | IntConversionUndefined    \<comment> \<open>\<^verbatim>\<open>static_cast<int>\<close> or \<^verbatim>\<open>int\<close> arithmetic outside the range of \<^verbatim>\<open>int\<close>\<close>

subsection \<open>Unit scaling in \<^verbatim>\<open>command\<close> (lines 319--326)\<close>

record lattice_units =
  xlattice :: real
  ylattice :: real
  zlattice :: real

text \<open>
  \<^verbatim>\<open>
  if (style == BOX || style == REGION) {
    if (nbasis == 0) error->all(FLERR, "Cannot create atoms with undefined lattice");
  } else if (scaleflag == 1) {
    xone[0] *= domain->lattice->xlattice;
    xone[1] *= domain->lattice->ylattice;
    xone[2] *= domain->lattice->zlattice;
    overlap *= domain->lattice->xlattice;
  }
  \<close>
  The state is the pair of the members \<^verbatim>\<open>xone\<close> and \<^verbatim>\<open>overlap\<close>.
\<close>

definition scale_units ::
  "style \<Rightarrow> int \<Rightarrow> int \<Rightarrow> lattice_units \<Rightarrow> vec3 \<times> real \<Rightarrow> error + vec3 \<times> real" where
  "scale_units sty scaleflag nbasis lat s =
     (if sty = BOX \<or> sty = REGION then
        (if nbasis = 0 then Inl UndefinedLattice else Inr s)
      else if scaleflag = 1 then
        Inr ((v0 (fst s) * xlattice lat, v1 (fst s) * ylattice lat, v2 (fst s) * zlattice lat),
             snd s * xlattice lat)
      else Inr s)"

text \<open>
  The distance \<^verbatim>\<open>odist\<close> that \<^verbatim>\<open>add_random\<close> squares (lines 670--674):
  \<^verbatim>\<open>double odist = overlap; if (mode == MOLECULE) odist += onemol->molradius;\<close>
\<close>

definition odist :: "mode \<Rightarrow> real \<Rightarrow> real \<Rightarrow> real" where
  "odist md overlap molradius = (if md = MOLECULE then overlap + molradius else overlap)"

definition odistsq :: "mode \<Rightarrow> real \<Rightarrow> real \<Rightarrow> real" where
  "odistsq md overlap molradius = odist md overlap molradius * odist md overlap molradius"

subsection \<open>Loop bounds in \<^verbatim>\<open>add_lattice\<close> (lines 883--892)\<close>

text \<open>
  \<^verbatim>\<open>static_cast<int>(x)\<close> drops the fraction (rounds toward zero); the conversion is
  undefined when the result is not a value of \<^verbatim>\<open>int\<close>, and so is \<^verbatim>\<open>int\<close> arithmetic
  that leaves the range.
\<close>

definition INT_MIN :: int where "INT_MIN = - (2 ^ 31)"
definition INT_MAX :: int where "INT_MAX = 2 ^ 31 - 1"

definition in_int :: "int \<Rightarrow> int option" where
  "in_int n = (if INT_MIN \<le> n \<and> n \<le> INT_MAX then Some n else None)"

definition trunc_to_zero :: "real \<Rightarrow> int" where
  "trunc_to_zero x = (if 0 \<le> x then \<lfloor>x\<rfloor> else \<lceil>x\<rceil>)"

definition static_cast_int :: "real \<Rightarrow> int option" where
  "static_cast_int x = in_int (trunc_to_zero x)"

text \<open>
  \<^verbatim>\<open>
  ilo = static_cast<int>(xmin) - 1;
  ...
  if (xmin < 0.0) ilo--;
  \<close>
\<close>

definition lo_bound :: "real \<Rightarrow> int option" where
  "lo_bound xmin =
     Option.bind (static_cast_int xmin) (\<lambda>t.
     Option.bind (in_int (t - 1)) (\<lambda>lo.
     if xmin < 0 then in_int (lo - 1) else Some lo))"

text \<open>\<^verbatim>\<open>ihi = static_cast<int>(xmax) + 1;\<close>\<close>

definition hi_bound :: "real \<Rightarrow> int option" where
  "hi_bound xmax = Option.bind (static_cast_int xmax) (\<lambda>t. in_int (t + 1))"

record loop_bounds =
  ilo :: int
  jlo :: int
  klo :: int
  ihi :: int
  jhi :: int
  khi :: int

text \<open>The six bounds from the lattice-space bounding box \<open>(xmin, ymin, zmin)\<close>, \<open>(xmax, ymax, zmax)\<close>.\<close>

definition lattice_bounds :: "vec3 \<Rightarrow> vec3 \<Rightarrow> error + loop_bounds" where
  "lattice_bounds bmin bmax =
     (case (lo_bound (v0 bmin), lo_bound (v1 bmin), lo_bound (v2 bmin),
            hi_bound (v0 bmax), hi_bound (v1 bmax), hi_bound (v2 bmax)) of
        (Some il, Some jl, Some kl, Some ih, Some jh, Some kh) \<Rightarrow>
          Inr \<lparr>ilo = il, jlo = jl, klo = kl, ihi = ih, jhi = jh, khi = kh\<rparr>
      | _ \<Rightarrow> Inl IntConversionUndefined)"

subsection \<open>The sub-box of a rank: set-up in \<^verbatim>\<open>command\<close> (lines 340--395) and the ownership test\<close>

record domain_box =
  triclinic :: bool
  prd :: vec3                          \<comment> \<open>\<^verbatim>\<open>domain->prd\<close>\<close>
  dom_sublo :: vec3                    \<comment> \<open>\<^verbatim>\<open>domain->sublo\<close>\<close>
  dom_subhi :: vec3
  dom_sublo_lamda :: vec3              \<comment> \<open>\<^verbatim>\<open>domain->sublo_lamda\<close>\<close>
  dom_subhi_lamda :: vec3
  periodicity :: "bool \<times> bool \<times> bool"   \<comment> \<open>\<^verbatim>\<open>xperiodic\<close>, \<^verbatim>\<open>yperiodic\<close>, \<^verbatim>\<open>zperiodic\<close>\<close>

record comm_layout =
  layout_tiled :: bool                 \<comment> \<open>\<^verbatim>\<open>comm->layout == Comm::LAYOUT_TILED\<close>\<close>
  myloc :: "int \<times> int \<times> int"
  procgrid :: "int \<times> int \<times> int"
  mysplit :: "(real \<times> real) \<times> (real \<times> real) \<times> (real \<times> real)"

definition EPSILON :: real where "EPSILON = 1 / 1000000"

text \<open>\<^verbatim>\<open>epsilon[a]\<close>: \<^verbatim>\<open>EPSILON\<close> if triclinic, else \<^verbatim>\<open>domain->prd[a] * EPSILON\<close>.\<close>

definition epsilon :: "domain_box \<Rightarrow> nat \<Rightarrow> real" where
  "epsilon d a = (if triclinic d then EPSILON else ax a (prd d) * EPSILON)"

text \<open>The bounds before the adjustment: box coordinates if orthogonal, lamda coordinates if triclinic.\<close>

definition domain_lo :: "domain_box \<Rightarrow> nat \<Rightarrow> real" where
  "domain_lo d a = (if \<not> triclinic d then ax a (dom_sublo d) else ax a (dom_sublo_lamda d))"

definition domain_hi :: "domain_box \<Rightarrow> nat \<Rightarrow> real" where
  "domain_hi d a = (if \<not> triclinic d then ax a (dom_subhi d) else ax a (dom_subhi_lamda d))"

text \<open>
  Whether this rank is the lowest (highest) one along axis \<open>a\<close>:
  \<^verbatim>\<open>comm->myloc[a] == 0\<close> (\<^verbatim>\<open>== comm->procgrid[a] - 1\<close>) in the brick layout,
  \<^verbatim>\<open>comm->mysplit[a][0] == 0.0\<close> (\<^verbatim>\<open>comm->mysplit[a][1] == 1.0\<close>) in the tiled layout.
\<close>

definition at_lo_edge :: "comm_layout \<Rightarrow> nat \<Rightarrow> bool" where
  "at_lo_edge c a =
     (if \<not> layout_tiled c then ax a (myloc c) = 0 else fst (ax a (mysplit c)) = 0)"

definition at_hi_edge :: "comm_layout \<Rightarrow> nat \<Rightarrow> bool" where
  "at_hi_edge c a =
     (if \<not> layout_tiled c then ax a (myloc c) = ax a (procgrid c) - 1
      else snd (ax a (mysplit c)) = 1)"

text \<open>
  The stored \<^verbatim>\<open>sublo[a]\<close> and \<^verbatim>\<open>subhi[a]\<close>. For one axis the source reads
  \<^verbatim>\<open>
  if (style == BOX || style == REGION) {
    if (comm->layout != Comm::LAYOUT_TILED) {
      if (domain->xperiodic) {
        if (comm->myloc[0] == 0) sublo[0] -= epsilon[0];
        if (comm->myloc[0] == comm->procgrid[0] - 1) subhi[0] -= 2.0 * epsilon[0];
      }
  \<close>
  and the same for the other two axes and for the tiled layout.
\<close>

definition stored_sublo :: "style \<Rightarrow> domain_box \<Rightarrow> comm_layout \<Rightarrow> nat \<Rightarrow> real" where
  "stored_sublo sty d c a =
     (if (sty = BOX \<or> sty = REGION) \<and> ax a (periodicity d) \<and> at_lo_edge c a
      then domain_lo d a - epsilon d a else domain_lo d a)"

definition stored_subhi :: "style \<Rightarrow> domain_box \<Rightarrow> comm_layout \<Rightarrow> nat \<Rightarrow> real" where
  "stored_subhi sty d c a =
     (if (sty = BOX \<or> sty = REGION) \<and> ax a (periodicity d) \<and> at_hi_edge c a
      then domain_hi d a - 2 * epsilon d a else domain_hi d a)"

definition set_sublo :: "style \<Rightarrow> domain_box \<Rightarrow> comm_layout \<Rightarrow> vec3" where
  "set_sublo sty d c = (stored_sublo sty d c 0, stored_sublo sty d c 1, stored_sublo sty d c 2)"

definition set_subhi :: "style \<Rightarrow> domain_box \<Rightarrow> comm_layout \<Rightarrow> vec3" where
  "set_subhi sty d c = (stored_subhi sty d c 0, stored_subhi sty d c 1, stored_subhi sty d c 2)"

text \<open>
  The test of \<^verbatim>\<open>loop_lattice\<close> (lines 996--998), which skips the site when it holds:
  \<^verbatim>\<open>
  if (coord[0] < sublo[0] || coord[0] >= subhi[0] || coord[1] < sublo[1] ||
      coord[1] >= subhi[1] || coord[2] < sublo[2] || coord[2] >= subhi[2]) continue;
  \<close>
\<close>

definition outside_subbox :: "vec3 \<Rightarrow> vec3 \<Rightarrow> vec3 \<Rightarrow> bool" where
  "outside_subbox lo hi coord =
     (v0 coord < v0 lo \<or> v0 coord \<ge> v0 hi \<or> v1 coord < v1 lo \<or>
      v1 coord \<ge> v1 hi \<or> v2 coord < v2 lo \<or> v2 coord \<ge> v2 hi)"

text \<open>
  The test of \<^verbatim>\<open>add_single\<close> and \<^verbatim>\<open>add_random\<close> (lines 649--650, 796--797), which
  creates the atom when it holds.
\<close>

definition in_subbox :: "vec3 \<Rightarrow> vec3 \<Rightarrow> vec3 \<Rightarrow> bool" where
  "in_subbox lo hi coord =
     (v0 coord \<ge> v0 lo \<and> v0 coord < v0 hi \<and> v1 coord \<ge> v1 lo \<and>
      v1 coord < v1 hi \<and> v2 coord \<ge> v2 lo \<and> v2 coord < v2 hi)"

subsection \<open>Atom storage and \<^verbatim>\<open>add_molecule\<close> (lines 1031--1071)\<close>

type_synonym mat3 = "vec3 \<times> vec3 \<times> vec3"

text \<open>\<^verbatim>\<open>MathExtra::matvec\<close> (matrix times vector) and \<^verbatim>\<open>MathExtra::add3\<close>.\<close>

definition dot3 :: "vec3 \<Rightarrow> vec3 \<Rightarrow> real" where
  "dot3 a b = v0 a * v0 b + v1 a * v1 b + v2 a * v2 b"

definition matvec :: "mat3 \<Rightarrow> vec3 \<Rightarrow> vec3" where
  "matvec m v = (dot3 (v0 m) v, dot3 (v1 m) v, dot3 (v2 m) v)"

definition add3 :: "vec3 \<Rightarrow> vec3 \<Rightarrow> vec3" where
  "add3 a b = (v0 a + v0 b, v1 a + v1 b, v2 a + v2 b)"

text \<open>
  \<^verbatim>\<open>tagint\<close>, the type of atom IDs and molecule IDs, is declared outside this file; in
  the default build it is a 32-bit \<^verbatim>\<open>int\<close>. It is a \<^typ>\<open>32 word\<close> here, read with
  \<^const>\<open>sint\<close>: sums wrap around, comparisons are signed.
\<close>

type_synonym tagint = "32 word"

text \<open>
  The molecule template \<^verbatim>\<open>onemol\<close>: the fields of \<^verbatim>\<open>Molecule\<close> the file reads. The
  arrays \<open>dx\<close>, \<open>mol_type\<close> and \<open>mol_molecule\<close> have \<open>natoms\<close> entries.
\<close>

record molecule_template =
  natoms :: nat
  dx :: "vec3 list"                    \<comment> \<open>\<^verbatim>\<open>onemol->dx[m]\<close>: offsets from the centre\<close>
  mol_type :: "int list"               \<comment> \<open>\<^verbatim>\<open>onemol->type[m]\<close>\<close>
  molradius :: real
  moleculeflag :: bool
  mol_molecule :: "tagint list"        \<comment> \<open>\<^verbatim>\<open>onemol->molecule[m]\<close>\<close>
  nmolecules :: int                    \<comment> \<open>an \<^verbatim>\<open>int\<close>, converted where it is added to a \<^verbatim>\<open>tagint\<close>\<close>
  bondflag :: bool
  angleflag :: bool
  dihedralflag :: bool
  improperflag :: bool
  specialflag :: bool

text \<open>
  What a rank stores: for each local atom its type and position (\<^verbatim>\<open>atom->type\<close>,
  \<^verbatim>\<open>atom->x\<close>, \<^verbatim>\<open>atom->nlocal\<close> entries), and how many molecule orientations it has
  drawn from \<^verbatim>\<open>ranmol\<close> so far.
\<close>

record proc_atoms =
  atoms :: "(int \<times> vec3) list"
  nquat :: nat

text \<open>\<^verbatim>\<open>atom->avec->create_atom(type, x)\<close> appends one atom.\<close>

definition create_atom :: "int \<Rightarrow> vec3 \<Rightarrow> 'a proc_atoms_scheme \<Rightarrow> 'a proc_atoms_scheme" where
  "create_atom ty x st = st\<lparr>atoms := atoms st @ [(ty, x)]\<rparr>"

text \<open>
  What placing needs besides the position: \<^verbatim>\<open>mode\<close>, \<^verbatim>\<open>ntype\<close>, the template, and the
  rotation matrix of the \<open>n\<close>-th molecule a rank adds (\<^verbatim>\<open>quat_to_mat(quatone, rotmat)\<close>,
  with \<^verbatim>\<open>quatone\<close> the user's quaternion or drawn from \<^verbatim>\<open>ranmol\<close>).
\<close>

record placing =
  pl_mode :: mode
  ntype :: int
  onemol :: molecule_template
  rotmat :: "nat \<Rightarrow> mat3"

text \<open>
  \<^verbatim>\<open>
  for (int m = 0; m < natoms; m++) {
    MathExtra::matvec(rotmat, onemol->dx[m], xnew);
    MathExtra::add3(xnew, center, xnew);
    atom->avec->create_atom(ntype + onemol->type[m], xnew);
    ...
  }
  \<close>
\<close>

definition molecule_atoms :: "placing \<Rightarrow> mat3 \<Rightarrow> vec3 \<Rightarrow> (int \<times> vec3) list" where
  "molecule_atoms p rot center =
     map (\<lambda>m. (ntype p + mol_type (onemol p) ! m, add3 (matvec rot (dx (onemol p) ! m)) center))
       [0..<natoms (onemol p)]"

definition add_molecule :: "placing \<Rightarrow> vec3 \<Rightarrow> 'a proc_atoms_scheme \<Rightarrow> 'a proc_atoms_scheme" where
  "add_molecule p center st =
     st\<lparr>atoms := atoms st @ molecule_atoms p (rotmat p (nquat st)) center, nquat := nquat st + 1\<rparr>"

text \<open>\<^verbatim>\<open>if (mode == ATOM) atom->avec->create_atom(type, x); else add_molecule(x);\<close>\<close>

definition place :: "placing \<Rightarrow> int \<Rightarrow> vec3 \<Rightarrow> 'a proc_atoms_scheme \<Rightarrow> 'a proc_atoms_scheme" where
  "place p ty x st = (if pl_mode p = ATOM then create_atom ty x st else add_molecule p x st)"

subsection \<open>\<^verbatim>\<open>loop_lattice\<close> (lines 955--1025)\<close>

text \<open>
  What the loop reads and does not change: members of \<^verbatim>\<open>CreateAtoms\<close> and the objects
  it calls. \<open>basis\<close> and \<open>basistype\<close> have \<open>nbasis\<close> entries (lines 142--144).
  \<open>region_match\<close> is \<^verbatim>\<open>region->match\<close>, \<open>vartest\<close> the member function of lines
  1078--1088, both returning 0 for a position they reject.
\<close>

record site_env =
  la_style :: style
  la_triclinic :: bool
  la_varflag :: bool
  nbasis :: nat
  basis :: "vec3 list"
  basistype :: "int list"
  lattice2box :: "vec3 \<Rightarrow> vec3"
  region_match :: "vec3 \<Rightarrow> int"
  vartest :: "vec3 \<Rightarrow> int"
  x2lamda :: "vec3 \<Rightarrow> vec3"
  sublo :: vec3
  subhi :: vec3
  la_placing :: placing
  bbox_min :: vec3                     \<comment> \<open>\<open>xmin, ymin, zmin\<close> after the eight \<^verbatim>\<open>lattice->bbox\<close> calls\<close>
  bbox_max :: vec3

text \<open>What the loop writes: the atoms, and the members \<^verbatim>\<open>nlatt\<close> and \<^verbatim>\<open>nlatt_overflow\<close>.\<close>

record latt_state = proc_atoms +
  nlatt :: "32 word"
  nlatt_overflow :: "32 word"

definition MAXSMALLINT :: "32 word" where "MAXSMALLINT = 0x7FFFFFFF"

type_synonym site = "int \<times> int \<times> int \<times> nat"

text \<open>
  The position of site \<open>(i, j, k, m)\<close> in box coordinates:
  \<^verbatim>\<open>x[0] = i + basis[m][0]; ... domain->lattice->lattice2box(x[0], x[1], x[2]);\<close>
\<close>

definition site_x :: "site_env \<Rightarrow> site \<Rightarrow> vec3" where
  "site_x e s =
     (case s of (i, j, k, m) \<Rightarrow>
        lattice2box e (of_int i + v0 (basis e ! m), of_int j + v1 (basis e ! m),
                       of_int k + v2 (basis e ! m)))"

text \<open>\<^verbatim>\<open>if (triclinic) { domain->x2lamda(x, lamda); coord = lamda; } else coord = x;\<close>\<close>

definition site_coord :: "site_env \<Rightarrow> vec3 \<Rightarrow> vec3" where
  "site_coord e x = (if la_triclinic e then x2lamda e x else x)"

text \<open>
  The action on a site this rank owns (lines 1004--1018). \<^verbatim>\<open>flag[nlatt]\<close> is read only
  under \<^verbatim>\<open>action == INSERT_SELECTED\<close>; \<open>fl\<close> is the array, its length the allocated size.
\<close>

definition perform ::
  "action \<Rightarrow> site_env \<Rightarrow> int list \<Rightarrow> nat \<Rightarrow> vec3 \<Rightarrow> latt_state \<Rightarrow> error + latt_state" where
  "perform act e fl m x st =
     (if act = INSERT then Inr (place (la_placing e) (basistype e ! m) x st)
      else if act = COUNT then
        Inr (if nlatt st = MAXSMALLINT then st\<lparr>nlatt_overflow := 1\<rparr> else st)
      else if \<not> (0 \<le> sint (nlatt st) \<and> nat (sint (nlatt st)) < length fl) then
        Inl FlagIndexOutOfRange
      else if fl ! nat (sint (nlatt st)) \<noteq> 0 then
        Inr (place (la_placing e) (basistype e ! m) x st)
      else Inr st)"

text \<open>
  The body of the innermost loop: three \<^verbatim>\<open>continue\<close>s, the action, \<^verbatim>\<open>nlatt++\<close>.
  At \<^verbatim>\<open>MAXSMALLINT\<close> the increment overflows the \<^verbatim>\<open>int\<close>; the source sets its flag and
  goes on, and the counter wraps around here, as it does on two's-complement hardware.
\<close>

definition loop_body ::
  "action \<Rightarrow> site_env \<Rightarrow> int list \<Rightarrow> site \<Rightarrow> latt_state \<Rightarrow> error + latt_state" where
  "loop_body act e fl s st =
     (let x = site_x e s in
      if la_style e = REGION \<and> region_match e x = 0 then Inr st
      else if la_varflag e \<and> vartest e x = 0 then Inr st
      else if outside_subbox (sublo e) (subhi e) (site_coord e x) then Inr st
      else
        (case perform act e fl (snd (snd (snd s))) x st of
           Inl err \<Rightarrow> Inl err
         | Inr st' \<Rightarrow> Inr (st'\<lparr>nlatt := nlatt st' + 1\<rparr>)))"

text \<open>
  A loop body run for the elements of a list in order; an error ends the run.
\<close>

fun for_each :: "('i \<Rightarrow> 's \<Rightarrow> error + 's) \<Rightarrow> 'i list \<Rightarrow> 's \<Rightarrow> error + 's" where
  "for_each body [] st = Inr st"
| "for_each body (i # is) st =
     (case body i st of
        Inl err \<Rightarrow> Inl err
      | Inr st' \<Rightarrow> for_each body is st')"

text \<open>
  \<^verbatim>\<open>for (i = lo; i <= hi; i++) body\<close> with an \<^verbatim>\<open>int\<close> counter: the body runs for
  \<open>lo, ..., hi\<close>, and after the round for \<open>hi\<close> the counter is incremented once more
  before the test fails. For \<open>hi = INT_MAX\<close> (no \<^verbatim>\<open>int\<close> is larger) that increment leaves
  the range of \<^verbatim>\<open>int\<close>:
  the behaviour is undefined (where the counter wraps around, the test holds again and
  the loop does not end). The run ends there with an error. A loop that is not entered
  (\<open>lo > hi\<close>) increments nothing.
\<close>

definition for_int :: "int \<Rightarrow> int \<Rightarrow> (int \<Rightarrow> 's \<Rightarrow> error + 's) \<Rightarrow> 's \<Rightarrow> error + 's" where
  "for_int lo hi body st =
     (case for_each body [lo..hi] st of
        Inl err \<Rightarrow> Inl err
      | Inr st' \<Rightarrow> if lo \<le> hi \<and> INT_MAX \<le> hi then Inl IntConversionUndefined else Inr st')"

text \<open>
  \<^verbatim>\<open>
  nlatt = 0;
  for (k = klo; k <= khi; k++) {
    for (j = jlo; j <= jhi; j++) {
      for (i = ilo; i <= ihi; i++) {
        for (m = 0; m < nbasis; m++) {
  \<close>
\<close>

definition loop_lattice ::
  "action \<Rightarrow> site_env \<Rightarrow> loop_bounds \<Rightarrow> int list \<Rightarrow> latt_state \<Rightarrow> error + latt_state" where
  "loop_lattice act e b fl st =
     for_int (klo b) (khi b) (\<lambda>k.
       for_int (jlo b) (jhi b) (\<lambda>j.
         for_int (ilo b) (ihi b) (\<lambda>i.
           for_each (\<lambda>m. loop_body act e fl (i, j, k, m)) [0..<nbasis e])))
       (st\<lparr>nlatt := 0\<rparr>)"

text \<open>
  The sites in the order the four loops visit them, outermost first \<open>k\<close>, \<open>j\<close>, \<open>i\<close>,
  \<open>m\<close>, and the loop body run over a list of sites: the run up to a site is the run
  over the sites before it. A loop counter that reaches \<^verbatim>\<open>INT_MAX\<close> ends the run of
  \<^const>\<open>loop_lattice\<close> inside this list; when none does, \<^const>\<open>loop_lattice\<close> is the
  run over the whole list (lemma \<open>loop_lattice_sites\<close> below).
\<close>

definition lattice_sites :: "loop_bounds \<Rightarrow> nat \<Rightarrow> site list" where
  "lattice_sites b nb =
     concat (map (\<lambda>k.
       concat (map (\<lambda>j.
         concat (map (\<lambda>i.
           map (\<lambda>m. (i, j, k, m)) [0..<nb])
         [ilo b..ihi b]))
       [jlo b..jhi b]))
     [klo b..khi b])"

fun loop_sites ::
  "action \<Rightarrow> site_env \<Rightarrow> int list \<Rightarrow> site list \<Rightarrow> latt_state \<Rightarrow> error + latt_state" where
  "loop_sites act e fl [] st = Inr st"
| "loop_sites act e fl (s # ss) st =
     (case loop_body act e fl s st of
        Inl err \<Rightarrow> Inl err
      | Inr st' \<Rightarrow> loop_sites act e fl ss st')"

text \<open>
  Some loop that is entered has the upper bound \<^verbatim>\<open>INT_MAX\<close>, so that its counter is
  incremented out of the range of \<^verbatim>\<open>int\<close>.
\<close>

definition counter_overflows :: "loop_bounds \<Rightarrow> bool" where
  "counter_overflows b =
     (klo b \<le> khi b \<and>
      (INT_MAX \<le> khi b \<or>
       (jlo b \<le> jhi b \<and> (INT_MAX \<le> jhi b \<or> (ilo b \<le> ihi b \<and> INT_MAX \<le> ihi b)))))"

text \<open>
  A site the loop acts on: it passes the region filter, the variable filter and the
  sub-box test. (Used to state properties; the loop itself is \<^const>\<open>loop_body\<close>.)
\<close>

definition site_passes :: "site_env \<Rightarrow> site \<Rightarrow> bool" where
  "site_passes e s =
     ((la_style e = REGION \<longrightarrow> region_match e (site_x e s) \<noteq> 0) \<and>
      (la_varflag e \<longrightarrow> vartest e (site_x e s) \<noteq> 0) \<and>
      \<not> outside_subbox (sublo e) (subhi e) (site_coord e (site_x e s)))"

definition passing :: "site_env \<Rightarrow> site list \<Rightarrow> nat" where
  "passing e ss = length (filter (site_passes e) ss)"

subsection \<open>\<^verbatim>\<open>add_lattice\<close> (lines 820--944), all ranks\<close>

text \<open>
  \<^verbatim>\<open>MPI_Allreduce(..., MPI_INT, MPI_SUM, world)\<close> of one \<^verbatim>\<open>int\<close> per rank, and the same
  for \<^verbatim>\<open>MPI_LMP_BIGINT\<close> (64 bits, not overflowed by a sum of 32-bit counts).
\<close>

definition allreduce_sum_int :: "32 word list \<Rightarrow> 32 word" where
  "allreduce_sum_int xs = sum_list xs"

definition allreduce_sum_bigint :: "int list \<Rightarrow> int" where
  "allreduce_sum_bigint xs = sum_list xs"

text \<open>
  The subset options. \<open>select_subset\<close> stands for \<^verbatim>\<open>ranlatt->select_subset(nsubset, nlatt,
  flag, next)\<close>: given the target, the rank and its site count it yields the value it
  leaves in \<^verbatim>\<open>flag[n]\<close>.
\<close>

record subset_env =
  subsetflag :: subset
  subsetfrac :: real
  nsubset :: int
  select_subset :: "int \<Rightarrow> nat \<Rightarrow> nat \<Rightarrow> nat \<Rightarrow> int"

text \<open>An undefined or fatal step on one rank ends the run of all of them.\<close>

fun collect :: "(error + 'a) list \<Rightarrow> error + 'a list" where
  "collect [] = Inr []"
| "collect (Inl err # rs) = Inl err"
| "collect (Inr x # rs) = (case collect rs of Inl err \<Rightarrow> Inl err | Inr xs \<Rightarrow> Inr (x # xs))"

text \<open>
  Lines 883--903: the loop bounds, then
  \<^verbatim>\<open>
  nlatt_overflow = 0;
  loop_lattice(COUNT);
  \<close>
  on rank \<open>(e, st)\<close>.
\<close>

definition count_pass :: "site_env \<times> latt_state \<Rightarrow> error + loop_bounds \<times> latt_state" where
  "count_pass r =
     (case lattice_bounds (bbox_min (fst r)) (bbox_max (fst r)) of
        Inl err \<Rightarrow> Inl err
      | Inr b \<Rightarrow>
          (case loop_lattice COUNT (fst r) b [] ((snd r)\<lparr>nlatt_overflow := 0\<rparr>) of
             Inl err \<Rightarrow> Inl err
           | Inr st \<Rightarrow> Inr (b, st)))"

text \<open>
  Lines 913--917, for \<^verbatim>\<open>subsetflag != NONE\<close>: the target \<^verbatim>\<open>nsubset\<close> and its check
  against the global number of sites.
\<close>

definition subset_target :: "subset_env \<Rightarrow> int \<Rightarrow> error + int" where
  "subset_target se bnlattall =
     (let n = (if subsetflag se = RATIO then trunc_to_zero (subsetfrac se * of_int bnlattall)
               else nsubset se)
      in if n > bnlattall then Inl SubsetTooBig else Inr n)"

text \<open>
  The sizing of the atom arrays (\<^verbatim>\<open>nadd\<close>, \<^verbatim>\<open>atom->avec->grow\<close>, lines 905--928) changes
  neither the sites visited nor the atoms created and is left out.

  Lines 934--943 on rank number \<open>me\<close>:
  \<^verbatim>\<open>
  if (subsetflag == NONE) loop_lattice(INSERT);
  else {
    memory->create(flag, nlatt, "create_atoms:flag");
    ...
    ranlatt->select_subset(nsubset, nlatt, flag, next);
    loop_lattice(INSERT_SELECTED);
  \<close>
\<close>

definition subset_flags :: "subset_env \<Rightarrow> int \<Rightarrow> nat \<Rightarrow> latt_state \<Rightarrow> int list" where
  "subset_flags se n me st =
     (let size = nat (sint (nlatt st)) in map (select_subset se n me size) [0..<size])"

definition insert_pass ::
  "subset_env \<Rightarrow> int \<Rightarrow> nat \<Rightarrow> site_env \<Rightarrow> loop_bounds \<times> latt_state \<Rightarrow> error + latt_state" where
  "insert_pass se n me e r =
     (if subsetflag se = NONE then loop_lattice INSERT e (fst r) [] (snd r)
      else loop_lattice INSERT_SELECTED e (fst r) (subset_flags se n me (snd r)) (snd r))"

definition add_lattice ::
  "subset_env \<Rightarrow> (site_env \<times> latt_state) list \<Rightarrow> error + latt_state list" where
  "add_lattice se rs =
     (case collect (map count_pass rs) of
        Inl err \<Rightarrow> Inl err
      | Inr counted \<Rightarrow>
          if allreduce_sum_int (map (\<lambda>r. nlatt_overflow (snd r)) counted) \<noteq> 0
          then Inl LatticeOverflow
          else
            (case (if subsetflag se = NONE then Inr 0
                   else subset_target se
                          (allreduce_sum_bigint (map (\<lambda>r. sint (nlatt (snd r))) counted))) of
               Inl err \<Rightarrow> Inl err
             | Inr n \<Rightarrow>
                 collect (map (\<lambda>me. insert_pass se n me (fst (rs ! me)) (counted ! me))
                            [0..<length rs])))"

subsection \<open>\<^verbatim>\<open>add_single\<close> (lines 622--657)\<close>

text \<open>A rank in \<^verbatim>\<open>add_single\<close> and \<^verbatim>\<open>add_random\<close>: its atoms and its stored sub-box.\<close>

record proc = proc_atoms +
  p_sublo :: vec3
  p_subhi :: vec3

text \<open>
  \<open>sg_remap\<close> gives the coordinates \<^verbatim>\<open>domain->remap(xone, imagetmp)\<close> leaves in
  \<^verbatim>\<open>xone\<close>, \<open>sg_x2lamda\<close> is \<^verbatim>\<open>domain->x2lamda\<close>.
\<close>

record single_env =
  remapflag :: bool
  sg_triclinic :: bool
  sg_remap :: "vec3 \<Rightarrow> vec3"
  sg_x2lamda :: "vec3 \<Rightarrow> vec3"
  sg_periodicity :: "bool \<times> bool \<times> bool"
  sg_placing :: placing

text \<open>
  \<^verbatim>\<open>if (domain->xperiodic && (lamda[0] < 0.0 || lamda[0] >= 1.0)) lamda[0] = 0.0;\<close>
\<close>

definition reset_lamda :: "bool \<Rightarrow> real \<Rightarrow> real" where
  "reset_lamda periodic l = (if periodic \<and> (l < 0 \<or> l \<ge> 1) then 0 else l)"

definition single_x :: "single_env \<Rightarrow> vec3 \<Rightarrow> vec3" where
  "single_x e xone = (if remapflag e then sg_remap e xone else xone)"

definition single_coord :: "single_env \<Rightarrow> vec3 \<Rightarrow> vec3" where
  "single_coord e x =
     (if sg_triclinic e then
        (let lamda = sg_x2lamda e x in
         if remapflag e then
           (reset_lamda (v0 (sg_periodicity e)) (v0 lamda),
            reset_lamda (v1 (sg_periodicity e)) (v1 lamda),
            reset_lamda (v2 (sg_periodicity e)) (v2 lamda))
         else lamda)
      else x)"

text \<open>The test of lines 649--650 on the rank \<open>p\<close>.\<close>

definition single_owned :: "single_env \<Rightarrow> vec3 \<Rightarrow> proc \<Rightarrow> bool" where
  "single_owned e xone p = in_subbox (p_sublo p) (p_subhi p) (single_coord e (single_x e xone))"

definition add_single :: "single_env \<Rightarrow> vec3 \<Rightarrow> proc \<Rightarrow> proc" where
  "add_single e xone p =
     (if single_owned e xone p
      then place (sg_placing e) (ntype (sg_placing e)) (single_x e xone) p
      else p)"

text \<open>The ranks that create the atom (or molecule) of a \<^verbatim>\<open>single\<close> command.\<close>

definition single_creators :: "single_env \<Rightarrow> vec3 \<Rightarrow> proc list \<Rightarrow> nat list" where
  "single_creators e xone ps = filter (\<lambda>me. single_owned e xone (ps ! me)) [0..<length ps]"

subsection \<open>\<^verbatim>\<open>add_random\<close> (lines 663--814), all ranks\<close>

record region_box =
  bboxflag :: bool
  extent_lo :: vec3
  extent_hi :: vec3
  rg_match :: "vec3 \<Rightarrow> int"

text \<open>
  \<open>uniform e n\<close> is the value of the \<open>n\<close>-th call of \<^verbatim>\<open>random->uniform()\<close> (counted
  from 0) on the generator seeded with \<^verbatim>\<open>seed\<close>, the same on all ranks.
  \<open>minimum_image\<close> is \<^verbatim>\<open>domain->minimum_image\<close> on \<open>(delx, dely, delz)\<close>.
\<close>

record random_env =
  rn_triclinic :: bool
  dimension :: int
  boxlo :: vec3
  boxhi :: vec3
  boxlo_bound :: vec3
  boxhi_bound :: vec3
  boxlo_lamda :: vec3
  boxhi_lamda :: vec3
  rn_region :: "region_box option"
  rn_varflag :: bool
  rn_vartest :: "vec3 \<Rightarrow> int"
  rn_x2lamda :: "vec3 \<Rightarrow> vec3"
  minimum_image :: "vec3 \<Rightarrow> vec3"
  overlapflag :: bool
  overlap :: real
  nrandom :: int
  maxtry :: int
  uniform :: "nat \<Rightarrow> real"
  rn_placing :: placing

text \<open>Lines 670--674.\<close>

definition rn_odistsq :: "random_env \<Rightarrow> real" where
  "rn_odistsq e = odistsq (pl_mode (rn_placing e)) (overlap e) (molradius (onemol (rn_placing e)))"

text \<open>Lines 687--717: the bounding box the positions are drawn from.\<close>

definition box_bound_lo :: "random_env \<Rightarrow> vec3" where
  "box_bound_lo e = (if \<not> rn_triclinic e then boxlo e else boxlo_bound e)"

definition box_bound_hi :: "random_env \<Rightarrow> vec3" where
  "box_bound_hi e = (if \<not> rn_triclinic e then boxhi e else boxhi_bound e)"

definition zmid :: "random_env \<Rightarrow> real" where
  "zmid e = v2 (box_bound_lo e) + 0.5 * (v2 (box_bound_hi e) - v2 (box_bound_lo e))"

definition narrowed :: "random_env \<Rightarrow> vec3 \<times> vec3" where
  "narrowed e =
     (let lo = box_bound_lo e; hi = box_bound_hi e in
      case rn_region e of
        None \<Rightarrow> (lo, hi)
      | Some r \<Rightarrow>
          if bboxflag r then
            ((max (v0 lo) (v0 (extent_lo r)), max (v1 lo) (v1 (extent_lo r)),
              max (v2 lo) (v2 (extent_lo r))),
             (min (v0 hi) (v0 (extent_hi r)), min (v1 hi) (v1 (extent_hi r)),
              min (v2 hi) (v2 (extent_hi r))))
          else (lo, hi))"

definition random_bbox :: "random_env \<Rightarrow> error + vec3 \<times> vec3" where
  "random_bbox e =
     (let bb = narrowed e in
      if v0 (fst bb) > v0 (snd bb) \<or> v1 (fst bb) > v1 (snd bb) \<or> v2 (fst bb) > v2 (snd bb)
      then Inl NoOverlapBoxRegion
      else Inr bb)"

text \<open>
  Lines 735--738: one position from three calls of \<^verbatim>\<open>uniform()\<close>, the first of them
  call number \<open>pos\<close>.
\<close>

definition draw :: "random_env \<Rightarrow> vec3 \<times> vec3 \<Rightarrow> nat \<Rightarrow> vec3" where
  "draw e bb pos =
     (v0 (fst bb) + uniform e pos * (v0 (snd bb) - v0 (fst bb)),
      v1 (fst bb) + uniform e (pos + 1) * (v1 (snd bb) - v1 (fst bb)),
      if dimension e = 2 then zmid e
      else v2 (fst bb) + uniform e (pos + 2) * (v2 (snd bb) - v2 (fst bb)))"

text \<open>
  Lines 763--774: the loop over a rank's atoms, left at the first atom that is too
  close.
\<close>

definition distsq :: "random_env \<Rightarrow> vec3 \<Rightarrow> vec3 \<Rightarrow> real" where
  "distsq e xone xi =
     (let del = minimum_image e (v0 xone - v0 xi, v1 xone - v1 xi, v2 xone - v2 xi)
      in v0 del * v0 del + v1 del * v1 del + v2 del * v2 del)"

fun local_reject :: "random_env \<Rightarrow> vec3 \<Rightarrow> (int \<times> vec3) list \<Rightarrow> int" where
  "local_reject e xone [] = 0"
| "local_reject e xone (a # as) =
     (if distsq e xone (snd a) < rn_odistsq e then 1 else local_reject e xone as)"

text \<open>\<^verbatim>\<open>MPI_Allreduce(&reject, &reject_any, 1, MPI_INT, MPI_MAX, world)\<close>.\<close>

definition allreduce_max :: "int list \<Rightarrow> int" where
  "allreduce_max xs = (case xs of [] \<Rightarrow> 0 | x # ys \<Rightarrow> fold max ys x)"

definition reject_any :: "random_env \<Rightarrow> vec3 \<Rightarrow> proc list \<Rightarrow> int" where
  "reject_any e xone ps = allreduce_max (map (\<lambda>p. local_reject e xone (atoms p)) ps)"

text \<open>\<^verbatim>\<open>coord\<close> of lines 743--751.\<close>

definition rn_coord :: "random_env \<Rightarrow> vec3 \<Rightarrow> vec3" where
  "rn_coord e xone = (if rn_triclinic e then rn_x2lamda e xone else xone)"

text \<open>The four tests of lines 740--778 that end a try with \<^verbatim>\<open>continue\<close>.\<close>

definition rejected :: "random_env \<Rightarrow> proc list \<Rightarrow> vec3 \<Rightarrow> bool" where
  "rejected e ps xone =
     (if (case rn_region e of None \<Rightarrow> False | Some r \<Rightarrow> rg_match r xone = 0) then True
      else if rn_varflag e \<and> rn_vartest e xone = 0 then True
      else if rn_triclinic e \<and>
              outside_subbox (boxlo_lamda e) (boxhi_lamda e) (rn_x2lamda e xone) then True
      else if overlapflag e \<and> reject_any e xone ps \<noteq> 0 then True
      else False)"

text \<open>
  The loop \<^verbatim>\<open>while (ntry < maxtry)\<close>: the accepted position if a try succeeds, and the
  number of calls of \<^verbatim>\<open>uniform()\<close> made so far.
\<close>

function try_insert ::
  "random_env \<Rightarrow> vec3 \<times> vec3 \<Rightarrow> proc list \<Rightarrow> int \<Rightarrow> nat \<Rightarrow> vec3 option \<times> nat" where
  "try_insert e bb ps ntry pos =
     (if ntry < maxtry e then
        (if rejected e ps (draw e bb pos) then try_insert e bb ps (ntry + 1) (pos + 3)
         else (Some (draw e bb pos), pos + 3))
      else (None, pos))"
  by pat_completeness auto
termination
  by (relation "measure (\<lambda>(e, bb, ps, ntry, pos). nat (maxtry e - ntry))") auto

declare try_insert.simps [simp del]

record random_state =
  procs :: "proc list"
  rng_pos :: nat
  ninsert :: int

text \<open>
  Lines 794--803 on every rank: the rank whose sub-box holds \<^verbatim>\<open>coord\<close> creates the atom
  or molecule at \<^verbatim>\<open>xone\<close>.
\<close>

definition create_owned :: "random_env \<Rightarrow> vec3 \<Rightarrow> proc \<Rightarrow> proc" where
  "create_owned e xone p =
     (if in_subbox (p_sublo p) (p_subhi p) (rn_coord e xone)
      then place (rn_placing e) (ntype (rn_placing e)) xone p
      else p)"

text \<open>One round of the loop \<^verbatim>\<open>for (int i = 0; i < nrandom; i++)\<close>.\<close>

definition insert_one :: "random_env \<Rightarrow> vec3 \<times> vec3 \<Rightarrow> random_state \<Rightarrow> random_state" where
  "insert_one e bb s =
     (case try_insert e bb (procs s) 0 (rng_pos s) of
        (None, pos) \<Rightarrow> s\<lparr>rng_pos := pos\<rparr>
      | (Some xone, pos) \<Rightarrow>
          \<lparr>procs = map (create_owned e xone) (procs s), rng_pos = pos, ninsert = ninsert s + 1\<rparr>)"

fun insert_loop :: "random_env \<Rightarrow> vec3 \<times> vec3 \<Rightarrow> nat \<Rightarrow> random_state \<Rightarrow> random_state" where
  "insert_loop e bb 0 s = s"
| "insert_loop e bb (Suc n) s = insert_loop e bb n (insert_one e bb s)"

text \<open>
  Line 808: \<^verbatim>\<open>if (ninsert < nrandom && comm->me == 0) error->warning(...)\<close>; the
  warning of rank \<open>me\<close>, with its two numbers.
\<close>

definition shortfall_warning :: "random_env \<Rightarrow> int \<Rightarrow> nat \<Rightarrow> (int \<times> int) option" where
  "shortfall_warning e n me = (if n < nrandom e \<and> me = 0 then Some (n, nrandom e) else None)"

text \<open>
  The whole of \<^verbatim>\<open>add_random\<close>: the final ranks, \<^verbatim>\<open>ninsert\<close>, and each rank's warning.
  The generator has been called 30 times when the loop starts.
\<close>

definition add_random ::
  "random_env \<Rightarrow> proc list \<Rightarrow> error + proc list \<times> int \<times> (int \<times> int) option list" where
  "add_random e ps =
     (case random_bbox e of
        Inl err \<Rightarrow> Inl err
      | Inr bb \<Rightarrow>
          (let s = insert_loop e bb (nat (nrandom e)) \<lparr>procs = ps, rng_pos = 30, ninsert = 0\<rparr>
           in Inr (procs s, ninsert s, map (shortfall_warning e (ninsert s)) [0..<length ps])))"

subsection \<open>Molecule IDs and topology after creation (\<^verbatim>\<open>command\<close>, lines 453--564), all ranks\<close>

text \<open>\<^verbatim>\<open>atom->molecular\<close>.\<close>

datatype molecular = ATOMIC | MOLECULAR | TEMPLATE

text \<open>\<^verbatim>\<open>MAX(A, B)\<close>, which is \<^verbatim>\<open>((A) > (B) ? (A) : (B))\<close>, on two \<^verbatim>\<open>tagint\<close>.\<close>

definition max_tagint :: "tagint \<Rightarrow> tagint \<Rightarrow> tagint" where
  "max_tagint a b = (if sint a > sint b then a else b)"

text \<open>
  The bonded topology of one local atom: row \<^verbatim>\<open>ilocal\<close> of each array, cut at the
  atom's count (\<^verbatim>\<open>num_bond[ilocal]\<close>, ..., \<^verbatim>\<open>nspecial[ilocal][2]\<close>), and its
  \<^verbatim>\<open>molindex\<close> and \<^verbatim>\<open>molatom\<close>.
\<close>

record atom_topology =
  bond_atom :: "tagint list"
  angle_atom1 :: "tagint list"
  angle_atom2 :: "tagint list"
  angle_atom3 :: "tagint list"
  dihedral_atom1 :: "tagint list"
  dihedral_atom2 :: "tagint list"
  dihedral_atom3 :: "tagint list"
  dihedral_atom4 :: "tagint list"
  improper_atom1 :: "tagint list"
  improper_atom2 :: "tagint list"
  improper_atom3 :: "tagint list"
  improper_atom4 :: "tagint list"
  special :: "tagint list"
  molindex :: int
  molatom :: int

text \<open>
  A rank when the pass starts: \<^verbatim>\<open>nlocal_previous\<close>, \<^verbatim>\<open>atom->nlocal\<close>, and the per-atom
  arrays \<^verbatim>\<open>atom->molecule\<close>, \<^verbatim>\<open>atom->tag\<close> (absent when the pointer is null) and the
  topology.
\<close>

record mol_proc =
  nlocal_previous :: nat
  nlocal :: nat
  molecule :: "tagint list"
  tag :: "tagint list option"
  topology :: "atom_topology list"

text \<open>\<^verbatim>\<open>for (int j = 0; j < num_bond[ilocal]; j++) bond_atom[ilocal][j] += offset;\<close> under its flag.\<close>

definition shift :: "bool \<Rightarrow> tagint \<Rightarrow> tagint list \<Rightarrow> tagint list" where
  "shift fl offset row = (if fl then map (\<lambda>t. t + offset) row else row)"

text \<open>Lines 526--554 for template atom \<open>m\<close>.\<close>

definition rebase ::
  "molecule_template \<Rightarrow> molecular \<Rightarrow> nat \<Rightarrow> tagint \<Rightarrow> atom_topology \<Rightarrow> atom_topology" where
  "rebase mol ml m offset t =
     (if ml = TEMPLATE then t\<lparr>molindex := 0, molatom := int m\<rparr>
      else if ml \<noteq> ATOMIC then
        t\<lparr>bond_atom := shift (bondflag mol) offset (bond_atom t),
          angle_atom1 := shift (angleflag mol) offset (angle_atom1 t),
          angle_atom2 := shift (angleflag mol) offset (angle_atom2 t),
          angle_atom3 := shift (angleflag mol) offset (angle_atom3 t),
          dihedral_atom1 := shift (dihedralflag mol) offset (dihedral_atom1 t),
          dihedral_atom2 := shift (dihedralflag mol) offset (dihedral_atom2 t),
          dihedral_atom3 := shift (dihedralflag mol) offset (dihedral_atom3 t),
          dihedral_atom4 := shift (dihedralflag mol) offset (dihedral_atom4 t),
          improper_atom1 := shift (improperflag mol) offset (improper_atom1 t),
          improper_atom2 := shift (improperflag mol) offset (improper_atom2 t),
          improper_atom3 := shift (improperflag mol) offset (improper_atom3 t),
          improper_atom4 := shift (improperflag mol) offset (improper_atom4 t),
          special := shift (specialflag mol) offset (special t)\<rparr>
      else t)"

text \<open>
  Lines 519--525: the molecule ID of template atom \<open>m\<close> when the rank's running
  offset is \<open>moloffset\<close>.
\<close>

definition molecule_id :: "molecule_template \<Rightarrow> tagint \<Rightarrow> nat \<Rightarrow> tagint" where
  "molecule_id mol moloffset m =
     (if moleculeflag mol then moloffset + mol_molecule mol ! m else moloffset + 1)"

text \<open>The body of the loop over \<open>m\<close> for the atom at \<open>ilocal\<close>.\<close>

definition stitch_atom ::
  "molecule_template \<Rightarrow> bool \<Rightarrow> molecular \<Rightarrow> tagint \<Rightarrow> tagint \<Rightarrow> nat \<Rightarrow> nat \<Rightarrow> mol_proc \<Rightarrow> mol_proc" where
  "stitch_atom mol molecule_flag ml moloffset offset ilocal m p =
     p\<lparr>molecule :=
         (if molecule_flag then (molecule p)[ilocal := molecule_id mol moloffset m]
          else molecule p),
       topology := (topology p)[ilocal := rebase mol ml m offset (topology p ! ilocal)]\<rparr>"

text \<open>The loop \<^verbatim>\<open>for (int m = 0; m < natoms; m++) { ...; ilocal++; }\<close> from \<open>ilocal\<close> on.\<close>

definition stitch_molecule ::
  "molecule_template \<Rightarrow> bool \<Rightarrow> molecular \<Rightarrow> tagint \<Rightarrow> tagint \<Rightarrow> nat \<Rightarrow> mol_proc \<Rightarrow> mol_proc" where
  "stitch_molecule mol molecule_flag ml moloffset offset ilocal p =
     fold (\<lambda>m. stitch_atom mol molecule_flag ml moloffset offset (ilocal + m) m)
       [0..<natoms mol] p"

text \<open>Lines 557--563: the offset for the next molecule.\<close>

definition next_moloffset :: "molecule_template \<Rightarrow> bool \<Rightarrow> tagint \<Rightarrow> tagint" where
  "next_moloffset mol molecule_flag moloffset =
     (if molecule_flag then
        (if moleculeflag mol then moloffset + word_of_int (nmolecules mol) else moloffset + 1)
      else moloffset)"

text \<open>
  The loop \<^verbatim>\<open>for (int i = 0; i < molcreate; i++)\<close>, by the number of molecules still to
  do. \<^verbatim>\<open>offset\<close> is \<^verbatim>\<open>tag[ilocal] - 1\<close> of the molecule's first atom, 0 without tags.
\<close>

fun stitch_molecules ::
  "molecule_template \<Rightarrow> bool \<Rightarrow> molecular \<Rightarrow> nat \<Rightarrow> nat \<Rightarrow> tagint \<Rightarrow> mol_proc \<Rightarrow> mol_proc" where
  "stitch_molecules mol molecule_flag ml 0 ilocal moloffset p = p"
| "stitch_molecules mol molecule_flag ml (Suc n) ilocal moloffset p =
     stitch_molecules mol molecule_flag ml n (ilocal + natoms mol)
       (next_moloffset mol molecule_flag moloffset)
       (stitch_molecule mol molecule_flag ml moloffset
          (case tag p of None \<Rightarrow> 0 | Some tg \<Rightarrow> tg ! ilocal - 1) ilocal p)"

text \<open>
  Line 461: \<^verbatim>\<open>molcreate = (atom->nlocal - nlocal_previous) / onemol->natoms\<close>. Atoms are
  only added, so \<^verbatim>\<open>nlocal\<close> is at least \<^verbatim>\<open>nlocal_previous\<close>; the pass below
  rules out \<^verbatim>\<open>natoms == 0\<close>.
\<close>

definition molcreate :: "molecule_template \<Rightarrow> mol_proc \<Rightarrow> nat" where
  "molcreate mol p = (nlocal p - nlocal_previous p) div natoms mol"

text \<open>Lines 480--481: the largest molecule ID among the rank's previous atoms, at least 0.\<close>

definition max_previous :: "mol_proc \<Rightarrow> tagint" where
  "max_previous p = fold (\<lambda>id mx. max_tagint mx id) (take (nlocal_previous p) (molecule p)) 0"

text \<open>\<^verbatim>\<open>MPI_Allreduce(&max, &maxmol, 1, MPI_LMP_TAGINT, MPI_MAX, world)\<close>.\<close>

definition allreduce_max_tagint :: "tagint list \<Rightarrow> tagint" where
  "allreduce_max_tagint xs = (case xs of [] \<Rightarrow> 0 | x # ys \<Rightarrow> fold (\<lambda>y mx. max_tagint mx y) ys x)"

text \<open>
  \<^verbatim>\<open>MPI_Scan(..., MPI_LMP_TAGINT, MPI_SUM, world)\<close>: on rank \<open>me\<close> the sum of the
  contributions of the ranks \<open>0, ..., me\<close>.
\<close>

definition scan_sum :: "tagint list \<Rightarrow> nat \<Rightarrow> tagint" where
  "scan_sum xs me = sum_list (take (Suc me) xs)"

text \<open>Lines 478--486 on rank \<open>me\<close>.\<close>

definition moloffset_of :: "molecule_template \<Rightarrow> bool \<Rightarrow> mol_proc list \<Rightarrow> nat \<Rightarrow> tagint" where
  "moloffset_of mol molecule_flag ps me =
     (if molecule_flag then
        scan_sum (map (\<lambda>p. of_nat (molcreate mol p)) ps) me - of_nat (molcreate mol (ps ! me))
          + allreduce_max_tagint (map max_previous ps)
      else 0)"

text \<open>The pass on all ranks.\<close>

definition stitch ::
  "molecule_template \<Rightarrow> bool \<Rightarrow> molecular \<Rightarrow> mol_proc list \<Rightarrow> error + mol_proc list" where
  "stitch mol molecule_flag ml ps =
     (if natoms mol = 0 then Inl DivisionByZero
      else Inr (map (\<lambda>me. stitch_molecules mol molecule_flag ml (molcreate mol (ps ! me))
                            (nlocal_previous (ps ! me)) (moloffset_of mol molecule_flag ps me)
                            (ps ! me))
                  [0..<length ps]))"

subsection \<open>Predicates used in the statements\<close>

text \<open>
  A coordinate of the lattice-space bounding box that \<^verbatim>\<open>static_cast<int>\<close> and the
  adjustments by one and two keep inside the range of \<^verbatim>\<open>int\<close>.
\<close>

definition castable :: "real \<Rightarrow> bool" where
  "castable x = (- (2 ^ 31) + 2 \<le> x \<and> x < 2 ^ 31 - 1)"

subsection \<open>An example configuration\<close>

text \<open>
  A box \<open>[0, 2) \<times> [0, 1) \<times> [0, 1)\<close>, periodic in all directions, split along \<open>x\<close> between
  two ranks in the brick layout; a simple cubic lattice of spacing 1 whose
  \<^verbatim>\<open>lattice2box\<close> is the identity; no region and no variable; atoms of type 1. The
  molecule template has two atoms at distance 1 and two molecule IDs.
\<close>

definition ex_domain :: "int \<Rightarrow> domain_box" where
  "ex_domain loc =
     \<lparr>triclinic = False, prd = (2, 1, 1),
      dom_sublo = (of_int loc, 0, 0), dom_subhi = (of_int loc + 1, 1, 1),
      dom_sublo_lamda = (of_int loc / 2, 0, 0), dom_subhi_lamda = ((of_int loc + 1) / 2, 1, 1),
      periodicity = (True, True, True)\<rparr>"

definition ex_comm :: "int \<Rightarrow> comm_layout" where
  "ex_comm loc =
     \<lparr>layout_tiled = False, myloc = (loc, 0, 0), procgrid = (2, 1, 1),
      mysplit = ((of_int loc / 2, (of_int loc + 1) / 2), (0, 1), (0, 1))\<rparr>"

definition ex_molecule :: molecule_template where
  "ex_molecule =
     \<lparr>natoms = 2, dx = [(- 1 / 2, 0, 0), (1 / 2, 0, 0)], mol_type = [0, 0], molradius = 1 / 2,
      moleculeflag = True, mol_molecule = [1, 2], nmolecules = 2,
      bondflag = True, angleflag = False, dihedralflag = False, improperflag = False,
      specialflag = False\<rparr>"

definition ex_placing :: "mode \<Rightarrow> placing" where
  "ex_placing md =
     \<lparr>pl_mode = md, ntype = 1, onemol = ex_molecule,
      rotmat = (\<lambda>n. ((1, 0, 0), (0, 1, 0), (0, 0, 1)))\<rparr>"

definition ex_site_env :: "int \<Rightarrow> site_env" where
  "ex_site_env loc =
     \<lparr>la_style = BOX, la_triclinic = False, la_varflag = False,
      nbasis = 1, basis = [(0, 0, 0)], basistype = [1],
      lattice2box = (\<lambda>v. v), region_match = (\<lambda>v. 1), vartest = (\<lambda>v. 1), x2lamda = (\<lambda>v. v),
      sublo = set_sublo BOX (ex_domain loc) (ex_comm loc),
      subhi = set_subhi BOX (ex_domain loc) (ex_comm loc),
      la_placing = ex_placing ATOM,
      bbox_min = (of_int loc, 0, 0), bbox_max = (of_int loc + 1, 1, 1)\<rparr>"

definition ex_latt_state :: latt_state where
  "ex_latt_state = \<lparr>atoms = [], nquat = 0, nlatt = 0, nlatt_overflow = 0\<rparr>"

text \<open>The counter \<^verbatim>\<open>nlatt\<close> holds \<^verbatim>\<open>MAXSMALLINT\<close> after \<open>k\<close> increments from 0.\<close>

definition counter_at_max :: "nat \<Rightarrow> bool" where
  "counter_at_max k = ((of_nat k :: 32 word) = MAXSMALLINT)"

text \<open>The two ranks of the example, and a subset request for one atom that selects the sites of rank 1.\<close>

definition ex_ranks :: "(site_env \<times> latt_state) list" where
  "ex_ranks = [(ex_site_env 0, ex_latt_state), (ex_site_env 1, ex_latt_state)]"

definition ex_subset :: subset_env where
  "ex_subset =
     \<lparr>subsetflag = SUBSET, subsetfrac = 1, nsubset = 1,
      select_subset = (\<lambda>n me size i. if me = 1 then 1 else 0)\<rparr>"

text \<open>The loop bounds of the two ranks and their states after the \<^verbatim>\<open>COUNT\<close> pass.\<close>

definition ex_bounds :: "int \<Rightarrow> loop_bounds" where
  "ex_bounds loc = \<lparr>ilo = loc - 1, jlo = - 1, klo = - 1, ihi = loc + 2, jhi = 2, khi = 2\<rparr>"

definition ex_counted :: "(loop_bounds \<times> latt_state) list" where
  "ex_counted = [(ex_bounds 0, ex_latt_state\<lparr>nlatt := 1\<rparr>), (ex_bounds 1, ex_latt_state\<lparr>nlatt := 1\<rparr>)]"

text \<open>
  The example box for \<^verbatim>\<open>add_random\<close>: the two ranks with empty storage and sub-boxes
  \<open>[0, 1)\<close> and \<open>[1, 2)\<close> along \<open>x\<close>, \<^verbatim>\<open>domain->minimum_image\<close> of the periodic
  orthogonal box of size \<open>2 \<times> 1 \<times> 1\<close>, and a generator whose calls 30, 33 and 36 return
  \<open>1/4\<close>, \<open>3/8\<close> and \<open>3/4\<close> and all others \<open>1/2\<close>: the positions drawn are
  \<open>(1/2, 1/2, 1/2)\<close>, \<open>(3/4, 1/2, 1/2)\<close>, \<open>(3/2, 1/2, 1/2)\<close>, then \<open>(1, 1/2, 1/2)\<close>.
\<close>

definition ex_procs :: "proc list" where
  "ex_procs =
     [\<lparr>atoms = [], nquat = 0, p_sublo = (0, 0, 0), p_subhi = (1, 1, 1)\<rparr>,
      \<lparr>atoms = [], nquat = 0, p_sublo = (1, 0, 0), p_subhi = (2, 1, 1)\<rparr>]"

definition ex_image :: "real \<Rightarrow> real \<Rightarrow> real" where
  "ex_image period d =
     (if \<bar>d\<bar> > period / 2 then (if d < 0 then d + period else d - period) else d)"

definition ex_minimum_image :: "vec3 \<Rightarrow> vec3" where
  "ex_minimum_image d = (ex_image 2 (v0 d), ex_image 1 (v1 d), ex_image 1 (v2 d))"

definition ex_uniform :: "nat \<Rightarrow> real" where
  "ex_uniform n =
     (if n = 30 then 1 / 4 else if n = 33 then 3 / 8 else if n = 36 then 3 / 4 else 1 / 2)"

definition ex_random_env :: "mode \<Rightarrow> real \<Rightarrow> int \<Rightarrow> int \<Rightarrow> random_env" where
  "ex_random_env md ov nr tries =
     \<lparr>rn_triclinic = False, dimension = 3,
      boxlo = (0, 0, 0), boxhi = (2, 1, 1),
      boxlo_bound = (0, 0, 0), boxhi_bound = (2, 1, 1),
      boxlo_lamda = (0, 0, 0), boxhi_lamda = (1, 1, 1),
      rn_region = None, rn_varflag = False, rn_vartest = (\<lambda>v. 1),
      rn_x2lamda = (\<lambda>v. (v0 v / 2, v1 v, v2 v)),
      minimum_image = ex_minimum_image,
      overlapflag = True, overlap = ov, nrandom = nr, maxtry = tries,
      uniform = ex_uniform, rn_placing = ex_placing md\<rparr>"

text \<open>
  No position lies in the stored sub-boxes of two ranks (the decomposition of the box,
  which the domain provides).
\<close>

definition boxes_disjoint :: "proc list \<Rightarrow> bool" where
  "boxes_disjoint ps =
     (\<forall>c. \<forall>r1<length ps. \<forall>r2<length ps. r1 \<noteq> r2 \<longrightarrow>
        \<not> (in_subbox (p_sublo (ps ! r1)) (p_subhi (ps ! r1)) c \<and>
           in_subbox (p_sublo (ps ! r2)) (p_subhi (ps ! r2)) c))"

text \<open>
  Any two different atoms that the ranks \<open>ps'\<close> hold beyond what they held as \<open>ps\<close>
  (atom \<open>i\<close> of rank \<open>r1\<close>, atom \<open>j\<close> of rank \<open>r2\<close>) are apart: the squared
  minimum-image distance \<^verbatim>\<open>add_random\<close> computes, from one of them to the other, is at
  least \<^verbatim>\<open>odistsq\<close>.
\<close>

definition created_apart :: "random_env \<Rightarrow> proc list \<Rightarrow> proc list \<Rightarrow> bool" where
  "created_apart e ps ps' =
     (\<forall>r1<length ps'. \<forall>r2<length ps'.
        \<forall>i<length (atoms (ps' ! r1)). \<forall>j<length (atoms (ps' ! r2)).
          length (atoms (ps ! r1)) \<le> i \<and> length (atoms (ps ! r2)) \<le> j \<and> (r1, i) \<noteq> (r2, j) \<longrightarrow>
            rn_odistsq e \<le> distsq e (snd (atoms (ps' ! r1) ! i)) (snd (atoms (ps' ! r2) ! j)) \<or>
            rn_odistsq e \<le> distsq e (snd (atoms (ps' ! r2) ! j)) (snd (atoms (ps' ! r1) ! i)))"

text \<open>What the loop keeps true of the ranks \<open>ps\<close>, started from \<open>ps0\<close>.\<close>

definition random_inv :: "random_env \<Rightarrow> proc list \<Rightarrow> proc list \<Rightarrow> bool" where
  "random_inv e ps0 ps =
     (length ps = length ps0 \<and>
      (\<forall>r<length ps. p_sublo (ps ! r) = p_sublo (ps0 ! r) \<and> p_subhi (ps ! r) = p_subhi (ps0 ! r) \<and>
                     length (atoms (ps0 ! r)) \<le> length (atoms (ps ! r))) \<and>
      created_apart e ps0 ps)"

text \<open>
  The stored sub-boxes of the ranks cover the unit cube of lamda coordinates (the other
  half of the decomposition: every position of the box has a rank).
\<close>

definition boxes_cover_unit :: "proc list \<Rightarrow> bool" where
  "boxes_cover_unit ps =
     (\<forall>c. (\<forall>a<3. 0 \<le> ax a c \<and> ax a c < 1) \<longrightarrow>
        (\<exists>r<length ps. in_subbox (p_sublo (ps ! r)) (p_subhi (ps ! r)) c))"

text \<open>
  An example for \<^verbatim>\<open>add_single\<close>: a triclinic box without tilt whose lamda coordinates
  are the box coordinates, two ranks that split the unit cube along \<open>x\<close>, remapping
  that wraps the periodic coordinates into \<open>[0, 1)\<close>.
\<close>

definition ex_lamda_procs :: "proc list" where
  "ex_lamda_procs =
     [\<lparr>atoms = [], nquat = 0, p_sublo = (0, 0, 0), p_subhi = (1 / 2, 1, 1)\<rparr>,
      \<lparr>atoms = [], nquat = 0, p_sublo = (1 / 2, 0, 0), p_subhi = (1, 1, 1)\<rparr>]"

definition ex_wrap :: "bool \<Rightarrow> real \<Rightarrow> real" where
  "ex_wrap periodic x = (if periodic then x - of_int \<lfloor>x\<rfloor> else x)"

definition ex_single_env :: "bool \<times> bool \<times> bool \<Rightarrow> single_env" where
  "ex_single_env per =
     \<lparr>remapflag = True, sg_triclinic = True,
      sg_remap = (\<lambda>v. (ex_wrap (v0 per) (v0 v), ex_wrap (v1 per) (v1 v), ex_wrap (v2 per) (v2 v))),
      sg_x2lamda = (\<lambda>v. v), sg_periodicity = per, sg_placing = ex_placing ATOM\<rparr>"

text \<open>
  An example for the molecule-ID pass: each of two ranks has created one molecule of
  the example template (two atoms, molecule IDs 1 and 2, one bond from atom 1 to atom
  2); no atoms existed before; the atoms' tags are 1, 2 on rank 0 and 3, 4 on rank 1.
\<close>

definition ex_topology :: "tagint list \<Rightarrow> atom_topology" where
  "ex_topology bonds =
     \<lparr>bond_atom = bonds, angle_atom1 = [], angle_atom2 = [], angle_atom3 = [],
      dihedral_atom1 = [], dihedral_atom2 = [], dihedral_atom3 = [], dihedral_atom4 = [],
      improper_atom1 = [], improper_atom2 = [], improper_atom3 = [], improper_atom4 = [],
      special = [], molindex = 0, molatom = 0\<rparr>"

definition ex_mol_proc :: "tagint \<Rightarrow> mol_proc" where
  "ex_mol_proc first_tag =
     \<lparr>nlocal_previous = 0, nlocal = 2, molecule = [0, 0],
      tag = Some [first_tag, first_tag + 1],
      topology = [ex_topology [2], ex_topology []]\<rparr>"

text \<open>
  A rank whose sub-box \<open>[0, 65536) \<times> [0, 65536) \<times> [0, 1)\<close> holds \<open>2^32\<close> sites of the
  simple cubic lattice, more than an \<^verbatim>\<open>int\<close> counts, and a second rank with one site;
  their loop bounds and their states after the \<^verbatim>\<open>COUNT\<close> pass (the counter of the
  first has wrapped around to 0).
\<close>

definition ex_big_env :: site_env where
  "ex_big_env =
     \<lparr>la_style = BOX, la_triclinic = False, la_varflag = False,
      nbasis = 1, basis = [(0, 0, 0)], basistype = [1],
      lattice2box = (\<lambda>v. v), region_match = (\<lambda>v. 1), vartest = (\<lambda>v. 1), x2lamda = (\<lambda>v. v),
      sublo = (0, 0, 0), subhi = (65536, 65536, 1),
      la_placing = ex_placing ATOM,
      bbox_min = (0, 0, 0), bbox_max = (65536, 65536, 1)\<rparr>"

definition ex_far_env :: site_env where
  "ex_far_env = ex_big_env\<lparr>sublo := (65536, 0, 0), subhi := (65537, 1, 1),
     bbox_min := (65536, 0, 0), bbox_max := (65537, 1, 1)\<rparr>"

definition ex_big_bounds :: loop_bounds where
  "ex_big_bounds = \<lparr>ilo = - 1, jlo = - 1, klo = - 1, ihi = 65537, jhi = 65537, khi = 2\<rparr>"

definition ex_far_bounds :: loop_bounds where
  "ex_far_bounds = \<lparr>ilo = 65535, jlo = - 1, klo = - 1, ihi = 65538, jhi = 2, khi = 2\<rparr>"

definition ex_big_ranks :: "(site_env \<times> latt_state) list" where
  "ex_big_ranks = [(ex_big_env, ex_latt_state), (ex_far_env, ex_latt_state)]"

definition ex_big_counted :: "(loop_bounds \<times> latt_state) list" where
  "ex_big_counted =
     [(ex_big_bounds, ex_latt_state\<lparr>nlatt_overflow := 1\<rparr>),
      (ex_far_bounds, ex_latt_state\<lparr>nlatt := 1\<rparr>)]"

text \<open>
  The box of the first example as a triclinic box without tilt: the sub-boxes are held in
  lamda coordinates, \<open>[0, 1/2)\<close> and \<open>[1/2, 1)\<close> along \<open>x\<close>, and \<^verbatim>\<open>x2lamda\<close> divides
  \<open>x\<close> by the box length 2.
\<close>

definition ex_tri_domain :: "int \<Rightarrow> domain_box" where
  "ex_tri_domain loc = (ex_domain loc)\<lparr>triclinic := True\<rparr>"

definition ex_tri_env :: "int \<Rightarrow> site_env" where
  "ex_tri_env loc =
     (ex_site_env loc)
       \<lparr>la_triclinic := True, x2lamda := (\<lambda>v. (v0 v / 2, v1 v, v2 v)),
        sublo := set_sublo BOX (ex_tri_domain loc) (ex_comm loc),
        subhi := set_subhi BOX (ex_tri_domain loc) (ex_comm loc)\<rparr>"


definition atoms_per_entity :: "placing \<Rightarrow> nat" where
  "atoms_per_entity pl = (if pl_mode pl = ATOM then 1 else natoms (onemol pl))"



text \<open>
  The stored sub-boxes of the ranks lie inside the unit cube of lamda coordinates (the
  domain splits the unit cube among the ranks).
\<close>

definition boxes_within_unit :: "proc list \<Rightarrow> bool" where
  "boxes_within_unit ps =
     (\<forall>r<length ps. \<forall>a<3. 0 \<le> ax a (p_sublo (ps ! r)) \<and> ax a (p_subhi (ps ! r)) \<le> 1)"

text \<open>
  The example for \<^verbatim>\<open>add_single\<close> with a \<^verbatim>\<open>domain->remap\<close> that leaves the position where
  it is, so that a lamda coordinate outside \<open>[0, 1)\<close> reaches the reset.
\<close>

definition ex_noremap_env :: "bool \<times> bool \<times> bool \<Rightarrow> single_env" where
  "ex_noremap_env per = (ex_single_env per)\<lparr>sg_remap := (\<lambda>v. v)\<rparr>"

text \<open>The length of a vector and the difference of two positions.\<close>

definition norm3 :: "vec3 \<Rightarrow> real" where
  "norm3 v = sqrt (dot3 v v)"

definition sub3 :: "vec3 \<Rightarrow> vec3 \<Rightarrow> vec3" where
  "sub3 a b = (v0 a - v0 b, v1 a - v1 b, v2 a - v2 b)"

text \<open>
  The minimum-image distance obeys the triangle inequality: when one end is moved from
  \<open>z\<close> to \<open>x\<close>, the distance to \<open>y\<close> grows by at most the length of the move.
\<close>

definition image_triangle :: "random_env \<Rightarrow> bool" where
  "image_triangle e = (\<forall>x z y. sqrt (distsq e x y) \<le> sqrt (distsq e z y) + norm3 (sub3 z x))"

text \<open>
  Every atom of the template, in every orientation a rank uses, lies within
  \<^verbatim>\<open>molradius\<close> of the centre.
\<close>

definition within_radius :: "placing \<Rightarrow> bool" where
  "within_radius pl =
     (\<forall>n. \<forall>m<natoms (onemol pl).
        norm3 (matvec (rotmat pl n) (dx (onemol pl) ! m)) \<le> molradius (onemol pl))"

text \<open>
  The atoms one insertion at \<open>x\<close> adds to the rank that owns \<open>x\<close> and has added \<open>n\<close>
  molecules before; the number, among the insertions a rank owns, of the one that
  created its atom \<open>i\<close>.
\<close>

definition placed :: "placing \<Rightarrow> nat \<Rightarrow> vec3 \<Rightarrow> (int \<times> vec3) list" where
  "placed pl n x =
     (if pl_mode pl = ATOM then [(ntype pl, x)] else molecule_atoms pl (rotmat pl n) x)"

definition entity_of :: "placing \<Rightarrow> proc \<Rightarrow> nat \<Rightarrow> nat" where
  "entity_of pl p0 i = (i - length (atoms p0)) div atoms_per_entity pl"

text \<open>
  Any two atoms the ranks \<open>ps'\<close> hold beyond what they held as \<open>ps\<close> that are not atoms of
  one created molecule (they are on two ranks, or come from two insertions) are apart:
  the squared minimum-image distance \<^verbatim>\<open>add_random\<close> computes, from one of them to the
  other, is at least the square of \<^verbatim>\<open>overlap\<close>.
\<close>

definition entities_apart :: "random_env \<Rightarrow> proc list \<Rightarrow> proc list \<Rightarrow> bool" where
  "entities_apart e ps ps' =
     (\<forall>r1<length ps'. \<forall>r2<length ps'.
        \<forall>i<length (atoms (ps' ! r1)). \<forall>j<length (atoms (ps' ! r2)).
          length (atoms (ps ! r1)) \<le> i \<and> length (atoms (ps ! r2)) \<le> j \<and>
          (r1 \<noteq> r2 \<or> entity_of (rn_placing e) (ps ! r1) i \<noteq> entity_of (rn_placing e) (ps ! r2) j) \<longrightarrow>
            overlap e * overlap e \<le> distsq e (snd (atoms (ps' ! r1) ! i)) (snd (atoms (ps' ! r2) ! j)) \<or>
            overlap e * overlap e \<le> distsq e (snd (atoms (ps' ! r2) ! j)) (snd (atoms (ps' ! r1) ! i)))"

text \<open>What the loop keeps true of the ranks \<open>ps\<close>, started from \<open>ps0\<close>, in either mode.\<close>

definition entities_inv :: "random_env \<Rightarrow> proc list \<Rightarrow> proc list \<Rightarrow> bool" where
  "entities_inv e ps0 ps =
     (length ps = length ps0 \<and>
      (\<forall>r<length ps. p_sublo (ps ! r) = p_sublo (ps0 ! r) \<and> p_subhi (ps ! r) = p_subhi (ps0 ! r) \<and>
         (\<exists>q. length (atoms (ps ! r)) =
                length (atoms (ps0 ! r)) + q * atoms_per_entity (rn_placing e))) \<and>
      entities_apart e ps0 ps)"

text \<open>
  Every atom an insertion at an accepted position adds is at least \<^verbatim>\<open>overlap\<close> away
  from every atom stored on any rank at that moment.
\<close>

definition accepted_clear :: "random_env \<Rightarrow> bool" where
  "accepted_clear e =
     (\<forall>qs x n. \<not> rejected e qs x \<longrightarrow>
        (\<forall>p\<in>set qs. \<forall>a\<in>set (atoms p). \<forall>z\<in>set (placed (rn_placing e) n x).
           overlap e * overlap e \<le> distsq e (snd z) (snd a)))"

text \<open>
  An example for molecules: a periodic box \<open>[0, 8) \<times> [0, 1) \<times> [0, 1)\<close> with its
  \<^verbatim>\<open>domain->minimum_image\<close>, split along \<open>x\<close> between two ranks; the generator of the
  first example draws the centres \<open>(2, 1/2, 1/2)\<close>, \<open>(3, 1/2, 1/2)\<close>, \<open>(6, 1/2, 1/2)\<close>.
\<close>

definition ex_long_procs :: "proc list" where
  "ex_long_procs =
     [\<lparr>atoms = [], nquat = 0, p_sublo = (0, 0, 0), p_subhi = (4, 1, 1)\<rparr>,
      \<lparr>atoms = [], nquat = 0, p_sublo = (4, 0, 0), p_subhi = (8, 1, 1)\<rparr>]"

definition ex_long_image :: "vec3 \<Rightarrow> vec3" where
  "ex_long_image d = (ex_image 8 (v0 d), ex_image 1 (v1 d), ex_image 1 (v2 d))"

definition ex_long_env :: "real \<Rightarrow> int \<Rightarrow> int \<Rightarrow> random_env" where
  "ex_long_env ov nr tries =
     (ex_random_env MOLECULE ov nr tries)
       \<lparr>boxhi := (8, 1, 1), boxhi_bound := (8, 1, 1), minimum_image := ex_long_image\<rparr>"

section \<open>Properties\<close>

lemmas vec_simps = v0_def v1_def v2_def ax_def

lemmas ex_simps = ex_domain_def ex_comm_def ex_site_env_def ex_placing_def ex_latt_state_def
  set_sublo_def set_subhi_def stored_sublo_def stored_subhi_def domain_lo_def domain_hi_def
  epsilon_def EPSILON_def at_lo_edge_def at_hi_edge_def

lemma all_less_3: "(\<forall>a<3::nat. P a) = (P 0 \<and> P 1 \<and> P 2)"
proof
  assume "\<forall>a<3. P a" then show "P 0 \<and> P 1 \<and> P 2" by simp
next
  assume h: "P 0 \<and> P 1 \<and> P 2"
  show "\<forall>a<3. P a"
  proof (intro allI impI)
    fix a :: nat assume "a < 3"
    then have "a = 0 \<or> a = 1 \<or> a = 2" by arith
    with h show "P a" by auto
  qed
qed

subsection \<open>Unit scaling of the overlap distance\<close>

text \<open>
  Claim C9. For the styles \<^verbatim>\<open>single\<close> and \<^verbatim>\<open>random\<close> with lattice units
  (\<^verbatim>\<open>scaleflag == 1\<close>) the set-up multiplies \<^verbatim>\<open>overlap\<close> by \<^verbatim>\<open>xlattice\<close> and by nothing
  else: \<^verbatim>\<open>ylattice\<close> and \<^verbatim>\<open>zlattice\<close> reach only \<^verbatim>\<open>xone[1]\<close> and \<^verbatim>\<open>xone[2]\<close>, and
  changing them leaves the scaled overlap as it is. With box units
  (\<^verbatim>\<open>scaleflag == 0\<close>) \<^verbatim>\<open>xone\<close> and \<^verbatim>\<open>overlap\<close> are unchanged. The distance
  \<^verbatim>\<open>add_random\<close> compares with is this scaled overlap, plus the molecule radius in
  molecule mode.
\<close>

theorem overlap_scaled_by_xlattice_only:
  assumes "sty = SINGLE \<or> sty = RANDOM"
  shows "scale_units sty 1 nb lat (xone, ov) =
           Inr ((v0 xone * xlattice lat, v1 xone * ylattice lat, v2 xone * zlattice lat),
                ov * xlattice lat)
       \<and> map_sum id snd (scale_units sty 1 nb (lat\<lparr>ylattice := y, zlattice := z\<rparr>) (xone, ov)) =
           map_sum id snd (scale_units sty 1 nb lat (xone, ov))
       \<and> scale_units sty 0 nb lat (xone, ov) = Inr (xone, ov)
       \<and> odist ATOM (ov * xlattice lat) r = ov * xlattice lat
       \<and> odist MOLECULE (ov * xlattice lat) r = ov * xlattice lat + r"
  using assms by (auto simp: scale_units_def odist_def)

theorem overlap_scaled_by_xlattice_only_witness:
  "scale_units RANDOM 1 4 \<lparr>xlattice = 2, ylattice = 3, zlattice = 5\<rparr> ((1, 1, 1), 3 / 2) =
     Inr ((2, 3, 5), 3)
   \<and> scale_units RANDOM 0 4 \<lparr>xlattice = 2, ylattice = 3, zlattice = 5\<rparr> ((1, 1, 1), 3 / 2) =
     Inr ((1, 1, 1), 3 / 2)"
  using overlap_scaled_by_xlattice_only [of RANDOM 4 "\<lparr>xlattice = 2, ylattice = 3, zlattice = 5\<rparr>"
      "(1, 1, 1)" "3 / 2" 3 5 0]
  by (simp add: vec_simps)

subsection \<open>The loop bounds enclose the bounding box\<close>

lemma trunc_le_floor_succ: "trunc_to_zero x \<le> \<lfloor>x\<rfloor> + 1"
  unfolding trunc_to_zero_def by (simp add: ceiling_le_iff)

lemma floor_le_trunc: "\<lfloor>x\<rfloor> \<le> trunc_to_zero x"
  unfolding trunc_to_zero_def by (simp add: floor_le_ceiling)

lemma lo_bound_le: "lo_bound x = Some l \<Longrightarrow> l \<le> \<lfloor>x\<rfloor> - 1"
  using trunc_le_floor_succ [of x]
  by (auto simp: lo_bound_def static_cast_int_def in_int_def trunc_to_zero_def
           split: if_splits Option.bind_splits)

lemma hi_bound_ge: "hi_bound x = Some h \<Longrightarrow> \<lfloor>x\<rfloor> + 1 \<le> h"
  using floor_le_trunc [of x]
  by (auto simp: hi_bound_def static_cast_int_def in_int_def split: if_splits Option.bind_splits)

lemma castable_trunc:
  assumes "castable x"
  shows "- (2 ^ 31) + 2 \<le> trunc_to_zero x \<and> trunc_to_zero x \<le> 2 ^ 31 - 2"
proof -
  from assms have lo: "- (2 ^ 31) + 2 \<le> x" and hi: "x < 2 ^ 31 - 1"
    by (simp_all add: castable_def)
  have "real_of_int (- (2 ^ 31) + 2) \<le> x" using lo by simp
  then have "- (2 ^ 31) + 2 \<le> \<lfloor>x\<rfloor>" by (simp only: le_floor_iff)
  then have a: "- (2 ^ 31) + 2 \<le> trunc_to_zero x" using floor_le_trunc [of x] by linarith
  have "x < real_of_int (2 ^ 31 - 1)" using hi by simp
  then have f: "\<lfloor>x\<rfloor> < 2 ^ 31 - 1" by (simp only: floor_less_iff)
  have b: "trunc_to_zero x \<le> 2 ^ 31 - 2"
  proof (cases "0 \<le> x")
    case True then show ?thesis using f by (simp add: trunc_to_zero_def)
  next
    case False
    then have "\<lceil>x\<rceil> \<le> 0" by (simp add: ceiling_le_iff)
    with False show ?thesis by (simp add: trunc_to_zero_def)
  qed
  from a b show ?thesis by simp
qed

lemma lo_bound_defined: "castable x \<Longrightarrow> \<exists>l. lo_bound x = Some l"
  using castable_trunc [of x]
  by (auto simp: lo_bound_def static_cast_int_def in_int_def INT_MIN_def INT_MAX_def)

lemma hi_bound_defined: "castable x \<Longrightarrow> \<exists>h. hi_bound x = Some h"
  using castable_trunc [of x]
  by (auto simp: hi_bound_def static_cast_int_def in_int_def INT_MIN_def INT_MAX_def)

lemma lattice_bounds_Inr:
  assumes "lattice_bounds bmin bmax = Inr b"
  shows "lo_bound (v0 bmin) = Some (ilo b) \<and> lo_bound (v1 bmin) = Some (jlo b) \<and>
         lo_bound (v2 bmin) = Some (klo b) \<and> hi_bound (v0 bmax) = Some (ihi b) \<and>
         hi_bound (v1 bmax) = Some (jhi b) \<and> hi_bound (v2 bmax) = Some (khi b)"
  using assms by (auto simp: lattice_bounds_def split: option.splits)

text \<open>Whenever the conversions are defined, the bounds are wide enough.\<close>

lemma lattice_bounds_enclose_if_defined:
  assumes "lattice_bounds bmin bmax = Inr b"
  shows "ilo b \<le> \<lfloor>v0 bmin\<rfloor> - 1 \<and> jlo b \<le> \<lfloor>v1 bmin\<rfloor> - 1 \<and> klo b \<le> \<lfloor>v2 bmin\<rfloor> - 1 \<and>
         \<lfloor>v0 bmax\<rfloor> + 1 \<le> ihi b \<and> \<lfloor>v1 bmax\<rfloor> + 1 \<le> jhi b \<and> \<lfloor>v2 bmax\<rfloor> + 1 \<le> khi b"
  using lattice_bounds_Inr [OF assms] lo_bound_le hi_bound_ge by blast

lemma lattice_bounds_example:
  "lattice_bounds (-3 / 2, 5 / 2, 0) (5 / 2, 7, -3 / 2) =
     Inr \<lparr>ilo = -3, jlo = 1, klo = -1, ihi = 3, jhi = 8, khi = 0\<rparr>"
  by (simp add: lattice_bounds_def lo_bound_def hi_bound_def static_cast_int_def in_int_def
        trunc_to_zero_def INT_MIN_def INT_MAX_def vec_simps)

text \<open>
  Claim C8, as stated, at a bounding box outside the range of \<^verbatim>\<open>int\<close>: for
  \<open>xmax = 3000000000\<close> the conversion \<^verbatim>\<open>static_cast<int>(xmax)\<close> is undefined, and no
  \<^verbatim>\<open>int\<close> is as large as \<open>floor(xmax) + 1\<close>; \<^verbatim>\<open>add_lattice\<close> yields no bounds that satisfy
  the claim.
\<close>

theorem lattice_bounds_out_of_range_counterexample:
  "\<not> (\<exists>b. lattice_bounds (0, 0, 0) (3000000000, 0, 0) = Inr b \<and>
          \<lfloor>3000000000 :: real\<rfloor> + 1 \<le> ihi b)"
  by (simp add: lattice_bounds_def lo_bound_def hi_bound_def static_cast_int_def in_int_def
        trunc_to_zero_def INT_MIN_def INT_MAX_def vec_simps)

text \<open>
  Claim C8, amended. For every lattice-space bounding box whose six coordinates lie in
  \<open>[-2^31 + 2, 2^31 - 1)\<close>, \<^verbatim>\<open>add_lattice\<close> computes loop bounds, and they satisfy
  \<open>ilo \<le> floor(xmin) - 1\<close> and \<open>ihi \<ge> floor(xmax) + 1\<close>, and likewise for \<open>j\<close> and \<open>k\<close>:
  truncation toward zero is made up for by the extra decrement of a lower bound whose
  minimum is negative.
\<close>

theorem lattice_bounds_enclose:
  assumes "castable (v0 bmin)" "castable (v1 bmin)" "castable (v2 bmin)"
    and "castable (v0 bmax)" "castable (v1 bmax)" "castable (v2 bmax)"
  shows "\<exists>b. lattice_bounds bmin bmax = Inr b \<and>
           ilo b \<le> \<lfloor>v0 bmin\<rfloor> - 1 \<and> jlo b \<le> \<lfloor>v1 bmin\<rfloor> - 1 \<and> klo b \<le> \<lfloor>v2 bmin\<rfloor> - 1 \<and>
           \<lfloor>v0 bmax\<rfloor> + 1 \<le> ihi b \<and> \<lfloor>v1 bmax\<rfloor> + 1 \<le> jhi b \<and> \<lfloor>v2 bmax\<rfloor> + 1 \<le> khi b"
proof -
  from assms obtain il jl kl ih jh kh where
    "lo_bound (v0 bmin) = Some il" "lo_bound (v1 bmin) = Some jl" "lo_bound (v2 bmin) = Some kl"
    "hi_bound (v0 bmax) = Some ih" "hi_bound (v1 bmax) = Some jh" "hi_bound (v2 bmax) = Some kh"
    using lo_bound_defined hi_bound_defined by metis
  then have "lattice_bounds bmin bmax =
      Inr \<lparr>ilo = il, jlo = jl, klo = kl, ihi = ih, jhi = jh, khi = kh\<rparr>"
    by (simp add: lattice_bounds_def)
  then show ?thesis using lattice_bounds_enclose_if_defined by blast
qed

theorem lattice_bounds_enclose_witness:
  "castable (-3 / 2) \<and> castable 0 \<and> castable (5 / 2) \<and> castable 7 \<and>
   lattice_bounds (-3 / 2, 5 / 2, 0) (5 / 2, 7, -3 / 2) =
     Inr \<lparr>ilo = -3, jlo = 1, klo = -1, ihi = 3, jhi = 8, khi = 0\<rparr> \<and>
   (-3 :: int) \<le> \<lfloor>-3 / 2 :: real\<rfloor> - 1 \<and> \<lfloor>5 / 2 :: real\<rfloor> + 1 \<le> (3 :: int)"
proof -
  have c: "castable (-3 / 2)" "castable 0" "castable (5 / 2)" "castable 7"
    by (simp_all add: castable_def)
  have "castable (v0 (-3 / 2 :: real, 5 / 2 :: real, 0 :: real))"
       "castable (v1 (-3 / 2 :: real, 5 / 2 :: real, 0 :: real))"
       "castable (v2 (-3 / 2 :: real, 5 / 2 :: real, 0 :: real))"
       "castable (v0 (5 / 2 :: real, 7 :: real, -3 / 2 :: real))"
       "castable (v1 (5 / 2 :: real, 7 :: real, -3 / 2 :: real))"
       "castable (v2 (5 / 2 :: real, 7 :: real, -3 / 2 :: real))"
    using c by (simp_all add: vec_simps)
  from lattice_bounds_enclose [OF this] lattice_bounds_example c show ?thesis
    by (auto simp: vec_simps)
qed

subsection \<open>The sub-box ownership test\<close>

lemma outside_iff_not_in: "outside_subbox lo hi c = (\<not> in_subbox lo hi c)"
  by (auto simp: outside_subbox_def in_subbox_def)

lemma in_subbox_axes:
  "in_subbox lo hi c = (\<forall>a<3. ax a lo \<le> ax a c \<and> ax a c < ax a hi)"
proof -
  have "(\<forall>a<3::nat. P a) = (P 0 \<and> P 1 \<and> P 2)" for P
  proof
    assume "\<forall>a<3. P a" then show "P 0 \<and> P 1 \<and> P 2" by simp
  next
    assume h: "P 0 \<and> P 1 \<and> P 2"
    show "\<forall>a<3. P a"
    proof (intro allI impI)
      fix a :: nat assume "a < 3"
      then have "a = 0 \<or> a = 1 \<or> a = 2" by arith
      with h show "P a" by auto
    qed
  qed
  then show ?thesis by (auto simp: in_subbox_def vec_simps)
qed

lemma ax_set_sublo: "a < 3 \<Longrightarrow> ax a (set_sublo sty d c) = stored_sublo sty d c a"
proof -
  assume "a < 3"
  then have "a = 0 \<or> a = 1 \<or> a = 2" by arith
  then show ?thesis by (auto simp: set_sublo_def vec_simps)
qed

lemma ax_set_subhi: "a < 3 \<Longrightarrow> ax a (set_subhi sty d c) = stored_subhi sty d c a"
proof -
  assume "a < 3"
  then have "a = 0 \<or> a = 1 \<or> a = 2" by arith
  then show ?thesis by (auto simp: set_subhi_def vec_simps)
qed

lemma epsilon_nonneg: "0 \<le> ax a (prd d) \<Longrightarrow> 0 \<le> epsilon d a"
  by (simp add: epsilon_def EPSILON_def)

lemma stored_subhi_le: "0 \<le> ax a (prd d) \<Longrightarrow> stored_subhi sty d c a \<le> domain_hi d a"
  using epsilon_nonneg [of a d] by (simp add: stored_subhi_def)

lemma stored_sublo_not_edge: "\<not> at_lo_edge c a \<Longrightarrow> stored_sublo sty d c a = domain_lo d a"
  by (simp add: stored_sublo_def)

lemma loop_body_insert:
  assumes "la_style e = REGION \<longrightarrow> region_match e (site_x e s) \<noteq> 0"
    and "la_varflag e \<longrightarrow> vartest e (site_x e s) \<noteq> 0"
  shows "loop_body INSERT e fl s st =
      (if in_subbox (sublo e) (subhi e) (site_coord e (site_x e s))
       then Inr ((place (la_placing e) (basistype e ! snd (snd (snd s))) (site_x e s) st)
                   \<lparr>nlatt := nlatt st + 1\<rparr>)
       else Inr st)"
  using assms
  by (auto simp: loop_body_def perform_def outside_iff_not_in Let_def place_def create_atom_def
        add_molecule_def)

lemmas tri_simps = ex_tri_domain_def ex_tri_env_def

text \<open>
  Claim C4. The ownership test is a closed-open box test: \<^verbatim>\<open>loop_lattice\<close> skips a
  position exactly when some coordinate is not in \<open>[sublo, subhi)\<close>, and \<^verbatim>\<open>add_single\<close>
  and \<^verbatim>\<open>add_random\<close> create at a position exactly when it is not skipped. With the bounds the
  set-up stores, a site that passes the region and variable filters is created (action
  \<^verbatim>\<open>INSERT\<close>) if and only if on every axis \<open>lower \<le> coord < upper\<close>, where \<open>coord\<close> is
  the box coordinate for an orthogonal box and the lamda coordinate for a triclinic one,
  \<open>lower\<close> is the domain's lower bound of the sub-box (in the same coordinates), less
  \<^verbatim>\<open>epsilon\<close> for a rank at the lower edge of a periodic axis, and \<open>upper\<close> is the
  domain's upper bound, less twice \<^verbatim>\<open>epsilon\<close> for a rank at the upper edge of a periodic
  axis (styles \<^verbatim>\<open>box\<close> and \<^verbatim>\<open>region\<close> only; \<^verbatim>\<open>epsilon\<close> is \<open>10^-6\<close> in lamda coordinates
  and \<open>10^-6\<close> times the box length otherwise). Two ranks of which one lies below the
  other along some axis (the upper bound of one is at most the lower bound of the other,
  which therefore is not the lowest rank on that axis) never both own a position; in
  particular none on their shared boundary.
\<close>

theorem subbox_ownership_half_open:
  assumes "a < 3"
    and "domain_hi dA a \<le> domain_lo dB a"
    and "\<not> at_lo_edge cB a"
    and "0 \<le> ax a (prd dA)"
    and "la_style e = REGION \<longrightarrow> region_match e (site_x e s) \<noteq> 0"
    and "la_varflag e \<longrightarrow> vartest e (site_x e s) \<noteq> 0"
    and "sublo e = set_sublo sty d c" and "subhi e = set_subhi sty d c"
    and "la_triclinic e = triclinic d"
  shows "outside_subbox lo hi pos =
           (\<not> (v0 lo \<le> v0 pos \<and> v0 pos < v0 hi \<and> v1 lo \<le> v1 pos \<and> v1 pos < v1 hi \<and>
               v2 lo \<le> v2 pos \<and> v2 pos < v2 hi))
       \<and> in_subbox lo hi pos = (\<not> outside_subbox lo hi pos)
       \<and> loop_body INSERT e fl s st =
           (if \<forall>a<3.
                 (if triclinic d then ax a (dom_sublo_lamda d) else ax a (dom_sublo d))
                   - (if (sty = BOX \<or> sty = REGION) \<and> ax a (periodicity d) \<and> at_lo_edge c a
                      then (if triclinic d then 1 / 1000000 else ax a (prd d) * (1 / 1000000))
                      else 0)
                 \<le> ax a (if triclinic d then x2lamda e (site_x e s) else site_x e s) \<and>
                 ax a (if triclinic d then x2lamda e (site_x e s) else site_x e s)
                 < (if triclinic d then ax a (dom_subhi_lamda d) else ax a (dom_subhi d))
                   - (if (sty = BOX \<or> sty = REGION) \<and> ax a (periodicity d) \<and> at_hi_edge c a
                      then 2 * (if triclinic d then 1 / 1000000 else ax a (prd d) * (1 / 1000000))
                      else 0)
            then Inr ((place (la_placing e) (basistype e ! snd (snd (snd s))) (site_x e s) st)
                        \<lparr>nlatt := nlatt st + 1\<rparr>)
            else Inr st)
       \<and> (outside_subbox (set_sublo sty dA cA) (set_subhi sty dA cA) pos \<or>
          outside_subbox (set_sublo sty dB cB) (set_subhi sty dB cB) pos)"
proof -
  have 1: "outside_subbox lo hi pos =
           (\<not> (v0 lo \<le> v0 pos \<and> v0 pos < v0 hi \<and> v1 lo \<le> v1 pos \<and> v1 pos < v1 hi \<and>
               v2 lo \<le> v2 pos \<and> v2 pos < v2 hi))"
    by (auto simp: outside_subbox_def)
  have lo: "ax a (sublo e) =
      (if triclinic d then ax a (dom_sublo_lamda d) else ax a (dom_sublo d))
        - (if (sty = BOX \<or> sty = REGION) \<and> ax a (periodicity d) \<and> at_lo_edge c a
           then (if triclinic d then 1 / 1000000 else ax a (prd d) * (1 / 1000000))
           else 0)" if "a < 3" for a
    using that
    by (auto simp: assms(7) ax_set_sublo stored_sublo_def domain_lo_def epsilon_def EPSILON_def)
  have hi: "ax a (subhi e) =
      (if triclinic d then ax a (dom_subhi_lamda d) else ax a (dom_subhi d))
        - (if (sty = BOX \<or> sty = REGION) \<and> ax a (periodicity d) \<and> at_hi_edge c a
           then 2 * (if triclinic d then 1 / 1000000 else ax a (prd d) * (1 / 1000000))
           else 0)" if "a < 3" for a
    using that
    by (auto simp: assms(8) ax_set_subhi stored_subhi_def domain_hi_def epsilon_def EPSILON_def)
  have co: "site_coord e (site_x e s) =
      (if triclinic d then x2lamda e (site_x e s) else site_x e s)"
    by (simp add: site_coord_def assms(9))
  have 2: "loop_body INSERT e fl s st =
           (if \<forall>a<3.
                 (if triclinic d then ax a (dom_sublo_lamda d) else ax a (dom_sublo d))
                   - (if (sty = BOX \<or> sty = REGION) \<and> ax a (periodicity d) \<and> at_lo_edge c a
                      then (if triclinic d then 1 / 1000000 else ax a (prd d) * (1 / 1000000))
                      else 0)
                 \<le> ax a (if triclinic d then x2lamda e (site_x e s) else site_x e s) \<and>
                 ax a (if triclinic d then x2lamda e (site_x e s) else site_x e s)
                 < (if triclinic d then ax a (dom_subhi_lamda d) else ax a (dom_subhi d))
                   - (if (sty = BOX \<or> sty = REGION) \<and> ax a (periodicity d) \<and> at_hi_edge c a
                      then 2 * (if triclinic d then 1 / 1000000 else ax a (prd d) * (1 / 1000000))
                      else 0)
            then Inr ((place (la_placing e) (basistype e ! snd (snd (snd s))) (site_x e s) st)
                        \<lparr>nlatt := nlatt st + 1\<rparr>)
            else Inr st)"
    unfolding loop_body_insert [OF assms(5,6), of fl st] in_subbox_axes co [symmetric]
    using lo hi by simp
  have 3: "outside_subbox (set_sublo sty dA cA) (set_subhi sty dA cA) pos \<or>
          outside_subbox (set_sublo sty dB cB) (set_subhi sty dB cB) pos"
  proof (rule ccontr)
    assume "\<not> ?thesis"
    then have A: "in_subbox (set_sublo sty dA cA) (set_subhi sty dA cA) pos"
      and B: "in_subbox (set_sublo sty dB cB) (set_subhi sty dB cB) pos"
      by (simp_all add: outside_iff_not_in)
    from A assms(1) have "ax a pos < stored_subhi sty dA cA a"
      by (simp add: in_subbox_axes ax_set_subhi)
    with stored_subhi_le [OF assms(4), of sty cA] have "ax a pos < domain_hi dA a"
      by linarith
    moreover from B assms(1) have "stored_sublo sty dB cB a \<le> ax a pos"
      by (simp add: in_subbox_axes ax_set_sublo)
    then have "domain_lo dB a \<le> ax a pos"
      by (simp add: stored_sublo_not_edge [OF assms(3)])
    ultimately show False using assms(2) by linarith
  qed
  have i: "in_subbox lo hi pos = (\<not> outside_subbox lo hi pos)"
    by (simp add: outside_iff_not_in)
  from 1 i 2 3 show ?thesis by blast
qed

theorem subbox_ownership_half_open_witness:
  "(0::nat) < 3 \<and> domain_hi (ex_tri_domain 0) 0 \<le> domain_lo (ex_tri_domain 1) 0 \<and>
   \<not> at_lo_edge (ex_comm 1) 0 \<and> 0 \<le> ax 0 (prd (ex_tri_domain 0)) \<and>
   sublo (ex_tri_env 1) = set_sublo BOX (ex_tri_domain 1) (ex_comm 1) \<and>
   subhi (ex_tri_env 1) = set_subhi BOX (ex_tri_domain 1) (ex_comm 1) \<and>
   la_triclinic (ex_tri_env 1) = triclinic (ex_tri_domain 1) \<and>
   set_sublo BOX (ex_tri_domain 0) (ex_comm 0) = (- (1 / 1000000), - (1 / 1000000), - (1 / 1000000)) \<and>
   set_subhi BOX (ex_tri_domain 0) (ex_comm 0) = (1 / 2, 1 - 2 / 1000000, 1 - 2 / 1000000) \<and>
   set_sublo BOX (ex_tri_domain 1) (ex_comm 1) = (1 / 2, - (1 / 1000000), - (1 / 1000000)) \<and>
   set_subhi BOX (ex_tri_domain 1) (ex_comm 1) = (1 - 2 / 1000000, 1 - 2 / 1000000, 1 - 2 / 1000000) \<and>
   set_sublo BOX (ex_domain 0) (ex_comm 0) = (- (2 / 1000000), - (1 / 1000000), - (1 / 1000000)) \<and>
   set_subhi BOX (ex_domain 1) (ex_comm 1) = (2 - 4 / 1000000, 1 - 2 / 1000000, 1 - 2 / 1000000) \<and>
   set_subhi SINGLE (ex_domain 1) (ex_comm 1) = (2, 1, 1) \<and>
   set_sublo BOX (ex_domain 0) ((ex_comm 0)\<lparr>layout_tiled := True\<rparr>) =
     (- (2 / 1000000), - (1 / 1000000), - (1 / 1000000)) \<and>
   set_subhi BOX (ex_domain 0) ((ex_comm 0)\<lparr>layout_tiled := True\<rparr>) = (1, 1 - 2 / 1000000, 1 - 2 / 1000000) \<and>
   loop_body INSERT (ex_tri_env 1) [] (1, 0, 0, 0) ex_latt_state =
     Inr \<lparr>atoms = [(1, (1, 0, 0))], nquat = 0, nlatt = 1, nlatt_overflow = 0\<rparr> \<and>
   loop_body INSERT (ex_tri_env 0) [] (1, 0, 0, 0) ex_latt_state = Inr ex_latt_state \<and>
   loop_body INSERT (ex_tri_env 1) [] (2, 0, 0, 0) ex_latt_state = Inr ex_latt_state \<and>
   (outside_subbox (set_sublo BOX (ex_tri_domain 0) (ex_comm 0))
      (set_subhi BOX (ex_tri_domain 0) (ex_comm 0)) (1 / 2, 0, 0) \<or>
    outside_subbox (set_sublo BOX (ex_tri_domain 1) (ex_comm 1))
      (set_subhi BOX (ex_tri_domain 1) (ex_comm 1)) (1 / 2, 0, 0))"
proof -
  have h: "(0::nat) < 3" "domain_hi (ex_tri_domain 0) 0 \<le> domain_lo (ex_tri_domain 1) 0"
    "\<not> at_lo_edge (ex_comm 1) 0" "0 \<le> ax 0 (prd (ex_tri_domain 0))"
    "la_style (ex_tri_env 1) = REGION \<longrightarrow>
       region_match (ex_tri_env 1) (site_x (ex_tri_env 1) (1, 0, 0, 0)) \<noteq> 0"
    "la_varflag (ex_tri_env 1) \<longrightarrow> vartest (ex_tri_env 1) (site_x (ex_tri_env 1) (1, 0, 0, 0)) \<noteq> 0"
    "sublo (ex_tri_env 1) = set_sublo BOX (ex_tri_domain 1) (ex_comm 1)"
    "subhi (ex_tri_env 1) = set_subhi BOX (ex_tri_domain 1) (ex_comm 1)"
    "la_triclinic (ex_tri_env 1) = triclinic (ex_tri_domain 1)"
    by (simp_all add: tri_simps ex_simps vec_simps)
  have b: "set_sublo BOX (ex_tri_domain 0) (ex_comm 0) = (- (1 / 1000000), - (1 / 1000000), - (1 / 1000000))"
    "set_subhi BOX (ex_tri_domain 0) (ex_comm 0) = (1 / 2, 1 - 2 / 1000000, 1 - 2 / 1000000)"
    "set_sublo BOX (ex_tri_domain 1) (ex_comm 1) = (1 / 2, - (1 / 1000000), - (1 / 1000000))"
    "set_subhi BOX (ex_tri_domain 1) (ex_comm 1) = (1 - 2 / 1000000, 1 - 2 / 1000000, 1 - 2 / 1000000)"
    "set_sublo BOX (ex_domain 0) (ex_comm 0) = (- (2 / 1000000), - (1 / 1000000), - (1 / 1000000))"
    "set_subhi BOX (ex_domain 1) (ex_comm 1) = (2 - 4 / 1000000, 1 - 2 / 1000000, 1 - 2 / 1000000)"
    "set_subhi SINGLE (ex_domain 1) (ex_comm 1) = (2, 1, 1)"
    "set_sublo BOX (ex_domain 0) ((ex_comm 0)\<lparr>layout_tiled := True\<rparr>) =
       (- (2 / 1000000), - (1 / 1000000), - (1 / 1000000))"
    "set_subhi BOX (ex_domain 0) ((ex_comm 0)\<lparr>layout_tiled := True\<rparr>) = (1, 1 - 2 / 1000000, 1 - 2 / 1000000)"
    by (simp_all add: tri_simps ex_simps vec_simps)
  have o: "loop_body INSERT (ex_tri_env 0) [] (1, 0, 0, 0) ex_latt_state = Inr ex_latt_state"
    "loop_body INSERT (ex_tri_env 1) [] (2, 0, 0, 0) ex_latt_state = Inr ex_latt_state"
    by (simp_all add: loop_body_def outside_subbox_def site_x_def site_coord_def tri_simps ex_simps
          vec_simps)
  note t = subbox_ownership_half_open [OF h, where fl = "[]" and st = ex_latt_state
      and cA = "ex_comm 0" and pos = "(1 / 2, 0, 0)" and lo = "(0, 0, 0)" and hi = "(1, 1, 1)"]
  from t have "loop_body INSERT (ex_tri_env 1) [] (1, 0, 0, 0) ex_latt_state =
     Inr \<lparr>atoms = [(1, (1, 0, 0))], nquat = 0, nlatt = 1, nlatt_overflow = 0\<rparr>"
    by (simp add: all_less_3 tri_simps ex_simps vec_simps site_x_def place_def create_atom_def)
  with t h(1-4,7-9) b o show ?thesis by blast
qed

subsection \<open>The lattice loop: the loops over the counters\<close>

lemma for_each_append:
  "for_each body (xs @ ys) st =
     (case for_each body xs st of Inl err \<Rightarrow> Inl err | Inr st' \<Rightarrow> for_each body ys st')"
  by (induction xs arbitrary: st) (auto split: sum.splits)

lemma for_each_concat_map:
  "for_each body (concat (map f xs)) = for_each (\<lambda>x. for_each body (f x)) xs"
proof
  fix st show "for_each body (concat (map f xs)) st = for_each (\<lambda>x. for_each body (f x)) xs st"
    by (induction xs arbitrary: st) (auto simp: for_each_append split: sum.splits)
qed

lemma for_each_map: "for_each body (map g xs) = for_each (\<lambda>x. body (g x)) xs"
proof
  fix st show "for_each body (map g xs) st = for_each (\<lambda>x. body (g x)) xs st"
    by (induction xs arbitrary: st) (auto split: sum.splits)
qed

lemma for_each_skip: "for_each (\<lambda>x st. Inr st) xs st = Inr st"
  by (induction xs) auto

lemma loop_sites_for_each: "loop_sites act e fl ss st = for_each (loop_body act e fl) ss st"
  by (induction ss arbitrary: st) (auto split: sum.splits)

lemma for_int_for_each:
  "\<not> (lo \<le> hi \<and> INT_MAX \<le> hi) \<Longrightarrow> for_int lo hi body = for_each body [lo..hi]"
  by (rule ext) (auto simp: for_int_def split: sum.splits)

lemma for_int_empty: "hi < lo \<Longrightarrow> for_int lo hi body = (\<lambda>st. Inr st)"
  by (rule ext) (simp add: for_int_def)

lemma for_int_Inr:
  assumes "for_int lo hi body st = Inr st'"
  shows "\<not> (lo \<le> hi \<and> INT_MAX \<le> hi)" and "for_each body [lo..hi] st = Inr st'"
  using assms by (auto simp: for_int_def split: sum.splits if_splits)

lemma for_each_first:
  assumes "for_each body xs st = Inr st'" and "xs \<noteq> []"
  shows "\<exists>s. body (hd xs) st = Inr s"
  using assms by (cases xs) (auto split: sum.splits)

lemma for_each_Inl:
  "for_each body xs st = Inl err \<Longrightarrow> \<exists>x s. body x s = Inl err"
proof (induction xs arbitrary: st)
  case Nil
  then show ?case by simp
next
  case (Cons x xs)
  show ?case
  proof (cases "body x st")
    case (Inl err')
    with Cons.prems have "err' = err" by simp
    with Inl show ?thesis by blast
  next
    case (Inr st1)
    with Cons.prems have "for_each body xs st1 = Inl err" by simp
    then show ?thesis by (rule Cons.IH)
  qed
qed

lemma for_int_Inl:
  assumes "for_int lo hi body st = Inl err"
  shows "err = IntConversionUndefined \<or> (\<exists>x s. body x s = Inl err)"
proof (cases "for_each body [lo..hi] st")
  case (Inl err')
  with assms have "err' = err" by (simp add: for_int_def)
  with Inl for_each_Inl [of body "[lo..hi]" st err] show ?thesis by blast
next
  case (Inr st1)
  with assms show ?thesis by (simp add: for_int_def split: if_splits)
qed

lemma concat_map_Nil: "concat (map (\<lambda>x. []) xs) = []"
  by (induction xs) auto

lemma loop_lattice_sites:
  assumes "\<not> counter_overflows b"
  shows "loop_lattice act e b fl st =
           loop_sites act e fl (lattice_sites b (nbasis e)) (st\<lparr>nlatt := 0\<rparr>)"
proof (cases "klo b \<le> khi b")
  case False
  then show ?thesis
    by (simp add: loop_lattice_def for_int_empty lattice_sites_def)
next
  case k: True
  with assms have kk: "\<not> (klo b \<le> khi b \<and> INT_MAX \<le> khi b)"
    by (auto simp: counter_overflows_def)
  show ?thesis
  proof (cases "jlo b \<le> jhi b")
    case False
    then show ?thesis
      by (simp add: loop_lattice_def for_int_for_each [OF kk] for_int_empty for_each_skip
            lattice_sites_def concat_map_Nil)
  next
    case j: True
    with k assms have jj: "\<not> (jlo b \<le> jhi b \<and> INT_MAX \<le> jhi b)"
      and ii: "\<not> (ilo b \<le> ihi b \<and> INT_MAX \<le> ihi b)"
      by (auto simp: counter_overflows_def)
    show ?thesis
      by (simp add: loop_lattice_def for_int_for_each [OF kk] for_int_for_each [OF jj]
            for_int_for_each [OF ii] lattice_sites_def loop_sites_for_each for_each_concat_map
            for_each_map)
  qed
qed

lemma loop_lattice_Inr:
  assumes "loop_lattice act e b fl st = Inr st'"
  shows "\<not> counter_overflows b"
proof
  assume o: "counter_overflows b"
  then have k: "klo b \<le> khi b" by (simp add: counter_overflows_def)
  let ?bi = "\<lambda>k j i. for_each (\<lambda>m. loop_body act e fl (i, j, k, m)) [0..<nbasis e]"
  let ?bj = "\<lambda>k j. for_int (ilo b) (ihi b) (?bi k j)"
  let ?bk = "\<lambda>k. for_int (jlo b) (jhi b) (?bj k)"
  from assms have a: "for_int (klo b) (khi b) ?bk (st\<lparr>nlatt := 0\<rparr>) = Inr st'"
    by (simp add: loop_lattice_def)
  note ka = for_int_Inr [OF a]
  from k have "[klo b..khi b] \<noteq> []" by simp
  from for_each_first [OF ka(2) this] obtain s1 where
    s1: "?bk (hd [klo b..khi b]) (st\<lparr>nlatt := 0\<rparr>) = Inr s1" by blast
  note ja = for_int_Inr [OF s1]
  from o k ka(1) have j: "jlo b \<le> jhi b" by (auto simp: counter_overflows_def)
  then have "[jlo b..jhi b] \<noteq> []" by simp
  from for_each_first [OF ja(2) this] obtain s2 where
    s2: "?bj (hd [klo b..khi b]) (hd [jlo b..jhi b]) (st\<lparr>nlatt := 0\<rparr>) = Inr s2" by blast
  note ia = for_int_Inr [OF s2]
  from o k j ka(1) ja(1) ia(1) show False by (auto simp: counter_overflows_def)
qed

lemma loop_body_error:
  "loop_body act e fl s st = Inl err \<Longrightarrow> act = INSERT_SELECTED \<and> err = FlagIndexOutOfRange"
  by (cases act) (auto simp: loop_body_def perform_def Let_def split: if_splits sum.splits)

lemma loop_lattice_error:
  assumes "loop_lattice act e b fl st = Inl err"
  shows "err = IntConversionUndefined \<or> (act = INSERT_SELECTED \<and> err = FlagIndexOutOfRange)"
proof (rule ccontr)
  assume n: "\<not> ?thesis"
  let ?bi = "\<lambda>k j i. for_each (\<lambda>m. loop_body act e fl (i, j, k, m)) [0..<nbasis e]"
  let ?bj = "\<lambda>k j. for_int (ilo b) (ihi b) (?bi k j)"
  let ?bk = "\<lambda>k. for_int (jlo b) (jhi b) (?bj k)"
  from assms have a: "for_int (klo b) (khi b) ?bk (st\<lparr>nlatt := 0\<rparr>) = Inl err"
    by (simp add: loop_lattice_def)
  from for_int_Inl [OF a] n obtain k s where "?bk k s = Inl err" by blast
  from for_int_Inl [OF this] n obtain j s' where "?bj k j s' = Inl err" by blast
  from for_int_Inl [OF this] n obtain i s'' where "?bi k j i s'' = Inl err" by blast
  from for_each_Inl [OF this] obtain m t where "loop_body act e fl (i, j, k, m) t = Inl err"
    by blast
  from loop_body_error [OF this] n show False by simp
qed

subsection \<open>The lattice loop: the counter and the overflow flag\<close>

lemma loop_body_passes:
  "loop_body act e fl s st =
     (if site_passes e s then
        (case perform act e fl (snd (snd (snd s))) (site_x e s) st of
           Inl err \<Rightarrow> Inl err
         | Inr st' \<Rightarrow> Inr (st'\<lparr>nlatt := nlatt st' + 1\<rparr>))
      else Inr st)"
  by (auto simp: loop_body_def site_passes_def Let_def)

lemma nlatt_place [simp]: "nlatt (place p ty x st) = nlatt st"
  by (simp add: place_def create_atom_def add_molecule_def)

lemma nlatt_overflow_place [simp]: "nlatt_overflow (place p ty x st) = nlatt_overflow st"
  by (simp add: place_def create_atom_def add_molecule_def)

lemma perform_nlatt: "perform act e fl m x st = Inr st' \<Longrightarrow> nlatt st' = nlatt st"
  by (auto simp: perform_def split: if_splits)

lemma loop_body_nlatt:
  "loop_body act e fl s st = Inr st' \<Longrightarrow>
     nlatt st' = (if site_passes e s then nlatt st + 1 else nlatt st)"
  by (auto simp: loop_body_passes dest: perform_nlatt split: if_splits sum.splits)

lemma passing_Cons:
  "passing e (s # ss) = (if site_passes e s then Suc (passing e ss) else passing e ss)"
  by (simp add: passing_def)

lemma loop_sites_nlatt:
  "loop_sites act e fl ss st = Inr st' \<Longrightarrow> nlatt st' = nlatt st + of_nat (passing e ss)"
proof (induction ss arbitrary: st)
  case Nil
  then show ?case by (simp add: passing_def)
next
  case (Cons s ss)
  from Cons.prems obtain st1 where b: "loop_body act e fl s st = Inr st1"
    and r: "loop_sites act e fl ss st1 = Inr st'"
    by (auto split: sum.splits)
  from Cons.IH [OF r] loop_body_nlatt [OF b] show ?case
    by (simp add: passing_Cons)
qed

lemma perform_COUNT:
  "perform COUNT e fl m x st =
     Inr (if nlatt st = MAXSMALLINT then st\<lparr>nlatt_overflow := 1\<rparr> else st)"
  by (simp add: perform_def)

lemma perform_INSERT: "perform INSERT e fl m x st = Inr (place (la_placing e) (basistype e ! m) x st)"
  by (simp add: perform_def)

lemma loop_body_total:
  assumes "act \<noteq> INSERT_SELECTED"
  shows "\<exists>st'. loop_body act e fl s st = Inr st'"
  using assms by (cases act) (simp_all add: loop_body_passes perform_COUNT perform_INSERT)

lemma loop_sites_total:
  assumes "act \<noteq> INSERT_SELECTED"
  shows "\<exists>st'. loop_sites act e fl ss st = Inr st'"
proof (induction ss arbitrary: st)
  case Nil
  then show ?case by simp
next
  case (Cons s ss)
  from loop_body_total [OF assms] obtain st1 where "loop_body act e fl s st = Inr st1" by blast
  with Cons.IH [of st1] show ?case by simp
qed


lemma loop_lattice_COUNT_iff:
  shows "(\<exists>c. loop_lattice COUNT e b fl st = Inr c) = (\<not> counter_overflows b)"
    and "counter_overflows b \<Longrightarrow> loop_lattice COUNT e b fl st = Inl IntConversionUndefined"
proof -
  have t: "\<exists>c. loop_lattice COUNT e b fl st = Inr c" if "\<not> counter_overflows b"
    using loop_sites_total [of COUNT e fl "lattice_sites b (nbasis e)" "st\<lparr>nlatt := 0\<rparr>"]
    by (simp add: loop_lattice_sites [OF that])
  show "(\<exists>c. loop_lattice COUNT e b fl st = Inr c) = (\<not> counter_overflows b)"
    using t loop_lattice_Inr by blast
  show "loop_lattice COUNT e b fl st = Inl IntConversionUndefined" if "counter_overflows b"
  proof (cases "loop_lattice COUNT e b fl st")
    case (Inl err)
    with loop_lattice_error [OF Inl] show ?thesis by simp
  next
    case (Inr c)
    with loop_lattice_Inr that show ?thesis by blast
  qed
qed

lemma loop_lattice_Inr_sites:
  assumes "loop_lattice act e b fl st = Inr st'"
  shows "loop_sites act e fl (lattice_sites b (nbasis e)) (st\<lparr>nlatt := 0\<rparr>) = Inr st'"
  using assms loop_lattice_sites [OF loop_lattice_Inr [OF assms]] by simp

lemma ex_less_Suc_shift: "(\<exists>t<Suc n. P t) = (P 0 \<or> (\<exists>t<n. P (Suc t)))"
proof
  assume "\<exists>t<Suc n. P t"
  then obtain t where t: "t < Suc n" "P t" by blast
  show "P 0 \<or> (\<exists>t<n. P (Suc t))"
  proof (cases t)
    case 0 with t show ?thesis by simp
  next
    case (Suc u) with t show ?thesis by auto
  qed
next
  assume "P 0 \<or> (\<exists>t<n. P (Suc t))"
  then show "\<exists>t<Suc n. P t" by auto
qed

lemma loop_sites_COUNT_overflow:
  "nlatt st = of_nat a \<Longrightarrow> loop_sites COUNT e fl ss st = Inr st' \<Longrightarrow>
     nlatt_overflow st' =
       (if \<exists>t<passing e ss. counter_at_max (a + t) then 1 else nlatt_overflow st)"
proof (induction ss arbitrary: st a)
  case Nil
  then show ?case by (simp add: passing_def)
next
  case (Cons s ss)
  show ?case
  proof (cases "site_passes e s")
    case False
    with Cons.prems have "loop_sites COUNT e fl ss st = Inr st'"
      by (simp add: loop_body_passes)
    from Cons.IH [OF Cons.prems(1) this] False show ?thesis
      by (simp add: passing_Cons)
  next
    case True
    define st1 where "st1 = (if nlatt st = MAXSMALLINT then st\<lparr>nlatt_overflow := 1\<rparr> else st)
        \<lparr>nlatt := nlatt st + 1\<rparr>"
    from True Cons.prems have r: "loop_sites COUNT e fl ss st1 = Inr st'"
      by (simp add: loop_body_passes perform_COUNT st1_def split: if_splits)
    have n1: "nlatt st1 = of_nat (Suc a)"
      using Cons.prems(1) by (simp add: st1_def)
    have o1: "nlatt_overflow st1 = (if counter_at_max a then 1 else nlatt_overflow st)"
      using Cons.prems(1) by (simp add: st1_def counter_at_max_def)
    have ih: "nlatt_overflow st' =
       (if \<exists>t<passing e ss. counter_at_max (a + Suc t) then 1 else nlatt_overflow st1)"
      using Cons.IH [OF n1 r] by simp
    have sh: "(\<exists>t<Suc (passing e ss). counter_at_max (a + t)) =
        (counter_at_max (a + 0) \<or> (\<exists>t<passing e ss. counter_at_max (a + Suc t)))"
      by (rule ex_less_Suc_shift)
    have p: "passing e (s # ss) = Suc (passing e ss)"
      using True by (simp add: passing_Cons)
    show ?thesis
      unfolding p sh ih o1 by auto
  qed
qed

lemma ex_counter_at_max: "(\<exists>t<n. counter_at_max t) = (2147483647 < n)"
proof
  assume "\<exists>t<n. counter_at_max t"
  then obtain t where t: "t < n" "(of_nat t :: 32 word) = MAXSMALLINT"
    by (auto simp: counter_at_max_def)
  from t(2) have "unat (of_nat t :: 32 word) = unat MAXSMALLINT" by simp
  then have "t mod 2 ^ 32 = 2147483647" by (simp add: unat_of_nat MAXSMALLINT_def)
  moreover have "t mod 2 ^ 32 \<le> t" by simp
  ultimately show "2147483647 < n" using t(1) by linarith
next
  assume "2147483647 < n"
  moreover have "counter_at_max 2147483647" by (simp add: MAXSMALLINT_def counter_at_max_def)
  ultimately show "\<exists>t<n. counter_at_max t" by blast
qed

lemma loop_lattice_COUNT_overflow:
  assumes "loop_lattice COUNT e b fl st = Inr st'"
  shows "nlatt_overflow st' =
      (if 2147483647 < passing e (lattice_sites b (nbasis e)) then 1 else nlatt_overflow st)"
proof -
  have "nlatt (st\<lparr>nlatt := 0\<rparr>) = of_nat 0" by simp
  from loop_sites_COUNT_overflow [OF this loop_lattice_Inr_sites [OF assms]]
  show ?thesis by (simp add: ex_counter_at_max)
qed

lemma sint_of_nat_small:
  assumes "n \<le> 2147483647"
  shows "sint (of_nat n :: 32 word) = int n"
proof -
  have "signed_take_bit 31 (int n) = int n"
    using assms by (intro signed_take_bit_int_eq_self) simp_all
  then show ?thesis by (simp add: signed_of_nat)
qed

lemma loop_sites_error:
  "loop_sites act e fl ss st = Inl err \<Longrightarrow> act = INSERT_SELECTED \<and> err = FlagIndexOutOfRange"
proof (induction ss arbitrary: st)
  case Nil
  then show ?case by simp
next
  case (Cons s ss)
  show ?case
  proof (cases "loop_body act e fl s st")
    case (Inl err')
    with Cons.prems have "err' = err" by simp
    with Inl show ?thesis
      by (cases act) (auto simp: loop_body_passes perform_def split: if_splits sum.splits)
  next
    case (Inr st1)
    with Cons.prems have "loop_sites act e fl ss st1 = Inl err" by simp
    then show ?thesis by (rule Cons.IH)
  qed
qed

lemma loop_sites_selected_ok:
  "nlatt st = of_nat a \<Longrightarrow> a + passing e ss \<le> length fl \<Longrightarrow> length fl \<le> 2147483647 \<Longrightarrow>
     \<exists>st'. loop_sites INSERT_SELECTED e fl ss st = Inr st'"
proof (induction ss arbitrary: st a)
  case Nil
  then show ?case by simp
next
  case (Cons s ss)
  show ?case
  proof (cases "site_passes e s")
    case False
    with Cons.prems have "a + passing e ss \<le> length fl" by (simp add: passing_Cons)
    from Cons.IH [OF Cons.prems(1) this Cons.prems(3)] False show ?thesis
      by (simp add: loop_body_passes)
  next
    case True
    with Cons.prems have lt: "a < length fl" and le: "Suc a + passing e ss \<le> length fl"
      by (simp_all add: passing_Cons)
    from lt Cons.prems(3) have "a \<le> 2147483647" by linarith
    then have si: "sint (nlatt st) = int a"
      using Cons.prems(1) by (simp add: sint_of_nat_small)
    then have "\<exists>st1. perform INSERT_SELECTED e fl (snd (snd (snd s))) (site_x e s) st = Inr st1"
      using lt by (simp add: perform_def)
    then obtain st1 where p: "perform INSERT_SELECTED e fl (snd (snd (snd s))) (site_x e s) st = Inr st1"
      by blast
    from perform_nlatt [OF p] Cons.prems(1) have n1: "nlatt (st1\<lparr>nlatt := nlatt st1 + 1\<rparr>) = of_nat (Suc a)"
      by simp
    from Cons.IH [OF n1 le Cons.prems(3)] True p show ?thesis
      by (simp add: loop_body_passes)
  qed
qed

lemma sum_list_flags:
  assumes "\<forall>x\<in>set xs. x = 0 \<or> x = (1 :: 32 word)"
  shows "sum_list xs = of_nat (length (filter (\<lambda>x. x = 1) xs))"
  using assms by (induction xs) auto

lemma allreduce_flags_zero:
  assumes "\<forall>x\<in>set xs. x = 0 \<or> x = (1 :: 32 word)" and "length xs < 2 ^ 32"
  shows "(allreduce_sum_int xs = 0) = (\<forall>x\<in>set xs. x = 0)"
proof -
  let ?n = "length (filter (\<lambda>x. x = 1) xs)"
  have "?n \<le> length xs" by simp
  with assms(2) have lt: "?n < 2 ^ 32" by linarith
  have "(of_nat ?n = (0 :: 32 word)) = (?n = 0)"
  proof
    assume "of_nat ?n = (0 :: 32 word)"
    then have "2 ^ 32 dvd ?n" by (simp add: word_of_nat_eq_0_iff)
    with lt show "?n = 0" by (meson dvd_imp_le not_less zero_less_iff_neq_zero)
  next
    assume "?n = 0" then show "of_nat ?n = (0 :: 32 word)" by simp
  qed
  moreover have "(?n = 0) = (\<forall>x\<in>set xs. x = 0)"
    using assms(1) by (auto simp: filter_empty_conv)
  ultimately show ?thesis
    using sum_list_flags [OF assms(1)] by (simp add: allreduce_sum_int_def)
qed

lemma collect_Inr:
  "collect xs = Inr ys \<Longrightarrow> length ys = length xs \<and> (\<forall>i<length xs. xs ! i = Inr (ys ! i))"
proof (induction xs arbitrary: ys rule: collect.induct)
  case 1
  then show ?case by simp
next
  case (2 err rs)
  then show ?case by simp
next
  case (3 x rs)
  from "3.prems" obtain zs where z: "collect rs = Inr zs" and y: "ys = x # zs"
    by (auto split: sum.splits)
  from "3.IH" [OF z] y show ?case by (auto simp: nth_Cons')
qed

lemma collect_Inl:
  "collect xs = Inl err \<Longrightarrow> \<exists>i<length xs. xs ! i = Inl err"
proof (induction xs rule: collect.induct)
  case 1
  then show ?case by simp
next
  case (2 err' rs)
  then show ?case by auto
next
  case (3 x rs)
  from "3.prems" have "collect rs = Inl err" by (auto split: sum.splits)
  from "3.IH" [OF this] obtain i where "i < length rs" "rs ! i = Inl err" by blast
  then have "Suc i < length (Inr x # rs) \<and> (Inr x # rs) ! Suc i = Inl err" by simp
  then show ?case by blast
qed

lemma count_pass_Inr:
  assumes "count_pass r = Inr (b, c)"
  shows "lattice_bounds (bbox_min (fst r)) (bbox_max (fst r)) = Inr b"
    and "loop_lattice COUNT (fst r) b [] ((snd r)\<lparr>nlatt_overflow := 0\<rparr>) = Inr c"
    and "nlatt_overflow c =
           (if 2147483647 < passing (fst r) (lattice_sites b (nbasis (fst r))) then 1 else 0)"
    and "nlatt c = of_nat (passing (fst r) (lattice_sites b (nbasis (fst r))))"
    and "\<not> counter_overflows b"
proof -
  from assms show 1: "lattice_bounds (bbox_min (fst r)) (bbox_max (fst r)) = Inr b"
    and 2: "loop_lattice COUNT (fst r) b [] ((snd r)\<lparr>nlatt_overflow := 0\<rparr>) = Inr c"
    by (auto simp: count_pass_def split: sum.splits)
  from loop_lattice_COUNT_overflow [OF 2]
  show "nlatt_overflow c =
           (if 2147483647 < passing (fst r) (lattice_sites b (nbasis (fst r))) then 1 else 0)"
    by simp
  from loop_sites_nlatt [OF loop_lattice_Inr_sites [OF 2]]
  show "nlatt c = of_nat (passing (fst r) (lattice_sites b (nbasis (fst r))))"
    by simp
  from loop_lattice_Inr [OF 2] show "\<not> counter_overflows b" .
qed

lemma add_lattice_counted:
  assumes "collect (map count_pass rs) = Inr counted"
  shows "add_lattice se rs =
     (if allreduce_sum_int (map (\<lambda>r. nlatt_overflow (snd r)) counted) \<noteq> 0
      then Inl LatticeOverflow
      else
        (case (if subsetflag se = NONE then Inr 0
               else subset_target se
                      (allreduce_sum_bigint (map (\<lambda>r. sint (nlatt (snd r))) counted))) of
           Inl err \<Rightarrow> Inl err
         | Inr n \<Rightarrow>
             collect (map (\<lambda>me. insert_pass se n me (fst (rs ! me)) (counted ! me))
                        [0..<length rs])))"
  using assms by (simp add: add_lattice_def)

lemma counted_nth:
  assumes "collect (map count_pass rs) = Inr counted" and "me < length rs"
  shows "count_pass (rs ! me) = Inr (fst (counted ! me), snd (counted ! me))"
    and "length counted = length rs"
  using collect_Inr [OF assms(1)] assms(2) by auto

lemma counted_flags:
  assumes "collect (map count_pass rs) = Inr counted"
  shows "\<forall>x\<in>set (map (\<lambda>r. nlatt_overflow (snd r)) counted). x = 0 \<or> x = 1"
proof
  fix x assume "x \<in> set (map (\<lambda>r. nlatt_overflow (snd r)) counted)"
  then obtain me where me: "me < length counted" "x = nlatt_overflow (snd (counted ! me))"
    by (auto simp: in_set_conv_nth)
  with counted_nth [OF assms] have "count_pass (rs ! me) = Inr (fst (counted ! me), snd (counted ! me))"
    by (simp add: collect_Inr [OF assms])
  from count_pass_Inr(3) [OF this] me(2) show "x = 0 \<or> x = 1" by simp
qed

lemma insert_pass_error:
  "insert_pass se n me e r = Inl err \<Longrightarrow> err = FlagIndexOutOfRange \<or> err = IntConversionUndefined"
  by (auto simp: insert_pass_def dest: loop_lattice_error split: if_splits)

lemma subset_target_error: "subset_target se k = Inl err \<Longrightarrow> err = SubsetTooBig"
  by (auto simp: subset_target_def Let_def split: if_splits)

lemma passing_append: "passing e (xs @ ys) = passing e xs + passing e ys"
  by (simp add: passing_def)

lemma passing_take_less:
  assumes "k < length ss" and "site_passes e (ss ! k)"
  shows "passing e (take k ss) < passing e ss"
proof -
  have "ss = take k ss @ ss ! k # drop (Suc k) ss"
    using assms(1) by (rule id_take_nth_drop)
  then have "passing e ss = passing e (take k ss @ ss ! k # drop (Suc k) ss)" by simp
  also have "\<dots> = passing e (take k ss) + Suc (passing e (drop (Suc k) ss))"
    using assms(2) by (simp only: passing_append passing_Cons if_True)
  finally show ?thesis by simp
qed

lemma passing_take_le: "passing e (take k ss) \<le> passing e ss"
proof -
  have "passing e ss = passing e (take k ss @ drop k ss)" by simp
  also have "\<dots> = passing e (take k ss) + passing e (drop k ss)" by (simp only: passing_append)
  finally show ?thesis by simp
qed

lemma length_subset_flags: "length (subset_flags se n me st) = nat (sint (nlatt st))"
  by (simp add: subset_flags_def Let_def)

lemma counted_no_overflow:
  assumes "length rs < 2 ^ 32" and "collect (map count_pass rs) = Inr counted"
    and "allreduce_sum_int (map (\<lambda>r. nlatt_overflow (snd r)) counted) = 0"
    and "me < length rs"
  shows "passing (fst (rs ! me)) (lattice_sites (fst (counted ! me)) (nbasis (fst (rs ! me))))
           \<le> 2147483647"
    and "length (subset_flags se n me (snd (counted ! me))) =
           passing (fst (rs ! me)) (lattice_sites (fst (counted ! me)) (nbasis (fst (rs ! me))))"
proof -
  let ?P = "passing (fst (rs ! me)) (lattice_sites (fst (counted ! me)) (nbasis (fst (rs ! me))))"
  let ?flags = "map (\<lambda>r. nlatt_overflow (snd r)) counted"
  note cp = counted_nth(1) [OF assms(2,4)]
  have len: "length counted = length rs" by (rule counted_nth(2) [OF assms(2,4)])
  then have "length ?flags < 2 ^ 32" using assms(1) by simp
  from allreduce_flags_zero [OF counted_flags [OF assms(2)] this] assms(3)
  have "\<forall>x\<in>set ?flags. x = 0" by simp
  moreover have "nlatt_overflow (snd (counted ! me)) \<in> set ?flags"
    using assms(4) len by (simp add: image_iff) (metis nth_mem)
  ultimately have "nlatt_overflow (snd (counted ! me)) = 0" by blast
  with count_pass_Inr(3) [OF cp] show le: "?P \<le> 2147483647"
    by (simp split: if_splits)
  from count_pass_Inr(4) [OF cp] have "sint (nlatt (snd (counted ! me))) = int ?P"
    using sint_of_nat_small [OF le] by simp
  then show "length (subset_flags se n me (snd (counted ! me))) = ?P"
    by (simp add: length_subset_flags)
qed

lemma insert_selected_total:
  assumes "length rs < 2 ^ 32" and "collect (map count_pass rs) = Inr counted"
    and "allreduce_sum_int (map (\<lambda>r. nlatt_overflow (snd r)) counted) = 0"
    and "me < length rs"
  shows "\<exists>st. loop_lattice INSERT_SELECTED (fst (rs ! me)) (fst (counted ! me))
                (subset_flags se n me (snd (counted ! me))) (snd (counted ! me)) = Inr st"
proof -
  note no = counted_no_overflow(1) [OF assms] counted_no_overflow(2) [OF assms, of se n]
  note ok = count_pass_Inr(5) [OF counted_nth(1) [OF assms(2,4)]]
  have "nlatt ((snd (counted ! me))\<lparr>nlatt := 0\<rparr>) = of_nat 0" by simp
  from loop_sites_selected_ok [OF this, of "fst (rs ! me)"
      "lattice_sites (fst (counted ! me)) (nbasis (fst (rs ! me)))"
      "subset_flags se n me (snd (counted ! me))"] no
  show ?thesis by (simp add: loop_lattice_sites [OF ok])
qed

subsection \<open>The example configuration, evaluated\<close>

lemma ex_count_pass: "collect (map count_pass ex_ranks) = Inr ex_counted"
  by code_simp



lemma ex_site_21:
  "site_passes (fst (ex_ranks ! 1))
     (lattice_sites (fst (ex_counted ! 1)) (nbasis (fst (ex_ranks ! 1))) ! 21)"
  by code_simp

lemma ex_sum: "allreduce_sum_int (map (\<lambda>r. nlatt_overflow (snd r)) ex_counted) = 0"
  by code_simp

lemma ex_len: "21 < length (lattice_sites (fst (ex_counted ! 1)) (nbasis (fst (ex_ranks ! 1))))"
  by code_simp

lemma ex_add: "add_lattice ex_subset ex_ranks = Inr [ex_latt_state\<lparr>nlatt := 1\<rparr>, \<lparr>atoms = [(1, (1, 0, 0))], nquat = 0, nlatt = 1, nlatt_overflow = 0\<rparr>]"
  by code_simp




lemma ex_boxes_disjoint: "boxes_disjoint ex_procs"
  unfolding boxes_disjoint_def
proof (intro allI impI)
  fix c :: vec3 and r1 r2 :: nat
  assume "r1 < length ex_procs" "r2 < length ex_procs" "r1 \<noteq> r2"
  then have "r1 < 2" "r2 < 2" "r1 \<noteq> r2" by (simp_all add: ex_procs_def)
  then have "(r1 = 0 \<and> r2 = 1) \<or> (r1 = 1 \<and> r2 = 0)" by arith
  then show "\<not> (in_subbox (p_sublo (ex_procs ! r1)) (p_subhi (ex_procs ! r1)) c \<and>
              in_subbox (p_sublo (ex_procs ! r2)) (p_subhi (ex_procs ! r2)) c)"
    by (auto simp: ex_procs_def in_subbox_def vec_simps)
qed

lemma ex_random_two:
  "add_random (ex_random_env ATOM (1 / 2) 2 2) ex_procs =
     Inr ([\<lparr>atoms = [(1, (1 / 2, 1 / 2, 1 / 2))], nquat = 0, p_sublo = (0, 0, 0), p_subhi = (1, 1, 1)\<rparr>,
           \<lparr>atoms = [(1, (3 / 2, 1 / 2, 1 / 2))], nquat = 0, p_sublo = (1, 0, 0), p_subhi = (2, 1, 1)\<rparr>],
          2, [None, None])"
  by code_simp

lemma ex_random_molecule:
  "add_random (ex_random_env MOLECULE 2 1 1) ex_procs =
     Inr ([\<lparr>atoms = [(1, (0, 1 / 2, 1 / 2)), (1, (1, 1 / 2, 1 / 2))], nquat = 1,
             p_sublo = (0, 0, 0), p_subhi = (1, 1, 1)\<rparr>,
           \<lparr>atoms = [], nquat = 0, p_sublo = (1, 0, 0), p_subhi = (2, 1, 1)\<rparr>],
          1, [None, None])"
  by code_simp

lemma ex_distsq:
  "distsq (ex_random_env md ov nr tries) (3 / 2, 1 / 2, 1 / 2) (1 / 2, 1 / 2, 1 / 2) = 1"
  "distsq (ex_random_env md ov nr tries) (1, 1 / 2, 1 / 2) (0, 1 / 2, 1 / 2) = 1"
  "distsq (ex_random_env md ov nr tries) (0, 1 / 2, 1 / 2) (1, 1 / 2, 1 / 2) = 1"
  by (simp_all add: distsq_def ex_random_env_def ex_minimum_image_def ex_image_def vec_simps)

subsection \<open>A rank with more sites than an \<^verbatim>\<open>int\<close> counts\<close>

lemma passing_concat_map:
  "passing e (concat (map f xs)) = sum_list (map (\<lambda>x. passing e (f x)) xs)"
  by (induction xs) (simp_all add: passing_def)

lemma sum_list_if_count:
  "sum_list (map (\<lambda>i. if P i then c else (0 :: nat)) xs) = length (filter P xs) * c"
  by (induction xs) simp_all

lemma sum_range:
  assumes "lo \<le> a" and "b \<le> hi" and "a \<le> b"
  shows "sum_list (map (\<lambda>i. if a \<le> i \<and> i \<le> b \<and> Q then c else (0 :: nat)) [lo..hi]) =
           (if Q then nat (b - a + 1) * c else 0)"
proof (cases Q)
  case False
  then show ?thesis by (simp add: sum_list_if_count)
next
  case True
  have "length (filter (\<lambda>i. a \<le> i \<and> i \<le> b) [lo..hi]) = card ({i. a \<le> i \<and> i \<le> b} \<inter> set [lo..hi])"
    by (rule distinct_length_filter) simp
  also have "{i. a \<le> i \<and> i \<le> b} \<inter> set [lo..hi] = {a..b}"
    using assms by auto
  finally have "length (filter (\<lambda>i. a \<le> i \<and> i \<le> b) [lo..hi]) = nat (b - a + 1)" by simp
  with True show ?thesis by (simp add: sum_list_if_count)
qed

lemma ex_big_site:
  "site_passes ex_big_env (i, j, k, 0) =
     (0 \<le> i \<and> i \<le> 65535 \<and> 0 \<le> j \<and> j \<le> 65535 \<and> 0 \<le> k \<and> k \<le> 0)"
  by (auto simp: site_passes_def ex_big_env_def site_x_def site_coord_def outside_subbox_def vec_simps)

lemma ex_big_passing:
  "passing ex_big_env (lattice_sites ex_big_bounds (nbasis ex_big_env)) = 4294967296"
proof -
  have nb: "nbasis ex_big_env = 1" by (simp add: ex_big_env_def)
  have row: "passing ex_big_env (map (\<lambda>m. (i, j, k, m)) [0..<1]) =
      (if 0 \<le> i \<and> i \<le> 65535 \<and> (0 \<le> j \<and> j \<le> 65535 \<and> 0 \<le> k \<and> k \<le> 0) then 1 else 0)" for i j k
    by (simp add: passing_def ex_big_site)
  have "passing ex_big_env (lattice_sites ex_big_bounds (nbasis ex_big_env)) =
      sum_list (map (\<lambda>k. sum_list (map (\<lambda>j. sum_list (map (\<lambda>i.
        (if 0 \<le> i \<and> i \<le> 65535 \<and> (0 \<le> j \<and> j \<le> 65535 \<and> 0 \<le> k \<and> k \<le> 0) then 1 else 0))
        [- 1..65537])) [- 1..65537])) [- 1..2])"
    by (simp only: nb lattice_sites_def passing_concat_map row ex_big_bounds_def
          loop_bounds.simps)
  also have "\<dots> = sum_list (map (\<lambda>k. sum_list (map (\<lambda>j.
        (if 0 \<le> j \<and> j \<le> 65535 \<and> (0 \<le> k \<and> k \<le> 0) then 65536 else 0))
        [- 1..65537])) [- 1..2])"
    by (simp add: sum_range cong: if_cong)
  also have "\<dots> = sum_list (map (\<lambda>k.
        (if 0 \<le> k \<and> k \<le> 0 \<and> True then 4294967296 else 0)) [- 1..2])"
    by (simp add: sum_range cong: if_cong)
  also have "\<dots> = 4294967296"
    by (simp only: sum_range) simp
  finally show ?thesis .
qed

lemma loop_sites_COUNT_atoms:
  "loop_sites COUNT e fl ss st = Inr c \<Longrightarrow> atoms c = atoms st \<and> nquat c = nquat st"
proof (induction ss arbitrary: st)
  case Nil
  then show ?case by simp
next
  case (Cons s ss)
  from Cons.prems obtain st1 where b: "loop_body COUNT e fl s st = Inr st1"
    and r: "loop_sites COUNT e fl ss st1 = Inr c"
    by (auto split: sum.splits)
  from b have "atoms st1 = atoms st \<and> nquat st1 = nquat st"
    by (auto simp: loop_body_passes perform_COUNT split: if_splits)
  with Cons.IH [OF r] show ?case by simp
qed

lemma ex_big_bounds_ok: "\<not> counter_overflows ex_big_bounds"
  by (simp add: counter_overflows_def ex_big_bounds_def INT_MAX_def)

lemma ex_big_lattice_bounds:
  "lattice_bounds (bbox_min ex_big_env) (bbox_max ex_big_env) = Inr ex_big_bounds"
  by code_simp

lemma ex_big_count:
  "count_pass (ex_big_env, ex_latt_state) = Inr (ex_big_bounds, ex_latt_state\<lparr>nlatt_overflow := 1\<rparr>)"
proof -
  let ?st = "ex_latt_state\<lparr>nlatt_overflow := 0\<rparr>"
  from loop_lattice_COUNT_iff(1) [of ex_big_env ex_big_bounds "[]" ?st] ex_big_bounds_ok
  obtain c where c: "loop_lattice COUNT ex_big_env ex_big_bounds [] ?st = Inr c" by blast
  note s = loop_lattice_Inr_sites [OF c]
  from loop_sites_COUNT_atoms [OF s] have a: "atoms c = []" "nquat c = 0"
    by (simp_all add: ex_latt_state_def)
  from loop_sites_nlatt [OF s] have n: "nlatt c = 0"
    by (simp add: ex_big_passing)
  from loop_lattice_COUNT_overflow [OF c] have f: "nlatt_overflow c = 1"
    by (simp add: ex_big_passing)
  from a n f have "c = ex_latt_state\<lparr>nlatt_overflow := 1\<rparr>"
    by (cases c) (simp add: ex_latt_state_def)
  with c show ?thesis
    by (simp add: count_pass_def ex_big_lattice_bounds)
qed

lemma ex_far_count:
  "count_pass (ex_far_env, ex_latt_state) = Inr (ex_far_bounds, ex_latt_state\<lparr>nlatt := 1\<rparr>)"
  by code_simp

lemma ex_big_count_pass: "collect (map count_pass ex_big_ranks) = Inr ex_big_counted"
  by (simp add: ex_big_ranks_def ex_big_counted_def ex_big_count ex_far_count)



text \<open>
  Claim C5. The \<^verbatim>\<open>COUNT\<close> pass runs to its end exactly when no loop counter is
  incremented past the largest \<^verbatim>\<open>int\<close>; the site counter going past it does not end
  the pass. A pass that ends leaves in \<^verbatim>\<open>nlatt\<close> the number of passing sites (modulo
  \<open>2^32\<close>) and the flag \<^verbatim>\<open>nlatt_overflow\<close> at 1 exactly when more than \<^verbatim>\<open>MAXSMALLINT\<close>
  sites pass on the rank. With fewer than \<open>2^32\<close> ranks whose passes all end,
  \<^verbatim>\<open>add_lattice\<close> ends with the fatal error "lattice size overflow" if and only if the
  sum of the ranks' flags (\<^verbatim>\<open>MPI_SUM\<close>) is not 0, which is if and only if the flag of at
  least one rank is set.
\<close>

theorem lattice_overflow_flag_and_error:
  assumes "length rs < 2 ^ 32" and "collect (map count_pass rs) = Inr counted"
  shows "(\<exists>c. loop_lattice COUNT e b fl st = Inr c) = (\<not> counter_overflows b)
       \<and> (\<forall>c. loop_lattice COUNT e b fl st = Inr c \<longrightarrow>
            nlatt c = of_nat (passing e (lattice_sites b (nbasis e))) \<and>
            nlatt_overflow c =
              (if 2147483647 < passing e (lattice_sites b (nbasis e)) then 1
               else nlatt_overflow st))
       \<and> (add_lattice se rs = Inl LatticeOverflow) =
           (allreduce_sum_int (map (\<lambda>r. nlatt_overflow (snd r)) counted) \<noteq> 0)
       \<and> (add_lattice se rs = Inl LatticeOverflow) =
           (\<exists>r\<in>set counted. nlatt_overflow (snd r) = 1)
       \<and> (\<forall>me<length rs.
            nlatt_overflow (snd (counted ! me)) =
              (if 2147483647 < passing (fst (rs ! me))
                    (lattice_sites (fst (counted ! me)) (nbasis (fst (rs ! me))))
               then 1 else 0))"
proof -
  have 0: "(\<exists>c. loop_lattice COUNT e b fl st = Inr c) = (\<not> counter_overflows b)"
    by (rule loop_lattice_COUNT_iff(1))
  have 1: "\<forall>c. loop_lattice COUNT e b fl st = Inr c \<longrightarrow>
            nlatt c = of_nat (passing e (lattice_sites b (nbasis e))) \<and>
            nlatt_overflow c =
              (if 2147483647 < passing e (lattice_sites b (nbasis e)) then 1
               else nlatt_overflow st)"
  proof (intro allI impI)
    fix c assume c: "loop_lattice COUNT e b fl st = Inr c"
    from loop_sites_nlatt [OF loop_lattice_Inr_sites [OF c]] loop_lattice_COUNT_overflow [OF c]
    show "nlatt c = of_nat (passing e (lattice_sites b (nbasis e))) \<and>
            nlatt_overflow c =
              (if 2147483647 < passing e (lattice_sites b (nbasis e)) then 1
               else nlatt_overflow st)" by simp
  qed
  let ?flags = "map (\<lambda>r. nlatt_overflow (snd r)) counted"
  have len: "length ?flags < 2 ^ 32"
    using assms(1) collect_Inr [OF assms(2)] by simp
  have z: "(allreduce_sum_int ?flags = 0) = (\<forall>x\<in>set ?flags. x = 0)"
    by (rule allreduce_flags_zero [OF counted_flags [OF assms(2)] len])
  have nz: "(allreduce_sum_int ?flags \<noteq> 0) = (\<exists>r\<in>set counted. nlatt_overflow (snd r) = 1)"
  proof -
    have "(nlatt_overflow (snd r) \<noteq> 0) = (nlatt_overflow (snd r) = 1)" if "r \<in> set counted" for r
      using counted_flags [OF assms(2)] that by auto
    then have "(\<exists>r\<in>set counted. nlatt_overflow (snd r) \<noteq> 0) =
        (\<exists>r\<in>set counted. nlatt_overflow (snd r) = 1)" by blast
    then show ?thesis unfolding z by simp
  qed
  have 2: "(add_lattice se rs = Inl LatticeOverflow) = (\<exists>r\<in>set counted. nlatt_overflow (snd r) = 1)"
  proof (cases "allreduce_sum_int ?flags \<noteq> 0")
    case True
    then show ?thesis using nz by (simp add: add_lattice_counted [OF assms(2)])
  next
    case False
    have "add_lattice se rs \<noteq> Inl LatticeOverflow"
    proof
      assume a: "add_lattice se rs = Inl LatticeOverflow"
      show False
      proof (cases "(if subsetflag se = NONE then Inr 0
               else subset_target se
                      (allreduce_sum_bigint (map (\<lambda>r. sint (nlatt (snd r))) counted)))")
        case (Inl err)
        with a False have "err = LatticeOverflow"
          by (simp add: add_lattice_counted [OF assms(2)])
        with Inl show False
          by (auto dest: subset_target_error split: if_splits)
      next
        case (Inr k)
        with a False have "collect (map (\<lambda>me. insert_pass se k me (fst (rs ! me)) (counted ! me))
                        [0..<length rs]) = Inl LatticeOverflow"
          by (simp add: add_lattice_counted [OF assms(2)])
        from collect_Inl [OF this] show False
          by (auto dest: insert_pass_error)
      qed
    qed
    with False nz show ?thesis by simp
  qed
  have 3: "\<forall>me<length rs.
            nlatt_overflow (snd (counted ! me)) =
              (if 2147483647 < passing (fst (rs ! me))
                    (lattice_sites (fst (counted ! me)) (nbasis (fst (rs ! me))))
               then 1 else 0)"
    using count_pass_Inr(3) [OF counted_nth(1) [OF assms(2)]] by blast
  from 2 nz have s: "(add_lattice se rs = Inl LatticeOverflow) =
           (allreduce_sum_int (map (\<lambda>r. nlatt_overflow (snd r)) counted) \<noteq> 0)" by simp
  from 0 1 s 2 3 show ?thesis by blast
qed

theorem lattice_overflow_flag_and_error_witness:
  "length ex_big_ranks < 2 ^ 32 \<and> collect (map count_pass ex_big_ranks) = Inr ex_big_counted
   \<and> \<not> counter_overflows ex_big_bounds
   \<and> passing ex_big_env (lattice_sites ex_big_bounds (nbasis ex_big_env)) = 4294967296
   \<and> loop_lattice COUNT ex_big_env ex_big_bounds [] ex_latt_state =
       Inr (ex_latt_state\<lparr>nlatt_overflow := 1\<rparr>)
   \<and> nlatt_overflow (snd (ex_big_counted ! 0)) = 1 \<and> nlatt_overflow (snd (ex_big_counted ! 1)) = 0
   \<and> add_lattice ex_subset ex_big_ranks = Inl LatticeOverflow"
proof -
  have l: "length ex_big_ranks < 2 ^ 32" by (simp add: ex_big_ranks_def)
  have f: "nlatt_overflow (snd (ex_big_counted ! 0)) = 1 \<and> nlatt_overflow (snd (ex_big_counted ! 1)) = 0"
    by (simp add: ex_big_counted_def ex_latt_state_def)
  note t = lattice_overflow_flag_and_error [OF l ex_big_count_pass, of ex_big_env ex_big_bounds "[]"
      ex_latt_state ex_subset]
  from t ex_big_bounds_ok obtain c where c: "loop_lattice COUNT ex_big_env ex_big_bounds [] ex_latt_state = Inr c"
    by blast
  with t have "nlatt c = 0" "nlatt_overflow c = 1"
    by (simp_all add: ex_big_passing)
  moreover from loop_sites_COUNT_atoms [OF loop_lattice_Inr_sites [OF c]]
  have "atoms c = []" "nquat c = 0" by (simp_all add: ex_latt_state_def)
  ultimately have "c = ex_latt_state\<lparr>nlatt_overflow := 1\<rparr>"
    by (cases c) (simp add: ex_latt_state_def)
  with c have r: "loop_lattice COUNT ex_big_env ex_big_bounds [] ex_latt_state =
       Inr (ex_latt_state\<lparr>nlatt_overflow := 1\<rparr>)" by simp
  from t have "(add_lattice ex_subset ex_big_ranks = Inl LatticeOverflow) =
           (\<exists>r\<in>set ex_big_counted. nlatt_overflow (snd r) = 1)" by blast
  then have "add_lattice ex_subset ex_big_ranks = Inl LatticeOverflow"
    by (simp add: ex_big_counted_def ex_latt_state_def)
  with l f r ex_big_count_pass ex_big_bounds_ok ex_big_passing show ?thesis by simp
qed

text \<open>
  Claim C7. In \<^verbatim>\<open>add_lattice\<close> with a subset, the array \<^verbatim>\<open>flag\<close> is allocated with
  \<^verbatim>\<open>nlatt\<close> entries, the count of the \<^verbatim>\<open>COUNT\<close> pass. When no overflow was reported
  (the reduced flag is 0, so \<^verbatim>\<open>add_lattice\<close> goes on), the \<^verbatim>\<open>INSERT_SELECTED\<close> pass of
  every rank reaches every passing site (the site number \<open>k\<close> of the visiting order)
  with \<open>0 \<le> nlatt < \<close> the size of \<^verbatim>\<open>flag\<close>, so the read \<^verbatim>\<open>flag[nlatt]\<close> is inside the
  array; the pass runs to its end, and \<^verbatim>\<open>add_lattice\<close> never reads outside the array.
\<close>

theorem flag_index_in_bounds:
  assumes "length rs < 2 ^ 32" and "collect (map count_pass rs) = Inr counted"
    and "allreduce_sum_int (map (\<lambda>r. nlatt_overflow (snd r)) counted) = 0"
    and "me < length rs"
    and "k < length (lattice_sites (fst (counted ! me)) (nbasis (fst (rs ! me))))"
    and "site_passes (fst (rs ! me))
           (lattice_sites (fst (counted ! me)) (nbasis (fst (rs ! me))) ! k)"
  shows "(\<exists>st. loop_sites INSERT_SELECTED (fst (rs ! me)) (subset_flags se n me (snd (counted ! me)))
                 (take k (lattice_sites (fst (counted ! me)) (nbasis (fst (rs ! me)))))
                 ((snd (counted ! me))\<lparr>nlatt := 0\<rparr>) = Inr st
              \<and> 0 \<le> sint (nlatt st)
              \<and> nat (sint (nlatt st)) < length (subset_flags se n me (snd (counted ! me))))
       \<and> (\<exists>st. loop_lattice INSERT_SELECTED (fst (rs ! me)) (fst (counted ! me))
                 (subset_flags se n me (snd (counted ! me))) (snd (counted ! me)) = Inr st)
       \<and> add_lattice se rs \<noteq> Inl FlagIndexOutOfRange"
proof -
  let ?e = "fst (rs ! me)"
  let ?ss = "lattice_sites (fst (counted ! me)) (nbasis ?e)"
  let ?fl = "subset_flags se n me (snd (counted ! me))"
  note no = counted_no_overflow(1) [OF assms(1-4)] counted_no_overflow(2) [OF assms(1-4), of se n]
  have lt: "passing ?e (take k ?ss) < passing ?e ?ss"
    by (rule passing_take_less [OF assms(5,6)])
  have "nlatt ((snd (counted ! me))\<lparr>nlatt := 0\<rparr>) = of_nat 0" by simp
  from loop_sites_selected_ok [OF this, of ?e "take k ?ss" ?fl] lt no
  obtain st where st: "loop_sites INSERT_SELECTED ?e ?fl (take k ?ss)
      ((snd (counted ! me))\<lparr>nlatt := 0\<rparr>) = Inr st" by auto
  from loop_sites_nlatt [OF st] have "nlatt st = of_nat (passing ?e (take k ?ss))" by simp
  moreover have "passing ?e (take k ?ss) \<le> 2147483647" using lt no(1) by linarith
  ultimately have "sint (nlatt st) = int (passing ?e (take k ?ss))"
    by (simp add: sint_of_nat_small)
  with lt no(2) have "0 \<le> sint (nlatt st) \<and> nat (sint (nlatt st)) < length ?fl" by simp
  with st have 1: "\<exists>st. loop_sites INSERT_SELECTED ?e ?fl (take k ?ss)
      ((snd (counted ! me))\<lparr>nlatt := 0\<rparr>) = Inr st
              \<and> 0 \<le> sint (nlatt st) \<and> nat (sint (nlatt st)) < length ?fl" by blast
  have 2: "\<exists>st. loop_lattice INSERT_SELECTED ?e (fst (counted ! me)) ?fl (snd (counted ! me)) = Inr st"
    by (rule insert_selected_total [OF assms(1-4)])
  have 3: "add_lattice se rs \<noteq> Inl FlagIndexOutOfRange"
  proof
    assume a: "add_lattice se rs = Inl FlagIndexOutOfRange"
    show False
    proof (cases "(if subsetflag se = NONE then Inr 0
               else subset_target se
                      (allreduce_sum_bigint (map (\<lambda>r. sint (nlatt (snd r))) counted)))")
      case (Inl err)
      with a assms(3) have "err = FlagIndexOutOfRange"
        by (simp add: add_lattice_counted [OF assms(2)])
      with Inl show False
        by (auto dest: subset_target_error split: if_splits)
    next
      case (Inr m)
      with a assms(3) have "collect (map (\<lambda>me. insert_pass se m me (fst (rs ! me)) (counted ! me))
                        [0..<length rs]) = Inl FlagIndexOutOfRange"
        by (simp add: add_lattice_counted [OF assms(2)])
      from collect_Inl [OF this] obtain i where i: "i < length rs"
        "insert_pass se m i (fst (rs ! i)) (counted ! i) = Inl FlagIndexOutOfRange"
        by auto
      show False
      proof (cases "subsetflag se = NONE")
        case True
        with i(2) show False
          by (auto simp: insert_pass_def dest: loop_lattice_error)
      next
        case False
        with i(2) insert_selected_total [OF assms(1-3) i(1), of se m] show False
          by (simp add: insert_pass_def)
      qed
    qed
  qed
  from 1 2 3 show ?thesis by blast
qed

theorem flag_index_in_bounds_witness:
  "length ex_ranks < 2 ^ 32 \<and> collect (map count_pass ex_ranks) = Inr ex_counted
   \<and> allreduce_sum_int (map (\<lambda>r. nlatt_overflow (snd r)) ex_counted) = 0
   \<and> (1 :: nat) < length ex_ranks
   \<and> 21 < length (lattice_sites (fst (ex_counted ! 1)) (nbasis (fst (ex_ranks ! 1))))
   \<and> site_passes (fst (ex_ranks ! 1))
        (lattice_sites (fst (ex_counted ! 1)) (nbasis (fst (ex_ranks ! 1))) ! 21)
   \<and> length (subset_flags ex_subset 1 1 (snd (ex_counted ! 1))) = 1
   \<and> (\<exists>st. loop_sites INSERT_SELECTED (fst (ex_ranks ! 1))
              (subset_flags ex_subset 1 1 (snd (ex_counted ! 1)))
              (take 21 (lattice_sites (fst (ex_counted ! 1)) (nbasis (fst (ex_ranks ! 1)))))
              ((snd (ex_counted ! 1))\<lparr>nlatt := 0\<rparr>) = Inr st
           \<and> 0 \<le> sint (nlatt st) \<and> nat (sint (nlatt st)) < 1)
   \<and> add_lattice ex_subset ex_ranks \<noteq> Inl FlagIndexOutOfRange"
proof -
  have l: "length ex_ranks < 2 ^ 32" and m: "(1 :: nat) < length ex_ranks"
    by (simp_all add: ex_ranks_def)
  have s: "length (subset_flags ex_subset 1 1 (snd (ex_counted ! 1))) = 1"
    by (simp add: subset_flags_def ex_counted_def ex_latt_state_def)
  from flag_index_in_bounds [OF l ex_count_pass ex_sum m ex_len ex_site_21, of ex_subset 1]
    l m s ex_count_pass ex_sum ex_len ex_site_21
  show ?thesis by simp
qed

subsection \<open>Molecule IDs after creation\<close>

text \<open>
  Claim C3 at two ranks that each created one molecule of a template with two molecule
  IDs (\<^verbatim>\<open>onemol->moleculeflag\<close> set, \<^verbatim>\<open>onemol->nmolecules == 2\<close>), no atoms before:
  \<^verbatim>\<open>MPI_Scan\<close> adds up \<^verbatim>\<open>molcreate\<close>, one per molecule, so the offsets of the ranks are
  0 and 1, while each molecule uses two IDs. Rank 0 assigns the IDs 1 and 2, rank 1 the
  IDs 2 and 3: the second atom of rank 0 and the first atom of rank 1 get the same
  molecule ID. (The bond of each first atom is rebased to the tag of the molecule's
  second atom, 2 and 4.)
\<close>

theorem molecule_ids_collide_across_ranks:
  "stitch ex_molecule True MOLECULAR [ex_mol_proc 1, ex_mol_proc 3] =
     Inr [\<lparr>nlocal_previous = 0, nlocal = 2, molecule = [1, 2], tag = Some [1, 2],
            topology = [ex_topology [2], ex_topology []]\<rparr>,
          \<lparr>nlocal_previous = 0, nlocal = 2, molecule = [2, 3], tag = Some [3, 4],
            topology = [ex_topology [4], ex_topology []]\<rparr>]
   \<and> moloffset_of ex_molecule True [ex_mol_proc 1, ex_mol_proc 3] 0 = 0
   \<and> moloffset_of ex_molecule True [ex_mol_proc 1, ex_mol_proc 3] 1 = 1"
  by code_simp

subsection \<open>Random placement: overlap avoidance\<close>

lemma local_reject_zero:
  "(local_reject e xone as = 0) = (\<forall>a\<in>set as. rn_odistsq e \<le> distsq e xone (snd a))"
  by (induction as) auto

lemma local_reject_range: "local_reject e xone as = 0 \<or> local_reject e xone as = 1"
  by (induction as) auto

lemma fold_max_ge: "(x :: int) \<le> fold max ys x"
  by (induction ys arbitrary: x) (auto intro: order_trans [OF max.cobounded2])

lemma fold_max_mem_ge: "(y :: int) \<in> set ys \<Longrightarrow> y \<le> fold max ys x"
proof (induction ys arbitrary: x)
  case Nil
  then show ?case by simp
next
  case (Cons z zs)
  show ?case
  proof (cases "y = z")
    case True
    have "z \<le> max z x" by simp
    also have "\<dots> \<le> fold max zs (max z x)" by (rule fold_max_ge)
    finally show ?thesis using True by simp
  next
    case False
    with Cons.prems have "y \<in> set zs" by simp
    from Cons.IH [OF this] show ?thesis by simp
  qed
qed

lemma fold_max_in: "fold max ys (x :: int) \<in> insert x (set ys)"
  by (induction ys arbitrary: x) (auto simp: max_def)

lemma allreduce_max_ge: "x \<in> set xs \<Longrightarrow> x \<le> allreduce_max xs"
  by (cases xs) (auto simp: allreduce_max_def fold_max_ge fold_max_mem_ge)

lemma allreduce_max_in: "xs \<noteq> [] \<Longrightarrow> allreduce_max xs \<in> set xs"
  using fold_max_in by (cases xs) (auto simp: allreduce_max_def)

lemma reject_any_nonzero:
  "(reject_any e xone ps \<noteq> 0) = (\<exists>p\<in>set ps. local_reject e xone (atoms p) \<noteq> 0)"
proof
  assume a: "reject_any e xone ps \<noteq> 0"
  then have "ps \<noteq> []" by (auto simp: reject_any_def allreduce_max_def)
  then have "map (\<lambda>p. local_reject e xone (atoms p)) ps \<noteq> []" by simp
  from allreduce_max_in [OF this] a
  show "\<exists>p\<in>set ps. local_reject e xone (atoms p) \<noteq> 0"
    by (auto simp: reject_any_def)
next
  assume "\<exists>p\<in>set ps. local_reject e xone (atoms p) \<noteq> 0"
  then obtain p where p: "p \<in> set ps" "local_reject e xone (atoms p) \<noteq> 0" by blast
  with local_reject_range [of e xone "atoms p"] have "local_reject e xone (atoms p) = 1" by simp
  moreover have "local_reject e xone (atoms p) \<le> reject_any e xone ps"
    unfolding reject_any_def using p(1) by (intro allreduce_max_ge) simp
  ultimately show "reject_any e xone ps \<noteq> 0" by simp
qed

lemma accepted_far:
  assumes "overlapflag e" and "\<not> rejected e ps xone"
  shows "\<forall>p\<in>set ps. \<forall>a\<in>set (atoms p). rn_odistsq e \<le> distsq e xone (snd a)"
proof -
  from assms have "\<not> reject_any e xone ps \<noteq> 0"
    by (auto simp: rejected_def split: if_splits)
  then have "\<forall>p\<in>set ps. local_reject e xone (atoms p) = 0"
    unfolding reject_any_nonzero by simp
  then show ?thesis by (simp add: local_reject_zero)
qed

lemma try_insert_accepted:
  "try_insert e bb ps ntry pos = (Some xone, pos') \<Longrightarrow> \<not> rejected e ps xone"
proof (induction e bb ps ntry pos rule: try_insert.induct)
  case (1 e bb ps ntry pos)
  show ?case
  proof (cases "ntry < maxtry e")
    case False
    with "1.prems" show ?thesis by (simp add: try_insert.simps [of e bb ps ntry pos])
  next
    case True
    show ?thesis
    proof (cases "rejected e ps (draw e bb pos)")
      case r: True
      with True "1.prems" have "try_insert e bb ps (ntry + 1) (pos + 3) = (Some xone, pos')"
        by (simp add: try_insert.simps [of e bb ps ntry pos])
      from "1.IH" [OF True r this] show ?thesis .
    next
      case False
      with True "1.prems" have "xone = draw e bb pos"
        by (simp add: try_insert.simps [of e bb ps ntry pos])
      with False show ?thesis by simp
    qed
  qed
qed

lemma create_owned_atom:
  assumes "pl_mode (rn_placing e) = ATOM"
  shows "atoms (create_owned e xone p) =
           (if in_subbox (p_sublo p) (p_subhi p) (rn_coord e xone)
            then atoms p @ [(ntype (rn_placing e), xone)] else atoms p)"
  using assms by (simp add: create_owned_def place_def create_atom_def)

lemma create_owned_box:
  "p_sublo (create_owned e xone p) = p_sublo p \<and> p_subhi (create_owned e xone p) = p_subhi p"
  by (simp add: create_owned_def place_def create_atom_def add_molecule_def)

lemma random_inv_step:
  assumes inv: "random_inv e ps0 ps" and dis: "boxes_disjoint ps0"
    and atom: "pl_mode (rn_placing e) = ATOM"
    and far: "\<forall>p\<in>set ps. \<forall>a\<in>set (atoms p). rn_odistsq e \<le> distsq e xone (snd a)"
  shows "random_inv e ps0 (map (create_owned e xone) ps)"
proof -
  let ?ps' = "map (create_owned e xone) ps"
  let ?own = "\<lambda>r. in_subbox (p_sublo (ps ! r)) (p_subhi (ps ! r)) (rn_coord e xone)"
  let ?new = "(ntype (rn_placing e), xone)"
  from inv have len: "length ps = length ps0"
    and box: "\<And>r. r < length ps \<Longrightarrow> p_sublo (ps ! r) = p_sublo (ps0 ! r) \<and> p_subhi (ps ! r) = p_subhi (ps0 ! r)"
    and grow: "\<And>r. r < length ps \<Longrightarrow> length (atoms (ps0 ! r)) \<le> length (atoms (ps ! r))"
    and apart: "created_apart e ps0 ps"
    by (simp_all add: random_inv_def)
  have at: "atoms (?ps' ! r) = (if ?own r then atoms (ps ! r) @ [?new] else atoms (ps ! r))"
    if "r < length ps" for r
    using that by (simp add: create_owned_atom [OF atom])
  have uniq: "r1 = r2" if "r1 < length ps" "r2 < length ps" "?own r1" "?own r2" for r1 r2
  proof (rule ccontr)
    assume "r1 \<noteq> r2"
    with dis that len box [of r1] box [of r2] show False
      unfolding boxes_disjoint_def by metis
  qed
  have old: "atoms (?ps' ! r) ! i = atoms (ps ! r) ! i" if "r < length ps" "i < length (atoms (ps ! r))" for r i
    using that at [OF that(1)] by (simp add: nth_append)
  have new: "?own r \<and> i = length (atoms (ps ! r)) \<and> atoms (?ps' ! r) ! i = ?new"
    if "r < length ps" "i < length (atoms (?ps' ! r))" "\<not> i < length (atoms (ps ! r))" for r i
  proof -
    from that(2,3) at [OF that(1)] have o: "?own r" by (auto split: if_splits)
    with that(2,3) at [OF that(1)] have "i = length (atoms (ps ! r))" by simp
    with o at [OF that(1)] show ?thesis by simp
  qed
  have mem: "atoms (ps ! r) ! i \<in> set (atoms (ps ! r)) \<and> ps ! r \<in> set ps"
    if "r < length ps" "i < length (atoms (ps ! r))" for r i
    using that by simp
  have ap: "created_apart e ps0 ?ps'"
    unfolding created_apart_def
  proof (intro allI impI, elim conjE)
    fix r1 r2 i j
    assume r1: "r1 < length ?ps'" and r2: "r2 < length ?ps'"
      and i: "i < length (atoms (?ps' ! r1))" and j: "j < length (atoms (?ps' ! r2))"
      and i0: "length (atoms (ps0 ! r1)) \<le> i" and j0: "length (atoms (ps0 ! r2)) \<le> j"
      and ne: "(r1, i) \<noteq> (r2, j)"
    from r1 r2 have r1': "r1 < length ps" and r2': "r2 < length ps" by simp_all
    let ?goal = "rn_odistsq e \<le> distsq e (snd (atoms (?ps' ! r1) ! i)) (snd (atoms (?ps' ! r2) ! j)) \<or>
            rn_odistsq e \<le> distsq e (snd (atoms (?ps' ! r2) ! j)) (snd (atoms (?ps' ! r1) ! i))"
    show ?goal
    proof (cases "i < length (atoms (ps ! r1))")
      case iold: True
      show ?thesis
      proof (cases "j < length (atoms (ps ! r2))")
        case jold: True
        from apart r1' r2' iold jold i0 j0 ne
        have "rn_odistsq e \<le> distsq e (snd (atoms (ps ! r1) ! i)) (snd (atoms (ps ! r2) ! j)) \<or>
            rn_odistsq e \<le> distsq e (snd (atoms (ps ! r2) ! j)) (snd (atoms (ps ! r1) ! i))"
          unfolding created_apart_def by blast
        then show ?thesis by (simp only: old [OF r1' iold] old [OF r2' jold])
      next
        case False
        from new [OF r2' j False] have n: "atoms (?ps' ! r2) ! j = ?new" by blast
        from far mem [OF r1' iold]
        have "rn_odistsq e \<le> distsq e xone (snd (atoms (ps ! r1) ! i))" by blast
        then show ?thesis by (simp add: old [OF r1' iold] n)
      qed
    next
      case inew: False
      from new [OF r1' i inew] have o1: "?own r1" and i1: "i = length (atoms (ps ! r1))"
        and n: "atoms (?ps' ! r1) ! i = ?new" by blast+
      show ?thesis
      proof (cases "j < length (atoms (ps ! r2))")
        case jold: True
        from far mem [OF r2' jold]
        have "rn_odistsq e \<le> distsq e xone (snd (atoms (ps ! r2) ! j))" by blast
        then show ?thesis by (simp add: old [OF r2' jold] n)
      next
        case False
        from new [OF r2' j False] have o2: "?own r2" and j1: "j = length (atoms (ps ! r2))"
          by blast+
        from uniq [OF r1' r2' o1 o2] i1 j1 ne show ?thesis by simp
      qed
    qed
  qed
  have b': "p_sublo (?ps' ! r) = p_sublo (ps0 ! r) \<and> p_subhi (?ps' ! r) = p_subhi (ps0 ! r) \<and>
        length (atoms (ps0 ! r)) \<le> length (atoms (?ps' ! r))" if "r < length ?ps'" for r
  proof -
    from that have r: "r < length ps" by simp
    from box [OF r] grow [OF r] at [OF r] r show ?thesis
      by (simp add: create_owned_box)
  qed
  from len ap b' show ?thesis
    unfolding random_inv_def by simp
qed

lemma random_inv_init: "random_inv e ps ps"
  by (auto simp: random_inv_def created_apart_def)

lemma insert_one_inv:
  assumes "random_inv e ps0 (procs s)" and "boxes_disjoint ps0"
    and "pl_mode (rn_placing e) = ATOM" and "overlapflag e"
  shows "random_inv e ps0 (procs (insert_one e bb s))"
proof (cases "try_insert e bb (procs s) 0 (rng_pos s)")
  case (Pair r pos)
  show ?thesis
  proof (cases r)
    case None
    with Pair assms(1) show ?thesis by (simp add: insert_one_def)
  next
    case (Some xone)
    with Pair have t: "try_insert e bb (procs s) 0 (rng_pos s) = (Some xone, pos)" by simp
    from accepted_far [OF assms(4) try_insert_accepted [OF t]]
    have "random_inv e ps0 (map (create_owned e xone) (procs s))"
      by (rule random_inv_step [OF assms(1,2,3)])
    with t show ?thesis by (simp add: insert_one_def)
  qed
qed

lemma insert_loop_inv:
  assumes "boxes_disjoint ps0" and "pl_mode (rn_placing e) = ATOM" and "overlapflag e"
  shows "random_inv e ps0 (procs s) \<Longrightarrow> random_inv e ps0 (procs (insert_loop e bb k s))"
proof (induction k arbitrary: s)
  case 0
  then show ?case by simp
next
  case (Suc k)
  from insert_one_inv [OF Suc.prems assms] have "random_inv e ps0 (procs (insert_one e bb s))" .
  from Suc.IH [OF this] show ?case by simp
qed

lemma add_random_procs:
  assumes "add_random e ps = Inr (ps', n, ws)"
  shows "\<exists>bb. random_bbox e = Inr bb \<and>
     ps' = procs (insert_loop e bb (nat (nrandom e)) \<lparr>procs = ps, rng_pos = 30, ninsert = 0\<rparr>)"
  using assms by (auto simp: add_random_def Let_def split: sum.splits)

lemma odistsq_sqrt: "rn_odistsq e \<le> d \<Longrightarrow>
    odist (pl_mode (rn_placing e)) (overlap e) (molradius (onemol (rn_placing e))) \<le> sqrt d"
  by (rule real_le_rsqrt) (simp add: rn_odistsq_def odistsq_def power2_eq_square)

lemma length_placed: "length (placed pl n x) = atoms_per_entity pl"
  by (simp add: placed_def atoms_per_entity_def molecule_atoms_def)

lemma atoms_create_owned:
  "atoms (create_owned e xone p) =
     (if in_subbox (p_sublo p) (p_subhi p) (rn_coord e xone)
      then atoms p @ placed (rn_placing e) (nquat p) xone else atoms p)"
  by (simp add: create_owned_def place_def create_atom_def add_molecule_def placed_def)

lemma entities_inv_step:
  assumes inv: "entities_inv e ps0 ps" and dis: "boxes_disjoint ps0"
    and far: "\<forall>n. \<forall>p\<in>set ps. \<forall>a\<in>set (atoms p). \<forall>z\<in>set (placed (rn_placing e) n xone).
                overlap e * overlap e \<le> distsq e (snd z) (snd a)"
  shows "entities_inv e ps0 (map (create_owned e xone) ps)"
proof -
  let ?ps' = "map (create_owned e xone) ps"
  let ?own = "\<lambda>r. in_subbox (p_sublo (ps ! r)) (p_subhi (ps ! r)) (rn_coord e xone)"
  let ?k = "atoms_per_entity (rn_placing e)"
  let ?new = "\<lambda>r. placed (rn_placing e) (nquat (ps ! r)) xone"
  from inv have len: "length ps = length ps0"
    and box: "\<And>r. r < length ps \<Longrightarrow> p_sublo (ps ! r) = p_sublo (ps0 ! r) \<and> p_subhi (ps ! r) = p_subhi (ps0 ! r)"
    and mult: "\<And>r. r < length ps \<Longrightarrow>
       \<exists>q. length (atoms (ps ! r)) = length (atoms (ps0 ! r)) + q * ?k"
    and apart: "entities_apart e ps0 ps"
    by (simp_all add: entities_inv_def)
  have at: "atoms (?ps' ! r) = (if ?own r then atoms (ps ! r) @ ?new r else atoms (ps ! r))"
    if "r < length ps" for r
    using that by (simp add: atoms_create_owned)
  have uniq: "r1 = r2" if "r1 < length ps" "r2 < length ps" "?own r1" "?own r2" for r1 r2
  proof (rule ccontr)
    assume "r1 \<noteq> r2"
    with dis that len box [of r1] box [of r2] show False
      unfolding boxes_disjoint_def by metis
  qed
  have old: "atoms (?ps' ! r) ! i = atoms (ps ! r) ! i"
    if "r < length ps" "i < length (atoms (ps ! r))" for r i
    using that at [OF that(1)] by (simp add: nth_append)
  have new: "?own r \<and> i - length (atoms (ps ! r)) < ?k \<and>
      atoms (?ps' ! r) ! i \<in> set (?new r)"
    if "r < length ps" "i < length (atoms (?ps' ! r))" "\<not> i < length (atoms (ps ! r))" for r i
  proof -
    from that(2,3) at [OF that(1)] have o: "?own r" by (auto split: if_splits)
    with that(2,3) at [OF that(1)] have lt: "i - length (atoms (ps ! r)) < ?k"
      by (simp add: length_placed)
    from o at [OF that(1)] that(3)
    have "atoms (?ps' ! r) ! i = ?new r ! (i - length (atoms (ps ! r)))"
      by (simp add: nth_append)
    with lt have "atoms (?ps' ! r) ! i \<in> set (?new r)"
      by (simp add: length_placed)
    with o lt show ?thesis by blast
  qed
  have ent: "entity_of (rn_placing e) (ps0 ! r) i = entity_of (rn_placing e) (ps0 ! r) j"
    if "r < length ps" "\<not> i < length (atoms (ps ! r))" "\<not> j < length (atoms (ps ! r))"
      "i - length (atoms (ps ! r)) < ?k" "j - length (atoms (ps ! r)) < ?k" for r i j
  proof -
    from mult [OF that(1)] obtain q where
      q: "length (atoms (ps ! r)) = length (atoms (ps0 ! r)) + q * ?k" by blast
    have d: "(q * ?k + t) div ?k = q" if "t < ?k" for t
      using that by simp
    from that(2,4) q have "i - length (atoms (ps0 ! r)) = q * ?k + (i - length (atoms (ps ! r)))"
      by simp
    moreover from that(3,5) q
    have "j - length (atoms (ps0 ! r)) = q * ?k + (j - length (atoms (ps ! r)))"
      by simp
    ultimately show ?thesis
      unfolding entity_of_def using d [OF that(4)] d [OF that(5)] by simp
  qed
  have mem: "atoms (ps ! r) ! i \<in> set (atoms (ps ! r)) \<and> ps ! r \<in> set ps"
    if "r < length ps" "i < length (atoms (ps ! r))" for r i
    using that by simp
  have ap: "entities_apart e ps0 ?ps'"
    unfolding entities_apart_def
  proof (intro allI impI, elim conjE)
    fix r1 r2 i j
    assume r1: "r1 < length ?ps'" and r2: "r2 < length ?ps'"
      and i: "i < length (atoms (?ps' ! r1))" and j: "j < length (atoms (?ps' ! r2))"
      and i0: "length (atoms (ps0 ! r1)) \<le> i" and j0: "length (atoms (ps0 ! r2)) \<le> j"
      and ne: "r1 \<noteq> r2 \<or> entity_of (rn_placing e) (ps0 ! r1) i \<noteq> entity_of (rn_placing e) (ps0 ! r2) j"
    from r1 r2 have r1': "r1 < length ps" and r2': "r2 < length ps" by simp_all
    let ?goal = "overlap e * overlap e \<le> distsq e (snd (atoms (?ps' ! r1) ! i)) (snd (atoms (?ps' ! r2) ! j)) \<or>
            overlap e * overlap e \<le> distsq e (snd (atoms (?ps' ! r2) ! j)) (snd (atoms (?ps' ! r1) ! i))"
    show ?goal
    proof (cases "i < length (atoms (ps ! r1))")
      case iold: True
      show ?thesis
      proof (cases "j < length (atoms (ps ! r2))")
        case jold: True
        from apart r1' r2' iold jold i0 j0 ne
        have "overlap e * overlap e \<le> distsq e (snd (atoms (ps ! r1) ! i)) (snd (atoms (ps ! r2) ! j)) \<or>
            overlap e * overlap e \<le> distsq e (snd (atoms (ps ! r2) ! j)) (snd (atoms (ps ! r1) ! i))"
          unfolding entities_apart_def by blast
        then show ?thesis by (simp only: old [OF r1' iold] old [OF r2' jold])
      next
        case False
        from new [OF r2' j False] have n: "atoms (?ps' ! r2) ! j \<in> set (?new r2)" by blast
        from far mem [OF r1' iold] n
        have "overlap e * overlap e \<le>
            distsq e (snd (atoms (?ps' ! r2) ! j)) (snd (atoms (ps ! r1) ! i))" by blast
        then show ?thesis by (simp only: old [OF r1' iold]) blast
      qed
    next
      case inew: False
      from new [OF r1' i inew] have o1: "?own r1" and i1: "i - length (atoms (ps ! r1)) < ?k"
        and n: "atoms (?ps' ! r1) ! i \<in> set (?new r1)" by blast+
      show ?thesis
      proof (cases "j < length (atoms (ps ! r2))")
        case jold: True
        from far mem [OF r2' jold] n
        have "overlap e * overlap e \<le>
            distsq e (snd (atoms (?ps' ! r1) ! i)) (snd (atoms (ps ! r2) ! j))" by blast
        then show ?thesis by (simp only: old [OF r2' jold]) blast
      next
        case jnew: False
        from new [OF r2' j jnew] have o2: "?own r2" and j1: "j - length (atoms (ps ! r2)) < ?k"
          by blast+
        from uniq [OF r1' r2' o1 o2] have eq: "r1 = r2" .
        from ent [OF r1' inew] jnew i1 j1 eq
        have "entity_of (rn_placing e) (ps0 ! r1) i = entity_of (rn_placing e) (ps0 ! r2) j"
          by simp
        with ne eq show ?thesis by simp
      qed
    qed
  qed
  have b': "p_sublo (?ps' ! r) = p_sublo (ps0 ! r) \<and> p_subhi (?ps' ! r) = p_subhi (ps0 ! r) \<and>
        (\<exists>q. length (atoms (?ps' ! r)) = length (atoms (ps0 ! r)) + q * ?k)" if "r < length ?ps'" for r
  proof -
    from that have r: "r < length ps" by simp
    from mult [OF r] obtain q where
      q: "length (atoms (ps ! r)) = length (atoms (ps0 ! r)) + q * ?k" by blast
    have "\<exists>q'. length (atoms (?ps' ! r)) = length (atoms (ps0 ! r)) + q' * ?k"
    proof (cases "?own r")
      case True
      with at [OF r] q have "length (atoms (?ps' ! r)) = length (atoms (ps0 ! r)) + Suc q * ?k"
        by (simp add: length_placed)
      then show ?thesis by blast
    next
      case False
      with at [OF r] q show ?thesis by auto
    qed
    with box [OF r] r show ?thesis by (simp add: create_owned_box)
  qed
  from len ap b' show ?thesis
    unfolding entities_inv_def by simp
qed

lemma entities_inv_init: "entities_inv e ps ps"
proof -
  have "\<exists>q. length (atoms (ps ! r)) = length (atoms (ps ! r)) + q * atoms_per_entity (rn_placing e)" for r
    by (rule exI [of _ 0]) simp
  then show ?thesis by (auto simp: entities_inv_def entities_apart_def)
qed

lemma insert_one_entities:
  assumes "entities_inv e ps0 (procs s)" and "boxes_disjoint ps0" and "accepted_clear e"
  shows "entities_inv e ps0 (procs (insert_one e bb s))"
proof (cases "try_insert e bb (procs s) 0 (rng_pos s)")
  case (Pair r pos)
  show ?thesis
  proof (cases r)
    case None
    with Pair assms(1) show ?thesis by (simp add: insert_one_def)
  next
    case (Some xone)
    with Pair have t: "try_insert e bb (procs s) 0 (rng_pos s) = (Some xone, pos)" by simp
    from try_insert_accepted [OF t] assms(3)
    have "\<forall>n. \<forall>p\<in>set (procs s). \<forall>a\<in>set (atoms p). \<forall>z\<in>set (placed (rn_placing e) n xone).
                overlap e * overlap e \<le> distsq e (snd z) (snd a)"
      unfolding accepted_clear_def by blast
    from entities_inv_step [OF assms(1,2) this] t show ?thesis by (simp add: insert_one_def)
  qed
qed

lemma insert_loop_entities:
  assumes "boxes_disjoint ps0" and "accepted_clear e"
  shows "entities_inv e ps0 (procs s) \<Longrightarrow> entities_inv e ps0 (procs (insert_loop e bb k s))"
proof (induction k arbitrary: s)
  case 0
  then show ?case by simp
next
  case (Suc k)
  from insert_one_entities [OF Suc.prems assms] have "entities_inv e ps0 (procs (insert_one e bb s))" .
  from Suc.IH [OF this] show ?case by simp
qed

lemma accepted_clear_atom:
  assumes "overlapflag e" and "pl_mode (rn_placing e) = ATOM"
  shows "accepted_clear e"
  unfolding accepted_clear_def
proof (intro allI impI ballI)
  fix qs x n p a z
  assume r: "\<not> rejected e qs x" and p: "p \<in> set qs" and a: "a \<in> set (atoms p)"
    and z: "z \<in> set (placed (rn_placing e) n x)"
  from z assms(2) have "snd z = x" by (simp add: placed_def)
  moreover from accepted_far [OF assms(1) r] p a have "rn_odistsq e \<le> distsq e x (snd a)" by blast
  moreover from assms(2) have "rn_odistsq e = overlap e * overlap e"
    by (simp add: rn_odistsq_def odistsq_def odist_def)
  ultimately show "overlap e * overlap e \<le> distsq e (snd z) (snd a)" by simp
qed

lemma distsq_nonneg: "0 \<le> distsq e x y"
  by (simp add: distsq_def Let_def)

lemma sub3_add3: "sub3 (add3 d x) x = d"
  by (simp add: sub3_def add3_def vec_simps)

lemma accepted_clear_molecule:
  assumes "overlapflag e" and "pl_mode (rn_placing e) = MOLECULE" and "0 \<le> overlap e"
    and "image_triangle e" and "within_radius (rn_placing e)"
  shows "accepted_clear e"
  unfolding accepted_clear_def
proof (intro allI impI ballI)
  fix qs x n p a z
  assume r: "\<not> rejected e qs x" and p: "p \<in> set qs" and a: "a \<in> set (atoms p)"
    and z: "z \<in> set (placed (rn_placing e) n x)"
  let ?mr = "molradius (onemol (rn_placing e))"
  from z assms(2) obtain m where m: "m < natoms (onemol (rn_placing e))"
    and zz: "snd z = add3 (matvec (rotmat (rn_placing e) n) (dx (onemol (rn_placing e)) ! m)) x"
    by (auto simp: placed_def molecule_atoms_def)
  from assms(5) m have rad: "norm3 (sub3 (snd z) x) \<le> ?mr"
    by (simp add: zz sub3_add3 within_radius_def)
  from accepted_far [OF assms(1) r] p a have "rn_odistsq e \<le> distsq e x (snd a)" by blast
  from odistsq_sqrt [OF this] assms(2) have "overlap e + ?mr \<le> sqrt (distsq e x (snd a))"
    by (simp add: odist_def)
  also from assms(4) have "\<dots> \<le> sqrt (distsq e (snd z) (snd a)) + norm3 (sub3 (snd z) x)"
    unfolding image_triangle_def by blast
  finally have "overlap e \<le> sqrt (distsq e (snd z) (snd a))" using rad by linarith
  with assms(3) have "(overlap e)\<^sup>2 \<le> (sqrt (distsq e (snd z) (snd a)))\<^sup>2"
    by (intro power_mono) simp_all
  then show "overlap e * overlap e \<le> distsq e (snd z) (snd a)"
    by (simp add: power2_eq_square distsq_nonneg)
qed

subsection \<open>Random placement: the shortfall warning\<close>
















subsection \<open>Random placement: the separation of created atoms\<close>

lemma sqrt3_triangle:
  "sqrt ((a1 + b1)\<^sup>2 + (a2 + b2)\<^sup>2 + (a3 + b3)\<^sup>2) \<le>
     sqrt (a1\<^sup>2 + a2\<^sup>2 + a3\<^sup>2) + sqrt (b1\<^sup>2 + b2\<^sup>2 + b3\<^sup>2)"
proof -
  let ?A = "sqrt (a1\<^sup>2 + a2\<^sup>2)" and ?B = "sqrt (b1\<^sup>2 + b2\<^sup>2)"
  let ?S = "sqrt ((a1 + b1)\<^sup>2 + (a2 + b2)\<^sup>2)"
  have "?S \<le> ?A + ?B" by (rule real_sqrt_sum_squares_triangle_ineq)
  then have "?S\<^sup>2 \<le> (?A + ?B)\<^sup>2" by (intro power_mono) simp_all
  then have "sqrt (?S\<^sup>2 + (a3 + b3)\<^sup>2) \<le> sqrt ((?A + ?B)\<^sup>2 + (a3 + b3)\<^sup>2)" by simp
  also have "\<dots> \<le> sqrt (?A\<^sup>2 + a3\<^sup>2) + sqrt (?B\<^sup>2 + b3\<^sup>2)"
    by (rule real_sqrt_sum_squares_triangle_ineq)
  finally show ?thesis by simp
qed

lemma ex_image_lipschitz:
  assumes "0 < period"
  shows "\<bar>ex_image period (d + h)\<bar> \<le> \<bar>ex_image period d\<bar> + \<bar>h\<bar>"
  using assms by (auto simp: ex_image_def abs_if split: if_splits)

lemma sqrt3_mono:
  assumes "\<bar>u1\<bar> \<le> w1" and "\<bar>u2\<bar> \<le> w2" and "\<bar>u3\<bar> \<le> w3"
  shows "sqrt (u1\<^sup>2 + u2\<^sup>2 + u3\<^sup>2) \<le> sqrt (w1\<^sup>2 + w2\<^sup>2 + w3\<^sup>2)"
proof -
  have "u\<^sup>2 \<le> w\<^sup>2" if "\<bar>u\<bar> \<le> w" for u w :: real
  proof -
    from that have "\<bar>u\<bar>\<^sup>2 \<le> w\<^sup>2" by (intro power_mono) simp_all
    then show ?thesis by simp
  qed
  from this [OF assms(1)] this [OF assms(2)] this [OF assms(3)] show ?thesis by simp
qed

lemma ex_long_triangle: "image_triangle (ex_long_env ov nr tries)"
  unfolding image_triangle_def
proof (intro allI)
  fix x z y :: vec3
  obtain x1 x2 x3 where x: "x = (x1, x2, x3)" by (cases x) auto
  obtain y1 y2 y3 where y: "y = (y1, y2, y3)" by (cases y) auto
  obtain z1 z2 z3 where z: "z = (z1, z2, z3)" by (cases z) auto
  let ?u1 = "ex_image 8 (x1 - y1)" and ?u2 = "ex_image 1 (x2 - y2)" and ?u3 = "ex_image 1 (x3 - y3)"
  let ?v1 = "ex_image 8 (z1 - y1)" and ?v2 = "ex_image 1 (z2 - y2)" and ?v3 = "ex_image 1 (z3 - y3)"
  have l: "\<bar>ex_image period (a - c)\<bar> \<le> \<bar>ex_image period (b - c)\<bar> + \<bar>b - a\<bar>"
    if "0 < period" for period a b c :: real
    using ex_image_lipschitz [OF that, of "b - c" "a - b"] by simp
  have "sqrt (?u1\<^sup>2 + ?u2\<^sup>2 + ?u3\<^sup>2) \<le>
      sqrt ((\<bar>?v1\<bar> + \<bar>z1 - x1\<bar>)\<^sup>2 + (\<bar>?v2\<bar> + \<bar>z2 - x2\<bar>)\<^sup>2 + (\<bar>?v3\<bar> + \<bar>z3 - x3\<bar>)\<^sup>2)"
    by (intro sqrt3_mono l) simp_all
  also have "\<dots> \<le> sqrt (\<bar>?v1\<bar>\<^sup>2 + \<bar>?v2\<bar>\<^sup>2 + \<bar>?v3\<bar>\<^sup>2) +
      sqrt (\<bar>z1 - x1\<bar>\<^sup>2 + \<bar>z2 - x2\<bar>\<^sup>2 + \<bar>z3 - x3\<bar>\<^sup>2)"
    by (rule sqrt3_triangle)
  finally have "sqrt (?u1\<^sup>2 + ?u2\<^sup>2 + ?u3\<^sup>2) \<le>
      sqrt (?v1\<^sup>2 + ?v2\<^sup>2 + ?v3\<^sup>2) + sqrt ((z1 - x1)\<^sup>2 + (z2 - x2)\<^sup>2 + (z3 - x3)\<^sup>2)"
    by simp
  then show "sqrt (distsq (ex_long_env ov nr tries) x y)
      \<le> sqrt (distsq (ex_long_env ov nr tries) z y) + norm3 (sub3 z x)"
    by (simp add: x y z distsq_def ex_long_env_def ex_long_image_def norm3_def Let_def dot3_def
          sub3_def vec_simps power2_eq_square)
qed

lemma ex_within_radius: "within_radius (ex_placing md)"
proof -
  have s: "sqrt (1 / 4) = 1 / 2"
    by (rule real_sqrt_unique) (simp_all add: power2_eq_square)
  have "norm3 (matvec (rotmat (ex_placing md) n) (dx (onemol (ex_placing md)) ! m)) \<le>
      molradius (onemol (ex_placing md))" if "m < 2" for n m
  proof -
    from that have "m = 0 \<or> m = 1" by arith
    then show ?thesis
      by (auto simp: ex_placing_def ex_molecule_def norm3_def matvec_def dot3_def vec_simps s)
  qed
  then show ?thesis by (simp add: within_radius_def) (simp add: ex_placing_def ex_molecule_def)
qed

lemma ex_long_disjoint: "boxes_disjoint ex_long_procs"
  unfolding boxes_disjoint_def
proof (intro allI impI)
  fix c :: vec3 and r1 r2 :: nat
  assume "r1 < length ex_long_procs" "r2 < length ex_long_procs" "r1 \<noteq> r2"
  then have "r1 < 2" "r2 < 2" "r1 \<noteq> r2" by (simp_all add: ex_long_procs_def)
  then have "(r1 = 0 \<and> r2 = 1) \<or> (r1 = 1 \<and> r2 = 0)" by arith
  then show "\<not> (in_subbox (p_sublo (ex_long_procs ! r1)) (p_subhi (ex_long_procs ! r1)) c \<and>
              in_subbox (p_sublo (ex_long_procs ! r2)) (p_subhi (ex_long_procs ! r2)) c)"
    by (auto simp: ex_long_procs_def in_subbox_def vec_simps)
qed

lemma ex_long_random:
  "add_random (ex_long_env (3 / 2) 2 2) ex_long_procs =
     Inr ([\<lparr>atoms = [(1, (3 / 2, 1 / 2, 1 / 2)), (1, (5 / 2, 1 / 2, 1 / 2))], nquat = 1,
             p_sublo = (0, 0, 0), p_subhi = (4, 1, 1)\<rparr>,
           \<lparr>atoms = [(1, (11 / 2, 1 / 2, 1 / 2)), (1, (13 / 2, 1 / 2, 1 / 2))], nquat = 1,
             p_sublo = (4, 0, 0), p_subhi = (8, 1, 1)\<rparr>],
          2, [None, None])"
  by code_simp

lemma ex_long_values:
  "overlapflag (ex_long_env (3 / 2) 2 2)" "pl_mode (rn_placing (ex_long_env (3 / 2) 2 2)) = MOLECULE"
  "overlap (ex_long_env (3 / 2) 2 2) = 3 / 2"
  "rn_placing (ex_long_env (3 / 2) 2 2) = ex_placing MOLECULE"
  "distsq (ex_long_env (3 / 2) 2 2) (11 / 2, 1 / 2, 1 / 2) (5 / 2, 1 / 2, 1 / 2) = 9"
  "distsq (ex_long_env (3 / 2) 2 2) (5 / 2, 1 / 2, 1 / 2) (3 / 2, 1 / 2, 1 / 2) = 1"
  "distsq (ex_long_env (3 / 2) 2 2) (13 / 2, 1 / 2, 1 / 2) (3 / 2, 1 / 2, 1 / 2) = 9"
  by (simp_all add: ex_long_env_def ex_long_image_def ex_image_def ex_random_env_def
        ex_placing_def distsq_def vec_simps)

text \<open>
  Claim C2, as stated, for a molecule of two atoms at distance 1 placed with
  \<^verbatim>\<open>overlap\<close> 2 (the template of the example, one insertion, one try): the two atoms
  the run creates are at minimum-image distance 1 from each other, below the overlap
  distance and below \<^verbatim>\<open>odist\<close>, which is \<open>2 + 1/2\<close>. Only the centre of a new molecule
  is tested against the atoms already stored.
\<close>

theorem overlap_within_molecule_counterexample:
  "overlapflag (ex_random_env MOLECULE 2 1 1) \<and> boxes_disjoint ex_procs
   \<and> add_random (ex_random_env MOLECULE 2 1 1) ex_procs =
       Inr ([\<lparr>atoms = [(1, (0, 1 / 2, 1 / 2)), (1, (1, 1 / 2, 1 / 2))], nquat = 1,
               p_sublo = (0, 0, 0), p_subhi = (1, 1, 1)\<rparr>,
             \<lparr>atoms = [], nquat = 0, p_sublo = (1, 0, 0), p_subhi = (2, 1, 1)\<rparr>],
            1, [None, None])
   \<and> overlap (ex_random_env MOLECULE 2 1 1) = 2
   \<and> sqrt (distsq (ex_random_env MOLECULE 2 1 1) (1, 1 / 2, 1 / 2) (0, 1 / 2, 1 / 2)) = 1
   \<and> sqrt (distsq (ex_random_env MOLECULE 2 1 1) (0, 1 / 2, 1 / 2) (1, 1 / 2, 1 / 2)) = 1
   \<and> \<not> created_apart (ex_random_env MOLECULE 2 1 1) ex_procs
         [\<lparr>atoms = [(1, (0, 1 / 2, 1 / 2)), (1, (1, 1 / 2, 1 / 2))], nquat = 1,
               p_sublo = (0, 0, 0), p_subhi = (1, 1, 1)\<rparr>,
          \<lparr>atoms = [], nquat = 0, p_sublo = (1, 0, 0), p_subhi = (2, 1, 1)\<rparr>]"
proof -
  let ?e = "ex_random_env MOLECULE 2 1 1"
  let ?ps = "[\<lparr>atoms = [(1, (0, 1 / 2, 1 / 2)), (1, (1, 1 / 2, 1 / 2))], nquat = 1,
               p_sublo = (0, 0, 0), p_subhi = (1, 1, 1)\<rparr>,
          \<lparr>atoms = [], nquat = 0, p_sublo = (1 :: real, 0 :: real, 0 :: real),
            p_subhi = (2 :: real, 1 :: real, 1 :: real)\<rparr>]"
  have o: "overlapflag ?e" "overlap ?e = 2" by (simp_all add: ex_random_env_def)
  have od: "rn_odistsq ?e = 25 / 4"
    by (simp add: rn_odistsq_def odistsq_def odist_def ex_random_env_def ex_placing_def
          ex_molecule_def)
  have n: "\<not> created_apart ?e ex_procs ?ps"
  proof
    assume "created_apart ?e ex_procs ?ps"
    from this [unfolded created_apart_def, rule_format, of 0 0 0 1]
    show False by (simp add: ex_procs_def od ex_distsq)
  qed
  from o n ex_boxes_disjoint ex_random_molecule ex_distsq [of MOLECULE 2 1 1]
  show ?thesis by simp
qed

text \<open>
  Claim C2, amended. In a run of \<^verbatim>\<open>add_random\<close> with overlap avoidance, on ranks
  whose sub-boxes share no position:
  \<^item> in atom mode any two atoms the run created, on one rank or on two, are apart: the
    squared minimum-image distance the code computes from one to the other is at least
    \<^verbatim>\<open>odistsq\<close>, the square of \<^verbatim>\<open>overlap\<close>;
  \<^item> in molecule mode, when \<^verbatim>\<open>overlap\<close> is not negative, the minimum-image distance
    obeys the triangle inequality and the atoms of the template lie within
    \<^verbatim>\<open>molradius\<close> of its centre, any two atoms the run created that are not atoms of
    one created molecule, on one rank or on two, are apart in the same sense: the
    squared distance is at least the square of \<^verbatim>\<open>overlap\<close> (the same holds in atom
    mode, where every created atom is an insertion of its own);
  \<^item> in either mode a position the try loop accepts has squared distance at least
    \<^verbatim>\<open>odistsq\<close> from every atom stored on any rank at that moment, where \<^verbatim>\<open>odist\<close> is
    \<^verbatim>\<open>overlap\<close>, plus the template's \<^verbatim>\<open>molradius\<close> in molecule mode (where the position
    is the molecule's centre, and the atoms of one molecule are not tested against each
    other);
  \<^item> the reduced flag \<^verbatim>\<open>reject_any\<close> (\<^verbatim>\<open>MPI_MAX\<close>) is nonzero exactly when the flag of
    some rank is, and a rank's flag is nonzero exactly when one of its stored atoms is
    closer than \<^verbatim>\<open>odist\<close>;
  \<^item> a squared distance of at least \<^verbatim>\<open>odistsq\<close> is a distance of at least \<^verbatim>\<open>odist\<close>.
\<close>

theorem overlap_separation:
  assumes "overlapflag e" and "boxes_disjoint ps" and "add_random e ps = Inr (ps', n, ws)"
  shows "(pl_mode (rn_placing e) = ATOM \<longrightarrow>
            created_apart e ps ps' \<and> rn_odistsq e = overlap e * overlap e)
       \<and> ((pl_mode (rn_placing e) = MOLECULE \<longrightarrow>
             0 \<le> overlap e \<and> image_triangle e \<and> within_radius (rn_placing e)) \<longrightarrow>
            entities_apart e ps ps')
       \<and> (\<forall>bb qs ntry pos xone pos'.
            try_insert e bb qs ntry pos = (Some xone, pos') \<longrightarrow>
              (\<forall>p\<in>set qs. \<forall>a\<in>set (atoms p). rn_odistsq e \<le> distsq e xone (snd a)))
       \<and> (pl_mode (rn_placing e) = MOLECULE \<longrightarrow>
            rn_odistsq e = (overlap e + molradius (onemol (rn_placing e))) *
                           (overlap e + molradius (onemol (rn_placing e))))
       \<and> (\<forall>qs xone. (reject_any e xone qs \<noteq> 0) =
            (\<exists>p\<in>set qs. local_reject e xone (atoms p) \<noteq> 0))
       \<and> (\<forall>as xone. (local_reject e xone as \<noteq> 0) =
            (\<exists>a\<in>set as. distsq e xone (snd a) < rn_odistsq e))
       \<and> (\<forall>d. rn_odistsq e \<le> d \<longrightarrow>
            odist (pl_mode (rn_placing e)) (overlap e) (molradius (onemol (rn_placing e))) \<le> sqrt d)"
proof -
  from add_random_procs [OF assms(3)] obtain bb where
    p: "ps' = procs (insert_loop e bb (nat (nrandom e)) \<lparr>procs = ps, rng_pos = 30, ninsert = 0\<rparr>)"
    by blast
  have 1: "pl_mode (rn_placing e) = ATOM \<longrightarrow>
            created_apart e ps ps' \<and> rn_odistsq e = overlap e * overlap e"
  proof
    assume atom: "pl_mode (rn_placing e) = ATOM"
    have "random_inv e ps (procs \<lparr>procs = ps, rng_pos = 30, ninsert = 0\<rparr>)"
      by (simp add: random_inv_init)
    from insert_loop_inv [OF assms(2) atom assms(1) this] p
    have "created_apart e ps ps'" by (simp add: random_inv_def)
    with atom show "created_apart e ps ps' \<and> rn_odistsq e = overlap e * overlap e"
      by (simp add: rn_odistsq_def odistsq_def odist_def)
  qed
  have e1: "(pl_mode (rn_placing e) = MOLECULE \<longrightarrow>
             0 \<le> overlap e \<and> image_triangle e \<and> within_radius (rn_placing e)) \<longrightarrow>
            entities_apart e ps ps'"
  proof
    assume h: "pl_mode (rn_placing e) = MOLECULE \<longrightarrow>
             0 \<le> overlap e \<and> image_triangle e \<and> within_radius (rn_placing e)"
    have c: "accepted_clear e"
    proof (cases "pl_mode (rn_placing e)")
      case ATOM
      then show ?thesis by (rule accepted_clear_atom [OF assms(1)])
    next
      case MOLECULE
      with h show ?thesis by (intro accepted_clear_molecule [OF assms(1)]) simp_all
    qed
    have "entities_inv e ps (procs \<lparr>procs = ps, rng_pos = 30, ninsert = 0\<rparr>)"
      by (simp add: entities_inv_init)
    from insert_loop_entities [OF assms(2) c this] p
    show "entities_apart e ps ps'" by (simp add: entities_inv_def)
  qed
  have 2: "\<forall>bb qs ntry pos xone pos'.
            try_insert e bb qs ntry pos = (Some xone, pos') \<longrightarrow>
              (\<forall>p\<in>set qs. \<forall>a\<in>set (atoms p). rn_odistsq e \<le> distsq e xone (snd a))"
    using accepted_far [OF assms(1) try_insert_accepted] by blast
  have 3: "pl_mode (rn_placing e) = MOLECULE \<longrightarrow>
            rn_odistsq e = (overlap e + molradius (onemol (rn_placing e))) *
                           (overlap e + molradius (onemol (rn_placing e)))"
    by (simp add: rn_odistsq_def odistsq_def odist_def)
  have 4: "\<forall>qs xone. (reject_any e xone qs \<noteq> 0) =
            (\<exists>p\<in>set qs. local_reject e xone (atoms p) \<noteq> 0)"
    by (simp add: reject_any_nonzero)
  have 5: "\<forall>as xone. (local_reject e xone as \<noteq> 0) =
            (\<exists>a\<in>set as. distsq e xone (snd a) < rn_odistsq e)"
    by (auto simp: local_reject_zero not_le)
  have 6: "\<forall>d. rn_odistsq e \<le> d \<longrightarrow>
            odist (pl_mode (rn_placing e)) (overlap e) (molradius (onemol (rn_placing e))) \<le> sqrt d"
    using odistsq_sqrt by blast
  from 1 e1 2 3 4 5 6 show ?thesis by blast
qed

theorem overlap_separation_witness:
  "overlapflag (ex_random_env ATOM (1 / 2) 2 2) \<and> boxes_disjoint ex_procs
   \<and> add_random (ex_random_env ATOM (1 / 2) 2 2) ex_procs =
       Inr ([\<lparr>atoms = [(1, (1 / 2, 1 / 2, 1 / 2))], nquat = 0, p_sublo = (0, 0, 0), p_subhi = (1, 1, 1)\<rparr>,
             \<lparr>atoms = [(1, (3 / 2, 1 / 2, 1 / 2))], nquat = 0, p_sublo = (1, 0, 0), p_subhi = (2, 1, 1)\<rparr>],
            2, [None, None])
   \<and> pl_mode (rn_placing (ex_random_env ATOM (1 / 2) 2 2)) = ATOM
   \<and> created_apart (ex_random_env ATOM (1 / 2) 2 2) ex_procs
       [\<lparr>atoms = [(1, (1 / 2, 1 / 2, 1 / 2))], nquat = 0, p_sublo = (0, 0, 0), p_subhi = (1, 1, 1)\<rparr>,
        \<lparr>atoms = [(1, (3 / 2, 1 / 2, 1 / 2))], nquat = 0, p_sublo = (1, 0, 0), p_subhi = (2, 1, 1)\<rparr>]
   \<and> rn_odistsq (ex_random_env ATOM (1 / 2) 2 2) = 1 / 4
   \<and> distsq (ex_random_env ATOM (1 / 2) 2 2) (3 / 2, 1 / 2, 1 / 2) (1 / 2, 1 / 2, 1 / 2) = 1
   \<and> overlapflag (ex_long_env (3 / 2) 2 2) \<and> boxes_disjoint ex_long_procs
   \<and> add_random (ex_long_env (3 / 2) 2 2) ex_long_procs =
       Inr ([\<lparr>atoms = [(1, (3 / 2, 1 / 2, 1 / 2)), (1, (5 / 2, 1 / 2, 1 / 2))], nquat = 1,
               p_sublo = (0, 0, 0), p_subhi = (4, 1, 1)\<rparr>,
             \<lparr>atoms = [(1, (11 / 2, 1 / 2, 1 / 2)), (1, (13 / 2, 1 / 2, 1 / 2))], nquat = 1,
               p_sublo = (4, 0, 0), p_subhi = (8, 1, 1)\<rparr>],
            2, [None, None])
   \<and> pl_mode (rn_placing (ex_long_env (3 / 2) 2 2)) = MOLECULE
   \<and> 0 \<le> overlap (ex_long_env (3 / 2) 2 2) \<and> image_triangle (ex_long_env (3 / 2) 2 2)
   \<and> within_radius (rn_placing (ex_long_env (3 / 2) 2 2))
   \<and> entities_apart (ex_long_env (3 / 2) 2 2) ex_long_procs
       [\<lparr>atoms = [(1, (3 / 2, 1 / 2, 1 / 2)), (1, (5 / 2, 1 / 2, 1 / 2))], nquat = 1,
          p_sublo = (0, 0, 0), p_subhi = (4, 1, 1)\<rparr>,
        \<lparr>atoms = [(1, (11 / 2, 1 / 2, 1 / 2)), (1, (13 / 2, 1 / 2, 1 / 2))], nquat = 1,
          p_sublo = (4, 0, 0), p_subhi = (8, 1, 1)\<rparr>]
   \<and> overlap (ex_long_env (3 / 2) 2 2) = 3 / 2
   \<and> distsq (ex_long_env (3 / 2) 2 2) (11 / 2, 1 / 2, 1 / 2) (5 / 2, 1 / 2, 1 / 2) = 9
   \<and> distsq (ex_long_env (3 / 2) 2 2) (5 / 2, 1 / 2, 1 / 2) (3 / 2, 1 / 2, 1 / 2) = 1
   \<and> distsq (ex_long_env (3 / 2) 2 2) (13 / 2, 1 / 2, 1 / 2) (3 / 2, 1 / 2, 1 / 2) = 9"
proof -
  let ?e = "ex_random_env ATOM (1 / 2) 2 2"
  let ?m = "ex_long_env (3 / 2) 2 2"
  have o: "overlapflag ?e" "pl_mode (rn_placing ?e) = ATOM"
    by (simp_all add: ex_random_env_def ex_placing_def)
  have od: "rn_odistsq ?e = 1 / 4"
    by (simp add: rn_odistsq_def odistsq_def odist_def ex_random_env_def ex_placing_def)
  from overlap_separation [OF o(1) ex_boxes_disjoint ex_random_two] o
  have a: "created_apart ?e ex_procs
       [\<lparr>atoms = [(1, (1 / 2, 1 / 2, 1 / 2))], nquat = 0, p_sublo = (0, 0, 0), p_subhi = (1, 1, 1)\<rparr>,
        \<lparr>atoms = [(1, (3 / 2, 1 / 2, 1 / 2))], nquat = 0, p_sublo = (1, 0, 0), p_subhi = (2, 1, 1)\<rparr>]"
    by blast
  have w: "within_radius (rn_placing ?m)"
    by (simp add: ex_long_values(4) ex_within_radius)
  have p: "0 \<le> overlap ?m" by (simp add: ex_long_values(3))
  from overlap_separation [OF ex_long_values(1) ex_long_disjoint ex_long_random] p w
    ex_long_triangle [of "3 / 2" 2 2]
  have m: "entities_apart ?m ex_long_procs
       [\<lparr>atoms = [(1, (3 / 2, 1 / 2, 1 / 2)), (1, (5 / 2, 1 / 2, 1 / 2))], nquat = 1,
          p_sublo = (0, 0, 0), p_subhi = (4, 1, 1)\<rparr>,
        \<lparr>atoms = [(1, (11 / 2, 1 / 2, 1 / 2)), (1, (13 / 2, 1 / 2, 1 / 2))], nquat = 1,
          p_sublo = (4, 0, 0), p_subhi = (8, 1, 1)\<rparr>]"
    by blast
  from o od a ex_boxes_disjoint ex_random_two ex_distsq(1) [of ATOM "1 / 2" 2 2]
    ex_long_values ex_long_disjoint ex_long_random p w ex_long_triangle [of "3 / 2" 2 2] m
  show ?thesis by simp
qed

subsection \<open>A single atom in a triclinic box\<close>

lemma reset_lamda_range: "periodic \<Longrightarrow> 0 \<le> reset_lamda periodic l \<and> reset_lamda periodic l < 1"
  by (auto simp: reset_lamda_def)

lemma single_coord_axis:
  assumes "sg_triclinic e" and "remapflag e" and "a < 3"
  shows "ax a (single_coord e x) = reset_lamda (ax a (sg_periodicity e)) (ax a (sg_x2lamda e x))"
proof -
  from assms(3) have "a = 0 \<or> a = 1 \<or> a = 2" by arith
  with assms(1,2) show ?thesis
    by (auto simp: single_coord_def Let_def vec_simps)
qed

lemma distinct_all_equal_length:
  assumes "distinct xs" and "\<forall>x\<in>set xs. \<forall>y\<in>set xs. x = y"
  shows "length xs \<le> 1"
proof (cases xs)
  case Nil
  then show ?thesis by simp
next
  case (Cons x ys)
  have "ys = []"
  proof (rule ccontr)
    assume "ys \<noteq> []"
    then obtain y where "y \<in> set ys" by (cases ys) auto
    with assms Cons show False by auto
  qed
  with Cons show ?thesis by simp
qed

lemma single_creators_set:
  "set (single_creators e xone ps) = {me. me < length ps \<and> single_owned e xone (ps ! me)}"
  by (auto simp: single_creators_def)

lemma single_creators_at_most_one:
  assumes "boxes_disjoint ps"
  shows "length (single_creators e xone ps) \<le> 1"
proof (rule distinct_all_equal_length)
  show "distinct (single_creators e xone ps)" by (simp add: single_creators_def)
  show "\<forall>x\<in>set (single_creators e xone ps). \<forall>y\<in>set (single_creators e xone ps). x = y"
  proof (intro ballI)
    fix x y
    assume "x \<in> set (single_creators e xone ps)" "y \<in> set (single_creators e xone ps)"
    then have "x < length ps" "y < length ps" "single_owned e xone (ps ! x)"
      "single_owned e xone (ps ! y)"
      by (simp_all add: single_creators_set)
    with assms show "x = y"
      unfolding boxes_disjoint_def single_owned_def by metis
  qed
qed

lemma single_creators_one:
  assumes "boxes_disjoint ps" and "boxes_cover_unit ps"
    and "\<forall>a<3. 0 \<le> ax a (single_coord e (single_x e xone)) \<and> ax a (single_coord e (single_x e xone)) < 1"
  shows "length (single_creators e xone ps) = 1"
proof -
  from assms(2,3) obtain r where "r < length ps"
    "in_subbox (p_sublo (ps ! r)) (p_subhi (ps ! r)) (single_coord e (single_x e xone))"
    unfolding boxes_cover_unit_def by blast
  then have "r \<in> set (single_creators e xone ps)"
    by (simp add: single_creators_set single_owned_def)
  then have "single_creators e xone ps \<noteq> []" by auto
  then have "1 \<le> length (single_creators e xone ps)"
    by (cases "single_creators e xone ps") simp_all
  with single_creators_at_most_one [OF assms(1), of e xone] show ?thesis by linarith
qed

lemma ex_lamda_disjoint: "boxes_disjoint ex_lamda_procs"
  unfolding boxes_disjoint_def
proof (intro allI impI)
  fix c :: vec3 and r1 r2 :: nat
  assume "r1 < length ex_lamda_procs" "r2 < length ex_lamda_procs" "r1 \<noteq> r2"
  then have "r1 < 2" "r2 < 2" "r1 \<noteq> r2" by (simp_all add: ex_lamda_procs_def)
  then have "(r1 = 0 \<and> r2 = 1) \<or> (r1 = 1 \<and> r2 = 0)" by arith
  then show "\<not> (in_subbox (p_sublo (ex_lamda_procs ! r1)) (p_subhi (ex_lamda_procs ! r1)) c \<and>
              in_subbox (p_sublo (ex_lamda_procs ! r2)) (p_subhi (ex_lamda_procs ! r2)) c)"
    by (auto simp: ex_lamda_procs_def in_subbox_def vec_simps)
qed

lemma ex_lamda_cover: "boxes_cover_unit ex_lamda_procs"
  unfolding boxes_cover_unit_def
proof (intro allI impI)
  fix c :: vec3
  assume "\<forall>a<3. 0 \<le> ax a c \<and> ax a c < 1"
  then have u: "0 \<le> v0 c" "v0 c < 1" "0 \<le> v1 c" "v1 c < 1" "0 \<le> v2 c" "v2 c < 1"
    by (simp_all add: all_less_3) (simp_all add: ax_def)
  show "\<exists>r<length ex_lamda_procs.
      in_subbox (p_sublo (ex_lamda_procs ! r)) (p_subhi (ex_lamda_procs ! r)) c"
  proof (cases "v0 c < 1 / 2")
    case True
    with u have "in_subbox (p_sublo (ex_lamda_procs ! 0)) (p_subhi (ex_lamda_procs ! 0)) c"
      by (simp add: ex_lamda_procs_def in_subbox_def v0_def v1_def v2_def)
    moreover have "0 < length ex_lamda_procs" by (simp add: ex_lamda_procs_def)
    ultimately show ?thesis by blast
  next
    case False
    with u have "in_subbox (p_sublo (ex_lamda_procs ! 1)) (p_subhi (ex_lamda_procs ! 1)) c"
      by (simp add: ex_lamda_procs_def in_subbox_def v0_def v1_def v2_def)
    moreover have "1 < length ex_lamda_procs" by (simp add: ex_lamda_procs_def)
    ultimately show ?thesis by blast
  qed
qed

lemma ex_single_outside:
  "single_coord (ex_single_env (True, True, False))
     (single_x (ex_single_env (True, True, False)) (5 / 4, 1 / 2, 3 / 2)) = (1 / 4, 1 / 2, 3 / 2)"
  "single_creators (ex_single_env (True, True, False)) (5 / 4, 1 / 2, 3 / 2) ex_lamda_procs = []"
  "map (add_single (ex_single_env (True, True, False)) (5 / 4, 1 / 2, 3 / 2)) ex_lamda_procs =
     ex_lamda_procs"
  by code_simp+

lemma not_owned_outside_unit:
  assumes "boxes_within_unit ps" and "r < length ps" and "a < 3"
    and "ax a c < 0 \<or> 1 \<le> ax a c"
  shows "\<not> in_subbox (p_sublo (ps ! r)) (p_subhi (ps ! r)) c"
proof
  assume "in_subbox (p_sublo (ps ! r)) (p_subhi (ps ! r)) c"
  with assms(3) have "ax a (p_sublo (ps ! r)) \<le> ax a c \<and> ax a c < ax a (p_subhi (ps ! r))"
    by (simp add: in_subbox_axes)
  moreover from assms(1,2,3) have "0 \<le> ax a (p_sublo (ps ! r)) \<and> ax a (p_subhi (ps ! r)) \<le> 1"
    by (simp add: boxes_within_unit_def)
  ultimately show False using assms(4) by linarith
qed

lemma single_creators_none:
  assumes "boxes_within_unit ps" and "a < 3"
    and "ax a (single_coord e (single_x e xone)) < 0 \<or> 1 \<le> ax a (single_coord e (single_x e xone))"
  shows "single_creators e xone ps = []" and "map (add_single e xone) ps = ps"
proof -
  have n: "\<not> single_owned e xone (ps ! r)" if "r < length ps" for r
    unfolding single_owned_def by (rule not_owned_outside_unit [OF assms(1) that assms(2,3)])
  then show "single_creators e xone ps = []"
    by (simp add: single_creators_def filter_empty_conv)
  have "add_single e xone p = p" if "p \<in> set ps" for p
  proof -
    from that obtain r where "r < length ps" "p = ps ! r" by (auto simp: in_set_conv_nth)
    with n show ?thesis by (simp add: add_single_def)
  qed
  then show "map (add_single e xone) ps = ps" by (simp add: map_idI)
qed

lemma ex_lamda_within: "boxes_within_unit ex_lamda_procs"
  by (simp add: boxes_within_unit_def ex_lamda_procs_def all_less_3 less_Suc_eq numeral_2_eq_2)
     (simp add: vec_simps)

lemma ex_noremap:
  "sg_x2lamda (ex_noremap_env (True, True, False))
     (single_x (ex_noremap_env (True, True, False)) (5 / 4, 1 / 2, 1 / 2)) = (5 / 4, 1 / 2, 1 / 2)"
  "single_coord (ex_noremap_env (True, True, False))
     (single_x (ex_noremap_env (True, True, False)) (5 / 4, 1 / 2, 1 / 2)) = (0, 1 / 2, 1 / 2)"
  "single_creators (ex_noremap_env (True, True, False)) (5 / 4, 1 / 2, 1 / 2) ex_lamda_procs = [0]"
  "map (add_single (ex_noremap_env (True, True, False)) (5 / 4, 1 / 2, 1 / 2)) ex_lamda_procs =
     [\<lparr>atoms = [(1, (5 / 4, 1 / 2, 1 / 2))], nquat = 0, p_sublo = (0, 0, 0), p_subhi = (1 / 2, 1, 1)\<rparr>,
      \<lparr>atoms = [], nquat = 0, p_sublo = (1 / 2, 0, 0), p_subhi = (1, 1, 1)\<rparr>]"
  "single_coord (ex_noremap_env (True, True, False))
     (single_x (ex_noremap_env (True, True, False)) (5 / 4, 1 / 2, 3 / 2)) = (0, 1 / 2, 3 / 2)"
  by code_simp+

text \<open>
  Claim C10, as stated, for a box that is periodic in \<open>x\<close> and \<open>y\<close> only and a position
  above the box in \<open>z\<close>: after remapping, the lamda coordinates are
  \<open>(1/4, 1/2, 3/2)\<close>, inside \<open>[0, 1)\<close> on the periodic dimensions, and no rank creates
  the atom, although the sub-boxes of the two ranks tile the unit cube.
\<close>

theorem single_outside_nonperiodic_counterexample:
  "sg_triclinic (ex_single_env (True, True, False)) \<and> remapflag (ex_single_env (True, True, False))
   \<and> boxes_disjoint ex_lamda_procs \<and> boxes_cover_unit ex_lamda_procs
   \<and> single_coord (ex_single_env (True, True, False))
       (single_x (ex_single_env (True, True, False)) (5 / 4, 1 / 2, 3 / 2)) = (1 / 4, 1 / 2, 3 / 2)
   \<and> single_creators (ex_single_env (True, True, False)) (5 / 4, 1 / 2, 3 / 2) ex_lamda_procs = []
   \<and> map (add_single (ex_single_env (True, True, False)) (5 / 4, 1 / 2, 3 / 2)) ex_lamda_procs =
       ex_lamda_procs"
  using ex_lamda_disjoint ex_lamda_cover ex_single_outside
  by (simp add: ex_single_env_def)

text \<open>
  Claim C10, amended. In \<^verbatim>\<open>add_single\<close> for a triclinic box with remapping, each lamda
  coordinate of a periodic dimension that is outside \<open>[0, 1)\<close> is set to exactly 0
  before the ownership test and every other coordinate is left as it is, so on every
  periodic dimension the tested coordinate lies in \<open>[0, 1)\<close>. A rank creates the atom
  exactly when the tested coordinate is in its sub-box. When the ranks' sub-boxes share
  no position at most one rank creates it; when they also cover the unit cube and the
  coordinates of the non-periodic dimensions lie in \<open>[0, 1)\<close> as well (always so if all
  three dimensions are periodic), exactly one rank creates it; when the sub-boxes lie
  inside the unit cube and the coordinate of some non-periodic dimension is outside
  \<open>[0, 1)\<close>, no rank creates it and the atoms of all ranks are unchanged.
\<close>

theorem single_remap_in_fractional_box:
  assumes "sg_triclinic e" and "remapflag e"
  shows "(\<forall>a<3. ax a (single_coord e x) =
            (if ax a (sg_periodicity e) \<and> (ax a (sg_x2lamda e x) < 0 \<or> ax a (sg_x2lamda e x) \<ge> 1)
             then 0 else ax a (sg_x2lamda e x)))
       \<and> (\<forall>a<3. ax a (sg_periodicity e) \<longrightarrow>
            0 \<le> ax a (single_coord e x) \<and> ax a (single_coord e x) < 1)
       \<and> (\<forall>p. add_single e xone p =
            (if in_subbox (p_sublo p) (p_subhi p) (single_coord e (single_x e xone))
             then place (sg_placing e) (ntype (sg_placing e)) (single_x e xone) p else p))
       \<and> set (single_creators e xone ps) =
            {me. me < length ps \<and>
                 in_subbox (p_sublo (ps ! me)) (p_subhi (ps ! me)) (single_coord e (single_x e xone))}
       \<and> (boxes_disjoint ps \<longrightarrow> length (single_creators e xone ps) \<le> 1)
       \<and> (boxes_disjoint ps \<and> boxes_cover_unit ps \<and>
          (\<forall>a<3. \<not> ax a (sg_periodicity e) \<longrightarrow>
             0 \<le> ax a (sg_x2lamda e (single_x e xone)) \<and> ax a (sg_x2lamda e (single_x e xone)) < 1)
          \<longrightarrow> length (single_creators e xone ps) = 1)
       \<and> (boxes_within_unit ps \<and>
          (\<exists>a<3. \<not> ax a (sg_periodicity e) \<and>
             (ax a (sg_x2lamda e (single_x e xone)) < 0 \<or> 1 \<le> ax a (sg_x2lamda e (single_x e xone))))
          \<longrightarrow> single_creators e xone ps = [] \<and> map (add_single e xone) ps = ps)"
proof -
  have 1: "\<forall>a<3. ax a (single_coord e x) =
            (if ax a (sg_periodicity e) \<and> (ax a (sg_x2lamda e x) < 0 \<or> ax a (sg_x2lamda e x) \<ge> 1)
             then 0 else ax a (sg_x2lamda e x))" for x
    using single_coord_axis [OF assms] by (simp add: reset_lamda_def)
  have 2: "\<forall>a<3. ax a (sg_periodicity e) \<longrightarrow>
            0 \<le> ax a (single_coord e x) \<and> ax a (single_coord e x) < 1" for x
    using single_coord_axis [OF assms] reset_lamda_range by simp
  have 3: "\<forall>p. add_single e xone p =
            (if in_subbox (p_sublo p) (p_subhi p) (single_coord e (single_x e xone))
             then place (sg_placing e) (ntype (sg_placing e)) (single_x e xone) p else p)"
    by (simp add: add_single_def single_owned_def)
  have 4: "set (single_creators e xone ps) =
            {me. me < length ps \<and>
                 in_subbox (p_sublo (ps ! me)) (p_subhi (ps ! me)) (single_coord e (single_x e xone))}"
    by (simp add: single_creators_set single_owned_def)
  have 5: "boxes_disjoint ps \<longrightarrow> length (single_creators e xone ps) \<le> 1"
    using single_creators_at_most_one by blast
  have 6: "boxes_disjoint ps \<and> boxes_cover_unit ps \<and>
          (\<forall>a<3. \<not> ax a (sg_periodicity e) \<longrightarrow>
             0 \<le> ax a (sg_x2lamda e (single_x e xone)) \<and> ax a (sg_x2lamda e (single_x e xone)) < 1)
          \<longrightarrow> length (single_creators e xone ps) = 1"
  proof (intro impI, elim conjE)
    assume d: "boxes_disjoint ps" and c: "boxes_cover_unit ps"
      and n: "\<forall>a<3. \<not> ax a (sg_periodicity e) \<longrightarrow>
             0 \<le> ax a (sg_x2lamda e (single_x e xone)) \<and> ax a (sg_x2lamda e (single_x e xone)) < 1"
    have "\<forall>a<3. 0 \<le> ax a (single_coord e (single_x e xone)) \<and>
        ax a (single_coord e (single_x e xone)) < 1"
    proof (intro allI impI)
      fix a :: nat assume a: "a < 3"
      show "0 \<le> ax a (single_coord e (single_x e xone)) \<and> ax a (single_coord e (single_x e xone)) < 1"
      proof (cases "ax a (sg_periodicity e)")
        case True
        with 2 [of "single_x e xone"] a show ?thesis by blast
      next
        case False
        with n a single_coord_axis [OF assms a, of "single_x e xone"] show ?thesis
          by (simp add: reset_lamda_def)
      qed
    qed
    from single_creators_one [OF d c this] show "length (single_creators e xone ps) = 1" .
  qed
  have 7: "boxes_within_unit ps \<and>
          (\<exists>a<3. \<not> ax a (sg_periodicity e) \<and>
             (ax a (sg_x2lamda e (single_x e xone)) < 0 \<or> 1 \<le> ax a (sg_x2lamda e (single_x e xone))))
          \<longrightarrow> single_creators e xone ps = [] \<and> map (add_single e xone) ps = ps"
  proof (intro impI, elim conjE exE)
    fix a
    assume w: "boxes_within_unit ps" and a: "a < 3" and np: "\<not> ax a (sg_periodicity e)"
      and o: "ax a (sg_x2lamda e (single_x e xone)) < 0 \<or> 1 \<le> ax a (sg_x2lamda e (single_x e xone))"
    from np single_coord_axis [OF assms a, of "single_x e xone"]
    have "ax a (single_coord e (single_x e xone)) = ax a (sg_x2lamda e (single_x e xone))"
      by (simp add: reset_lamda_def)
    with o have "ax a (single_coord e (single_x e xone)) < 0 \<or>
        1 \<le> ax a (single_coord e (single_x e xone))" by simp
    from single_creators_none [OF w a this]
    show "single_creators e xone ps = [] \<and> map (add_single e xone) ps = ps" by blast
  qed
  from 1 [of x] 2 [of x] 3 4 5 6 7 show ?thesis by blast
qed

theorem single_remap_in_fractional_box_witness:
  "sg_triclinic (ex_noremap_env (True, True, False)) \<and> remapflag (ex_noremap_env (True, True, False))
   \<and> boxes_disjoint ex_lamda_procs \<and> boxes_cover_unit ex_lamda_procs
   \<and> boxes_within_unit ex_lamda_procs
   \<and> sg_x2lamda (ex_noremap_env (True, True, False))
       (single_x (ex_noremap_env (True, True, False)) (5 / 4, 1 / 2, 1 / 2)) = (5 / 4, 1 / 2, 1 / 2)
   \<and> single_coord (ex_noremap_env (True, True, False))
       (single_x (ex_noremap_env (True, True, False)) (5 / 4, 1 / 2, 1 / 2)) = (0, 1 / 2, 1 / 2)
   \<and> single_creators (ex_noremap_env (True, True, False)) (5 / 4, 1 / 2, 1 / 2) ex_lamda_procs = [0]
   \<and> length (single_creators (ex_noremap_env (True, True, False)) (5 / 4, 1 / 2, 1 / 2)
        ex_lamda_procs) = 1
   \<and> map (add_single (ex_noremap_env (True, True, False)) (5 / 4, 1 / 2, 1 / 2)) ex_lamda_procs =
       [\<lparr>atoms = [(1, (5 / 4, 1 / 2, 1 / 2))], nquat = 0, p_sublo = (0, 0, 0), p_subhi = (1 / 2, 1, 1)\<rparr>,
        \<lparr>atoms = [], nquat = 0, p_sublo = (1 / 2, 0, 0), p_subhi = (1, 1, 1)\<rparr>]
   \<and> single_coord (ex_noremap_env (True, True, False))
       (single_x (ex_noremap_env (True, True, False)) (5 / 4, 1 / 2, 3 / 2)) = (0, 1 / 2, 3 / 2)
   \<and> single_creators (ex_noremap_env (True, True, False)) (5 / 4, 1 / 2, 3 / 2) ex_lamda_procs = []
   \<and> map (add_single (ex_noremap_env (True, True, False)) (5 / 4, 1 / 2, 3 / 2)) ex_lamda_procs =
       ex_lamda_procs"
proof -
  let ?e = "ex_noremap_env (True, True, False)"
  have h: "sg_triclinic ?e" "remapflag ?e"
    by (simp_all add: ex_noremap_env_def ex_single_env_def)
  have p: "\<forall>a<3. \<not> ax a (sg_periodicity ?e) \<longrightarrow>
      0 \<le> ax a (sg_x2lamda ?e (single_x ?e (5 / 4, 1 / 2, 1 / 2))) \<and>
      ax a (sg_x2lamda ?e (single_x ?e (5 / 4, 1 / 2, 1 / 2))) < 1"
    by (simp add: all_less_3) (simp add: ex_noremap_env_def ex_single_env_def single_x_def vec_simps)
  have q: "\<exists>a<3. \<not> ax a (sg_periodicity ?e) \<and>
      (ax a (sg_x2lamda ?e (single_x ?e (5 / 4, 1 / 2, 3 / 2))) < 0 \<or>
       1 \<le> ax a (sg_x2lamda ?e (single_x ?e (5 / 4, 1 / 2, 3 / 2))))"
    by (intro exI [of _ 2]) (simp add: ex_noremap_env_def ex_single_env_def single_x_def vec_simps)
  from single_remap_in_fractional_box [OF h, of "(5 / 4, 1 / 2, 1 / 2)" "(5 / 4, 1 / 2, 1 / 2)"
      ex_lamda_procs] ex_lamda_disjoint ex_lamda_cover p
  have one: "length (single_creators ?e (5 / 4, 1 / 2, 1 / 2) ex_lamda_procs) = 1" by blast
  from single_remap_in_fractional_box [OF h, of "(5 / 4, 1 / 2, 3 / 2)" "(5 / 4, 1 / 2, 3 / 2)"
      ex_lamda_procs] ex_lamda_within q
  have none: "single_creators ?e (5 / 4, 1 / 2, 3 / 2) ex_lamda_procs = [] \<and>
      map (add_single ?e (5 / 4, 1 / 2, 3 / 2)) ex_lamda_procs = ex_lamda_procs" by blast
  from h ex_lamda_disjoint ex_lamda_cover ex_lamda_within ex_noremap one none
  show ?thesis by simp
qed

end
